theory Spec2Isabelle
  imports Complex_Main "HOL-Library.Char_ord" "HOL-Library.List_Lexorder"
begin

section \<open>Coordinate conversion (utils/coordinates.py, lib/kn5/utils.py)\<close>

text \<open>
  Coordinates are Python floats (32-bit inside a mathutils Vector). They are modelled
  as real numbers: the conversions only permute and negate components, which is exact
  in floating point as well.
\<close>

type_synonym vec3 = "real \<times> real \<times> real"
type_synonym vec2 = "real \<times> real"

definition ac_to_blender :: "real \<Rightarrow> real \<Rightarrow> real \<Rightarrow> vec3" where
  "ac_to_blender x y z = (x, - z, y)"

definition blender_to_ac :: "real \<Rightarrow> real \<Rightarrow> real \<Rightarrow> vec3" where
  "blender_to_ac x y z = (x, z, - y)"

text \<open>\<open>convert_vector3\<close> of lib/kn5/utils.py:
  \<^verbatim>\<open>Vector((blender_vec[0], blender_vec[2], -blender_vec[1]))\<close>.\<close>

definition convert_vector3 :: "vec3 \<Rightarrow> vec3" where
  "convert_vector3 blender_vec =
     (case blender_vec of (v0, v1, v2) \<Rightarrow> (v0, v2, - v1))"

section \<open>Errors, written values and the writer state\<close>

text \<open>
  Every Python exception that the modelled code can raise is a value. \<open>Exception\<close>
  carries its message; the other constructors are the built-in exception classes.
\<close>

datatype error =
    Exception string
  | IndexError
  | KeyError string
  | ZeroDivisionError
  | RuntimeError string
  | OSError

text \<open>
  The primitive writer (\<open>KN5Writer\<close>, kn5_writer.py) is not among the sources. Its
  calls are recorded as a log of events in call order, one per primitive write, which
  is what the binary layout of the spec (section 6) fixes. \<open>WVector3_nan\<close> is a
  vector of three NaN components; it only arises from \<open>inf - inf\<close> in the bounding
  sphere of an empty vertex list.
\<close>

datatype event =
    WRaw string
  | WUInt nat
  | WInt int
  | WUShort nat
  | WBool bool
  | WFloat real
  | WString string
  | WVector2 vec2
  | WVector3 vec3
  | WVector3_nan
  | WMatrix "real list"
  | WBlob string

record wstate =
  out :: "event list"
  warnings :: "string list"

definition emit :: "event list \<Rightarrow> wstate \<Rightarrow> wstate" where
  "emit es s = s\<lparr>out := out s @ es\<rparr>"

definition warn :: "string \<Rightarrow> wstate \<Rightarrow> wstate" where
  "warn msg s = s\<lparr>warnings := warnings s @ [msg]\<rparr>"

text \<open>The apostrophe of the f-string messages, and \<open>str\<close> of a non-negative int.\<close>

definition sq :: string where
  "sq = [CHR 0x27]"

definition digit_char :: "nat \<Rightarrow> char" where
  "digit_char d = ''0123456789'' ! d"

fun str_nat :: "nat \<Rightarrow> string" where
  "str_nat n = (if n < 10 then [digit_char n] else str_nat (n div 10) @ [digit_char (n mod 10)])"

declare str_nat.simps [simp del]

section \<open>Constants (utils/constants.py, lib/kn5/constants.py)\<close>

definition MAX_VERTICES_PER_MESH :: nat where
  "MAX_VERTICES_PER_MESH = 65536"

definition MESH_CHILD_COUNT :: nat where
  "MESH_CHILD_COUNT = 0"

definition DEFAULT_MATERIAL_ID :: nat where
  "DEFAULT_MATERIAL_ID = 0"

definition NODE_TYPE_Node :: nat where
  "NODE_TYPE_Node = 1"

definition NODE_TYPE_Mesh :: nat where
  "NODE_TYPE_Mesh = 2"

section \<open>UvVertex (lib/kn5/node_writer.py)\<close>

record UvVertex =
  co :: vec3
  normal :: vec3
  uv :: vec2
  tangent :: vec3

definition c0 :: "vec3 \<Rightarrow> real" where "c0 v = fst v"
definition c1 :: "vec3 \<Rightarrow> real" where "c1 v = fst (snd v)"
definition c2 :: "vec3 \<Rightarrow> real" where "c2 v = snd (snd v)"

definition EPSILON :: real where
  "EPSILON = 1 / 100000"

definition QUANT :: real where
  "QUANT = 100000"

text \<open>
  Python's \<open>round\<close> of a float to an int rounds half to even. HOL's \<open>round\<close>
  rounds half up, so the source's function is written out.
\<close>

definition py_round :: "real \<Rightarrow> int" where
  "py_round x =
     (let f = \<lfloor>x\<rfloor>; d = x - of_int f
      in if d < 1 / 2 then f else if 1 / 2 < d then f + 1 else if even f then f else f + 1)"

definition quantize :: "real \<Rightarrow> int" where
  "quantize val = py_round (val * QUANT)"

text \<open>
  \<open>__hash__\<close> is Python's hash of the tuple of the eight quantized components. The
  model returns that tuple (as a list): equal tuples are exactly what Python's tuple
  hash is a function of.
\<close>

definition UvVertex_hash :: "UvVertex \<Rightarrow> int list" where
  "UvVertex_hash self =
     [quantize (c0 (co self)), quantize (c1 (co self)), quantize (c2 (co self)),
      quantize (c0 (normal self)), quantize (c1 (normal self)), quantize (c2 (normal self)),
      quantize (fst (uv self)), quantize (snd (uv self))]"

definition approx_equal :: "real \<Rightarrow> real \<Rightarrow> bool" where
  "approx_equal a b = (\<bar>a - b\<bar> < EPSILON)"

definition UvVertex_eq :: "UvVertex \<Rightarrow> UvVertex \<Rightarrow> bool" where
  "UvVertex_eq self other =
     (if \<not> (approx_equal (c0 (co self)) (c0 (co other)) \<and>
             approx_equal (c1 (co self)) (c1 (co other)) \<and>
             approx_equal (c2 (co self)) (c2 (co other))) then False
      else if \<not> (approx_equal (c0 (normal self)) (c0 (normal other)) \<and>
                  approx_equal (c1 (normal self)) (c1 (normal other)) \<and>
                  approx_equal (c2 (normal self)) (c2 (normal other))) then False
      else if \<not> (approx_equal (fst (uv self)) (fst (uv other)) \<and>
                  approx_equal (snd (uv self)) (snd (uv other))) then False
      else True)"

section \<open>Bounding sphere (NodeWriter._write_bounding_sphere)\<close>

text \<open>
  The running extremes start at \<open>float('-inf')\<close> and \<open>float('inf')\<close>. A running
  value is a \<open>real option\<close>, \<open>None\<close> standing for the infinite start value, which
  every finite coordinate replaces.
\<close>

record extremes =
  max_x :: "real option"
  max_y :: "real option"
  max_z :: "real option"
  min_x :: "real option"
  min_y :: "real option"
  min_z :: "real option"

definition raise_max :: "real \<Rightarrow> real option \<Rightarrow> real option" where
  "raise_max c m = (case m of None \<Rightarrow> Some c | Some x \<Rightarrow> if c > x then Some c else Some x)"

definition lower_min :: "real \<Rightarrow> real option \<Rightarrow> real option" where
  "lower_min c m = (case m of None \<Rightarrow> Some c | Some x \<Rightarrow> if c < x then Some c else Some x)"

definition extremes_step :: "extremes \<Rightarrow> UvVertex \<Rightarrow> extremes" where
  "extremes_step e vertex =
     \<lparr>max_x = raise_max (c0 (co vertex)) (max_x e),
      max_y = raise_max (c1 (co vertex)) (max_y e),
      max_z = raise_max (c2 (co vertex)) (max_z e),
      min_x = lower_min (c0 (co vertex)) (min_x e),
      min_y = lower_min (c1 (co vertex)) (min_y e),
      min_z = lower_min (c2 (co vertex)) (min_z e)\<rparr>"

definition extremes_init :: extremes where
  "extremes_init =
     \<lparr>max_x = None, max_y = None, max_z = None, min_x = None, min_y = None, min_z = None\<rparr>"

text \<open>\<open>min + (max - min) / 2\<close>; with the infinite start values it is NaN (\<open>None\<close>).\<close>

definition center_coord :: "real option \<Rightarrow> real option \<Rightarrow> real option" where
  "center_coord mn mx =
     (case (mn, mx) of (Some a, Some b) \<Rightarrow> Some (a + (b - a) / 2) | _ \<Rightarrow> None)"

definition sphere_center :: "UvVertex list \<Rightarrow> vec3 option" where
  "sphere_center vs =
     (let e = foldl extremes_step extremes_init vs
      in case (center_coord (min_x e) (max_x e), center_coord (min_y e) (max_y e),
               center_coord (min_z e) (max_z e)) of
           (Some x, Some y, Some z) \<Rightarrow> Some (x, y, z)
         | _ \<Rightarrow> None)"

definition distance :: "vec3 \<Rightarrow> vec3 \<Rightarrow> real" where
  "distance p c =
     (let dx = c0 p - c0 c; dy = c1 p - c1 c; dz = c2 p - c2 c
      in sqrt (dx * dx + dy * dy + dz * dz))"

definition radius_step :: "vec3 \<Rightarrow> real \<Rightarrow> UvVertex \<Rightarrow> real" where
  "radius_step c sphere_radius vertex =
     (let dist = distance (co vertex) c in if dist > sphere_radius then dist else sphere_radius)"

definition sphere_radius :: "vec3 \<Rightarrow> UvVertex list \<Rightarrow> real" where
  "sphere_radius c vs = foldl (radius_step c) 0 vs"

text \<open>
  The centre and radius that \<open>_write_bounding_sphere\<close> writes, and its writes. With a
  NaN centre every distance is NaN and \<open>dist > sphere_radius\<close> is false, so the radius
  stays \<open>0.0\<close>.
\<close>

definition bounding_sphere :: "UvVertex list \<Rightarrow> vec3 option \<times> real" where
  "bounding_sphere vs =
     (case sphere_center vs of
        None \<Rightarrow> (None, 0)
      | Some c \<Rightarrow> (Some c, sphere_radius c vs))"

definition write_bounding_sphere :: "UvVertex list \<Rightarrow> wstate \<Rightarrow> wstate" where
  "write_bounding_sphere vs s =
     (case bounding_sphere vs of
        (None, r) \<Rightarrow> emit [WVector3_nan, WFloat r] s
      | (Some c, r) \<Rightarrow> emit [WVector3 c, WFloat r] s)"

section \<open>Mesh records and the split at the vertex limit\<close>

record Mesh =
  material_id :: "nat option"
  vertices :: "UvVertex list"
  indices :: "nat list"

text \<open>
  \<open>vertex_index_mapping\<close> is a dict from an old index to its new index. It is kept as
  the list of its items in insertion order, which is the order Python iterates a dict in.
\<close>

type_synonym index_mapping = "(nat \<times> nat) list"

text \<open>The body of \<open>for face_index in face\<close>.\<close>

definition map_face_index :: "index_mapping \<times> nat list \<Rightarrow> nat \<Rightarrow> index_mapping \<times> nat list" where
  "map_face_index st face_index =
     (case st of (vertex_index_mapping, new_indices) \<Rightarrow>
        (case map_of vertex_index_mapping face_index of
           None \<Rightarrow>
             (let new_index = length vertex_index_mapping
              in (vertex_index_mapping @ [(face_index, new_index)], new_indices @ [new_index]))
         | Some j \<Rightarrow> (vertex_index_mapping, new_indices @ [j])))"

text \<open>
  The loop \<open>for i in range(start_index, len(mesh.indices), 3)\<close> with its \<open>break\<close>.
  \<open>start_index\<close> is raised by 3 in every iteration, so at the head of an iteration it
  equals \<open>i\<close>; the function returns its value when the loop is left. The slice
  \<open>mesh.indices[i:i+3]\<close> is \<open>take 3 (drop i inds)\<close>.
\<close>

function chunk_faces ::
  "nat \<Rightarrow> nat list \<Rightarrow> nat \<Rightarrow> index_mapping \<Rightarrow> nat list \<Rightarrow> nat \<times> index_mapping \<times> nat list" where
  "chunk_faces limit inds i vertex_index_mapping new_indices =
     (if i < length inds then
        (case foldl map_face_index (vertex_index_mapping, new_indices) (take 3 (drop i inds)) of
           (m, ni) \<Rightarrow>
             if int (length m) \<ge> int limit - 3 then (i + 3, m, ni)
             else chunk_faces limit inds (i + 3) m ni)
      else (i, vertex_index_mapping, new_indices))"
  by pat_completeness auto
termination
  by (relation "measure (\<lambda>(limit, inds, i, m, ni). length inds - i)") auto

declare chunk_faces.simps [simp del]

text \<open>\<open>mesh.vertices[v]\<close> for each key, raising IndexError out of range.\<close>

fun lookup_vertices :: "UvVertex list \<Rightarrow> nat list \<Rightarrow> error + UvVertex list" where
  "lookup_vertices vs [] = Inr []"
| "lookup_vertices vs (v # rest) =
     (if v < length vs then
        (case lookup_vertices vs rest of Inl e \<Rightarrow> Inl e | Inr xs \<Rightarrow> Inr (vs ! v # xs))
      else Inl IndexError)"

lemma chunk_faces_advances:
  "i < length inds \<Longrightarrow> i < fst (chunk_faces limit inds i m ni)"
proof (induction limit inds i m ni rule: chunk_faces.induct)
  case (1 limit inds i m ni)
  show ?case
  proof (cases "foldl map_face_index (m, ni) (take 3 (drop i inds))")
    case (Pair m' ni')
    show ?thesis
    proof (cases "int (length m') \<ge> int limit - 3")
      case True
      with Pair "1.prems" show ?thesis
        by (simp add: chunk_faces.simps [of limit inds i m ni])
    next
      case False
      show ?thesis
      proof (cases "i + 3 < length inds")
        case True
        with "1.IH" [OF "1.prems" Pair [symmetric] False] Pair False "1.prems" show ?thesis
          by (simp add: chunk_faces.simps [of limit inds i m ni])
      next
        case F2: False
        with Pair False "1.prems" show ?thesis
          by (simp add: chunk_faces.simps [of limit inds i m ni]
              chunk_faces.simps [of limit inds "i + 3" m' ni'])
      qed
    qed
  qed
qed

text \<open>
  The loop \<open>while start_index < len(mesh.indices)\<close>: one chunk per iteration, its
  vertices read in the order of their new indices.
\<close>

function split_chunks :: "nat \<Rightarrow> Mesh \<Rightarrow> nat \<Rightarrow> error + Mesh list" where
  "split_chunks limit mesh start_index =
     (if start_index < length (indices mesh) then
        (case chunk_faces limit (indices mesh) start_index [] [] of
           (start_index', vertex_index_mapping, new_indices) \<Rightarrow>
             (case lookup_vertices (vertices mesh)
                     (map fst (sort_key snd vertex_index_mapping)) of
                Inl e \<Rightarrow> Inl e
              | Inr verts \<Rightarrow>
                  (case split_chunks limit mesh start_index' of
                     Inl e \<Rightarrow> Inl e
                   | Inr rest \<Rightarrow>
                       Inr (\<lparr>material_id = material_id mesh, vertices = verts,
                             indices = new_indices\<rparr> # rest))))
      else Inr [])"
  by pat_completeness auto
termination
  apply (relation "measure (\<lambda>(limit, mesh, start_index). length (indices mesh) - start_index)")
   apply simp
  subgoal for limit mesh start_index x y
    using chunk_faces_advances [of start_index "indices mesh" limit "[]" "[]"]
    by (cases "chunk_faces limit (indices mesh) start_index [] []") auto
  done

declare split_chunks.simps [simp del]

fun split_meshes_at :: "nat \<Rightarrow> Mesh list \<Rightarrow> error + Mesh list" where
  "split_meshes_at limit [] = Inr []"
| "split_meshes_at limit (mesh # divided_meshes) =
     (case (if length (vertices mesh) > limit then split_chunks limit mesh 0 else Inr [mesh]) of
        Inl e \<Rightarrow> Inl e
      | Inr ms \<Rightarrow>
          (case split_meshes_at limit divided_meshes of
             Inl e \<Rightarrow> Inl e
           | Inr new_meshes \<Rightarrow> Inr (ms @ new_meshes)))"

text \<open>\<open>_split_meshes_for_vertex_limit\<close>, with \<open>limit = MAX_VERTICES_PER_MESH\<close>.\<close>

definition split_meshes_for_vertex_limit :: "Mesh list \<Rightarrow> error + Mesh list" where
  "split_meshes_for_vertex_limit divided_meshes =
     split_meshes_at MAX_VERTICES_PER_MESH divided_meshes"

section \<open>Names and patterns\<close>

text \<open>
  Strings are lists of 8-bit characters; the patterns below are over ASCII, where
  \<open>str.lower\<close>, \<open>re.IGNORECASE\<close> and \<open>\d\<close> act as written here.
\<close>

definition is_hidden_name :: "string \<Rightarrow> bool" where
  "is_hidden_name name = (take 2 name = ''__'')"

definition is_upper :: "char \<Rightarrow> bool" where
  "is_upper c = (65 \<le> (of_char c :: nat) \<and> (of_char c :: nat) \<le> 90)"

definition is_lower :: "char \<Rightarrow> bool" where
  "is_lower c = (97 \<le> (of_char c :: nat) \<and> (of_char c :: nat) \<le> 122)"

definition is_digit :: "char \<Rightarrow> bool" where
  "is_digit c = (48 \<le> (of_char c :: nat) \<and> (of_char c :: nat) \<le> 57)"

definition lower_char :: "char \<Rightarrow> char" where
  "lower_char c = (if is_upper c then char_of ((of_char c :: nat) + 32) else c)"

definition lower :: "string \<Rightarrow> string" where
  "lower s = map lower_char s"

text \<open>
  The fragment of Python's regular expressions that the patterns of this module use:
  a literal character, a literal under IGNORECASE, \<open>\d\<close>, \<open>.\<close> (any character but
  a newline), the class \<open>[A-Z0-9_]\<close> under IGNORECASE, sequence and \<open>+\<close>. Matching
  is by derivatives.
\<close>

datatype atom = Lit char | LitI char | Digit | Dot | GroupChar

fun atom_match :: "atom \<Rightarrow> char \<Rightarrow> bool" where
  "atom_match (Lit a) c = (c = a)"
| "atom_match (LitI a) c = (lower_char c = lower_char a)"
| "atom_match Digit c = is_digit c"
| "atom_match Dot c = (c \<noteq> CHR 0x0A)"
| "atom_match GroupChar c = (is_upper c \<or> is_lower c \<or> is_digit c \<or> c = CHR ''_'')"

datatype rx = Null | Eps | Atom atom | Seq rx rx | Alt rx rx | Star rx

fun nullable :: "rx \<Rightarrow> bool" where
  "nullable Null = False"
| "nullable Eps = True"
| "nullable (Atom a) = False"
| "nullable (Seq r s) = (nullable r \<and> nullable s)"
| "nullable (Alt r s) = (nullable r \<or> nullable s)"
| "nullable (Star r) = True"

fun deriv :: "char \<Rightarrow> rx \<Rightarrow> rx" where
  "deriv c Null = Null"
| "deriv c Eps = Null"
| "deriv c (Atom a) = (if atom_match a c then Eps else Null)"
| "deriv c (Seq r s) =
     (if nullable r then Alt (Seq (deriv c r) s) (deriv c s) else Seq (deriv c r) s)"
| "deriv c (Alt r s) = Alt (deriv c r) (deriv c s)"
| "deriv c (Star r) = Seq (deriv c r) (Star r)"

definition matches :: "rx \<Rightarrow> string \<Rightarrow> bool" where
  "matches r s = nullable (foldl (\<lambda>r c. deriv c r) r s)"

definition Plus :: "rx \<Rightarrow> rx" where
  "Plus r = Seq r (Star r)"

fun lit :: "string \<Rightarrow> rx" where
  "lit [] = Eps"
| "lit (c # cs) = Seq (Atom (Lit c)) (lit cs)"

fun lit_ignorecase :: "string \<Rightarrow> rx" where
  "lit_ignorecase [] = Eps"
| "lit_ignorecase (c # cs) = Seq (Atom (LitI c)) (lit_ignorecase cs)"

text \<open>
  \<open>re.match\<close> of a pattern \<open>^r$\<close>: the whole string matches \<open>r\<close>, or the string
  ends with a newline and the rest matches \<open>r\<close> (\<open>$\<close> also matches just before a
  final newline).
\<close>

definition match_to_end :: "rx \<Rightarrow> string \<Rightarrow> bool" where
  "match_to_end r s = (matches r s \<or> (s \<noteq> [] \<and> last s = CHR 0x0A \<and> matches r (butlast s)))"

text \<open>
  \<open>ASSETTO_CORSA_OBJECTS\<close> (utils/constants.py), each compiled as \<open>^pattern$\<close> by
  \<open>_init_assetto_corsa_objects\<close>.
\<close>

definition ASSETTO_CORSA_OBJECTS :: "rx list" where
  "ASSETTO_CORSA_OBJECTS =
     [Seq (lit ''AC_START_'') (Plus (Atom Digit)),
      Seq (lit ''AC_PIT_'') (Plus (Atom Digit)),
      Seq (lit ''AC_TIME_'') (Seq (Plus (Atom Digit)) (lit ''_L'')),
      Seq (lit ''AC_TIME_'') (Seq (Plus (Atom Digit)) (lit ''_R'')),
      Seq (lit ''AC_HOTLAP_START_'') (Plus (Atom Digit)),
      lit ''AC_OPEN_FINISH_R'',
      lit ''AC_OPEN_FINISH_L'',
      lit ''AC_OPEN_START_L'',
      lit ''AC_OPEN_START_R'',
      Seq (lit ''AC_AUDIO_'') (Plus (Atom Dot)),
      Seq (lit ''AC_CREW_'') (Plus (Atom Digit))]"

definition is_ac_object :: "string \<Rightarrow> bool" where
  "is_ac_object name = list_ex (\<lambda>regex. match_to_end regex name) ASSETTO_CORSA_OBJECTS"

text \<open>
  \<open>KSTREE_GROUP_PATTERN = ^KSTREE_GROUP_([A-Z0-9_]+)_(\d+)$\<close> under IGNORECASE, and
  \<open>_get_kstree_group_name\<close>, which returns group 1 of the match. The prefix has 13
  characters. Group 1 is greedy: the matcher tries the longest candidate first and
  backtracks to shorter ones until the rest of the pattern matches.
\<close>

definition KSTREE_PREFIX :: string where
  "KSTREE_PREFIX = ''KSTREE_GROUP_''"

definition get_kstree_group_name :: "string \<Rightarrow> string option" where
  "get_kstree_group_name obj_name =
     (if matches (lit_ignorecase KSTREE_PREFIX) (take (length KSTREE_PREFIX) obj_name) then
        (let rest = drop (length KSTREE_PREFIX) obj_name
         in case find (\<lambda>k. matches (Plus (Atom GroupChar)) (take k rest) \<and>
                  match_to_end (Seq (Atom (LitI CHR ''_'')) (Plus (Atom Digit))) (drop k rest))
                 (rev [0..<Suc (length rest)]) of
              None \<Rightarrow> None
            | Some k \<Rightarrow> Some (take k rest))
      else None)"

section \<open>The scene snapshot\<close>

text \<open>
  What the exporter reads from Blender. The results of Blender's own operations are
  part of the snapshot: the welded and triangulated mesh of \<open>obj.to_mesh()\<close>, the
  world position \<open>matrix_world @ co\<close> of each loop's vertex, whether
  \<open>calc_tangents\<close> raises RuntimeError, and the converted matrices.
\<close>

record loop =
  world_co :: vec3
  loop_normal :: vec3
  loop_uv :: vec2
  loop_tangent :: vec3

record triangle =
  material_index :: nat
  loops :: "loop \<times> loop \<times> loop"

text \<open>
  A material: its name, and the mapping (scale, translation) of its first texture node
  with \<open>show_texture\<close>, which is what \<open>get_active_material_texture_slot\<close> returns.
\<close>

record material =
  mat_name :: string
  active_texture :: "(vec3 \<times> vec3) option"

record mesh_data =
  has_uv_layers :: bool
  calc_tangents_raises :: bool
  uv_layer_active :: bool
  materials :: "material option list"
  loop_triangles :: "triangle list"

record collection =
  col_hide_viewport :: bool
  layer_exclude :: "bool option"

record AC_KN5 =
  lod_in :: real
  lod_out :: real
  cast_shadows :: bool
  kn5_visible :: bool
  kn5_transparent :: bool
  kn5_renderable :: bool

record obj_info =
  obj_name :: string
  obj_type :: string
  hide_viewport :: bool
  hide_render :: bool
  hide_get :: bool
  users_collection :: "collection list"
  ac_kn5 :: AC_KN5
  mesh :: mesh_data
  dimensions :: vec3
  matrix_local_converted :: "real list"
  parent_inverse_converted :: "real list"

text \<open>An object with its children. An object has a parent iff it is some object's child.\<close>

datatype obj = Obj obj_info "obj list"

fun info :: "obj \<Rightarrow> obj_info" where
  "info (Obj i cs) = i"

fun children :: "obj \<Rightarrow> obj list" where
  "children (Obj i cs) = cs"

text \<open>
  \<open>is_object_excluded_by_collection\<close> (lib/kn5/utils.py). \<open>layer_exclude\<close> of a
  collection is the \<open>exclude\<close> flag of the layer collection that
  \<open>find_layer_collection\<close> finds for it, \<open>None\<close> when it finds none.
\<close>

definition is_object_excluded_by_collection :: "obj_info \<Rightarrow> bool" where
  "is_object_excluded_by_collection ob =
     (if hide_viewport ob then True
      else if hide_render ob then True
      else if hide_get ob then True
      else if users_collection ob = [] then False
      else \<not> list_ex (\<lambda>c. \<not> col_hide_viewport c \<and> layer_exclude c = Some False)
               (users_collection ob))"

text \<open>
  The parts of the writer's environment that are not in the snapshot of an object:
  \<open>material_positions\<close> of the material writer (material_writer.py is not among the
  sources), the order in which Python iterates the set \<open>used_materials\<close>, and
  \<open>os.linesep\<close>.
\<close>

record env =
  material_positions :: "(string \<times> nat) list"
  set_order :: "nat list \<Rightarrow> nat list"
  linesep :: string

definition set_order_ok :: "env \<Rightarrow> bool" where
  "set_order_ok e = (\<forall>xs. set (set_order e xs) = set xs \<and> distinct (set_order e xs))"

section \<open>Splitting an object by materials (NodeWriter)\<close>

text \<open>
  The dict \<open>vertices\<close> from a UvVertex to its index, as its items in insertion order.
  A lookup finds the first key with the same hash that compares equal.
\<close>

type_synonym vertex_dict = "(UvVertex \<times> nat) list"

definition dict_find :: "vertex_dict \<Rightarrow> UvVertex \<Rightarrow> nat option" where
  "dict_find d vertex =
     (case find (\<lambda>(k, i). UvVertex_hash k = UvVertex_hash vertex \<and> UvVertex_eq k vertex) d of
        None \<Rightarrow> None
      | Some (k, i) \<Rightarrow> Some i)"

text \<open>\<open>if vertex not in vertices: ...; face_indices.append(vertices[vertex])\<close>.\<close>

definition add_vertex :: "vertex_dict \<times> nat list \<Rightarrow> UvVertex \<Rightarrow> vertex_dict \<times> nat list" where
  "add_vertex st vertex =
     (case st of (d, face_indices) \<Rightarrow>
        (case dict_find d vertex of
           None \<Rightarrow> (d @ [(vertex, length d)], face_indices @ [length d])
         | Some i \<Rightarrow> (d, face_indices @ [i])))"

definition loops_list :: "triangle \<Rightarrow> loop list" where
  "loops_list t = (case loops t of (a, b, c) \<Rightarrow> [a, b, c])"

definition has_uvs :: "mesh_data \<Rightarrow> bool" where
  "has_uvs m = (has_uv_layers m \<and> \<not> calc_tangents_raises m)"

definition uv_layer :: "mesh_data \<Rightarrow> bool" where
  "uv_layer m = (has_uvs m \<and> uv_layer_active m)"

definition flip_uv :: "vec2 \<Rightarrow> vec2" where
  "flip_uv u = (fst u, - snd u)"

definition loop_tangent_converted :: "mesh_data \<Rightarrow> loop \<Rightarrow> vec3" where
  "loop_tangent_converted m l =
     (if has_uvs m then convert_vector3 (loop_tangent l) else (1, 0, 0))"

text \<open>The vertex of one loop in \<open>_extract_tree_mesh_data\<close>.\<close>

definition tree_vertex :: "mesh_data \<Rightarrow> loop \<Rightarrow> UvVertex" where
  "tree_vertex m l =
     \<lparr>co = convert_vector3 (world_co l),
      normal = convert_vector3 (loop_normal l),
      uv = (if uv_layer m then flip_uv (loop_uv l) else (0, 0)),
      tangent = loop_tangent_converted m l\<rparr>"

text \<open>
  One triangle of the material being collected: its three vertices go through the
  dict, and the face is stored as \<open>(face_indices[1], face_indices[2], face_indices[0])\<close>.
\<close>

definition add_face :: "vertex_dict \<times> nat list \<Rightarrow> UvVertex list \<Rightarrow> vertex_dict \<times> nat list" where
  "add_face st vs =
     (case st of (d, inds) \<Rightarrow>
        (case foldl add_vertex (d, []) vs of
           (d', face_indices) \<Rightarrow>
             (d', inds @ [face_indices ! 1, face_indices ! 2, face_indices ! 0])))"

definition vertices_list :: "vertex_dict \<Rightarrow> UvVertex list" where
  "vertices_list d = map fst (sort_key snd d)"

definition tree_collect :: "mesh_data \<Rightarrow> nat \<Rightarrow> vertex_dict \<times> nat list" where
  "tree_collect m idx =
     foldl (\<lambda>st t. if idx \<noteq> material_index t then st
                    else add_face st (map (tree_vertex m) (loops_list t)))
       ([], []) (loop_triangles m)"

text \<open>
  The body of \<open>for material_index in used_materials\<close> in \<open>_extract_tree_mesh_data\<close>:
  what it appends to \<open>result\<close>. \<open>mesh_copy.materials[material_index]\<close> raises
  IndexError out of range.
\<close>

definition tree_material ::
  "env \<Rightarrow> mesh_data \<Rightarrow> nat \<Rightarrow> error + (UvVertex list \<times> nat list \<times> nat) list" where
  "tree_material e m idx =
     (if idx \<ge> length (materials m) then Inl IndexError
      else case materials m ! idx of
        None \<Rightarrow> Inr []
      | Some mat \<Rightarrow>
          if is_hidden_name (mat_name mat) then Inr []
          else (case tree_collect m idx of
                  (d, inds) \<Rightarrow>
                    (case map_of (material_positions e) (mat_name mat) of
                       None \<Rightarrow> Inr []
                     | Some mid \<Rightarrow> Inr [(vertices_list d, inds, mid)])))"

fun collect_results :: "('a \<Rightarrow> error + 'b list) \<Rightarrow> 'a list \<Rightarrow> error + 'b list" where
  "collect_results f [] = Inr []"
| "collect_results f (x # xs) =
     (case f x of
        Inl e \<Rightarrow> Inl e
      | Inr ys \<Rightarrow> (case collect_results f xs of Inl e \<Rightarrow> Inl e | Inr zs \<Rightarrow> Inr (ys @ zs)))"

definition used_materials :: "env \<Rightarrow> mesh_data \<Rightarrow> nat list" where
  "used_materials e m = set_order e (map material_index (loop_triangles m))"

definition extract_tree_mesh_data ::
  "env \<Rightarrow> obj_info \<Rightarrow> error + (UvVertex list \<times> nat list \<times> nat) list" where
  "extract_tree_mesh_data e ob =
     (if materials (mesh ob) = [] then Inr []
      else collect_results (tree_material e (mesh ob)) (used_materials e (mesh ob)))"

text \<open>
  \<open>_calculate_uvs\<close>: the position is divided by the object's dimensions (a float
  division, ZeroDivisionError on \<open>0.0\<close>), then scaled and shifted by the active texture.
\<close>

definition calculate_uvs :: "obj_info \<Rightarrow> material \<Rightarrow> vec3 \<Rightarrow> error + vec2" where
  "calculate_uvs ob mat position =
     (let size = dimensions ob
      in if c0 size = 0 then Inl ZeroDivisionError
         else if c1 size = 0 then Inl ZeroDivisionError
         else (let x = c0 position / c0 size; y = c1 position / c1 size
               in case active_texture mat of
                    None \<Rightarrow> Inr (x, y)
                  | Some (scale, translation) \<Rightarrow>
                      Inr (x * c0 scale + c0 translation, y * c1 scale + c1 translation)))"

text \<open>The vertex of one loop in \<open>_split_object_by_materials\<close>.\<close>

definition split_vertex :: "obj_info \<Rightarrow> material \<Rightarrow> loop \<Rightarrow> error + UvVertex" where
  "split_vertex ob mat l =
     (case (if uv_layer (mesh ob) then Inr (flip_uv (loop_uv l))
            else calculate_uvs ob mat (world_co l)) of
        Inl e \<Rightarrow> Inl e
      | Inr u \<Rightarrow>
          Inr \<lparr>co = convert_vector3 (world_co l),
               normal = convert_vector3 (loop_normal l),
               uv = u,
               tangent = loop_tangent_converted (mesh ob) l\<rparr>)"

fun map_result :: "('a \<Rightarrow> error + 'b) \<Rightarrow> 'a list \<Rightarrow> error + 'b list" where
  "map_result f [] = Inr []"
| "map_result f (x # xs) =
     (case f x of
        Inl e \<Rightarrow> Inl e
      | Inr y \<Rightarrow> (case map_result f xs of Inl e \<Rightarrow> Inl e | Inr ys \<Rightarrow> Inr (y # ys)))"

fun split_collect ::
  "obj_info \<Rightarrow> material \<Rightarrow> nat \<Rightarrow> vertex_dict \<times> nat list \<Rightarrow> triangle list
     \<Rightarrow> error + vertex_dict \<times> nat list" where
  "split_collect ob mat idx st [] = Inr st"
| "split_collect ob mat idx st (t # ts) =
     (if idx \<noteq> material_index t then split_collect ob mat idx st ts
      else case map_result (split_vertex ob mat) (loops_list t) of
             Inl e \<Rightarrow> Inl e
           | Inr vs \<Rightarrow> split_collect ob mat idx (add_face st vs) ts)"

text \<open>
  The body of \<open>for material_index in used_materials\<close> in
  \<open>_split_object_by_materials\<close>. A loop triangle has three loops, so the branch
  \<open>len(face_indices) == 4\<close> is never taken. \<open>material_positions[material_name]\<close>
  raises KeyError for a name the material writer does not know.
\<close>

definition split_material :: "env \<Rightarrow> obj_info \<Rightarrow> nat \<Rightarrow> error + Mesh list" where
  "split_material e ob idx =
     (if idx \<ge> length (materials (mesh ob)) then Inl IndexError
      else case materials (mesh ob) ! idx of
        None \<Rightarrow>
          Inl (Exception (''Material slot '' @ str_nat idx @ '' for object '' @ sq @ obj_name ob
                          @ sq @ '' has no material assigned''))
      | Some mat \<Rightarrow>
          if is_hidden_name (mat_name mat) then
            Inl (Exception (''Material '' @ sq @ mat_name mat @ sq
                            @ '' is ignored but is used by object '' @ sq @ obj_name ob @ sq))
          else (case split_collect ob mat idx ([], []) (loop_triangles (mesh ob)) of
                  Inl err \<Rightarrow> Inl err
                | Inr (d, inds) \<Rightarrow>
                    (case map_of (material_positions e) (mat_name mat) of
                       None \<Rightarrow> Inl (KeyError (mat_name mat))
                     | Some mid \<Rightarrow>
                         Inr [\<lparr>material_id = Some mid, vertices = vertices_list d,
                               indices = inds\<rparr>])))"

definition split_object_by_materials :: "env \<Rightarrow> obj_info \<Rightarrow> error + Mesh list" where
  "split_object_by_materials e ob =
     (if materials (mesh ob) = [] then
        Inl (Exception (''Object '' @ sq @ obj_name ob @ sq @ '' has no material assigned''))
      else collect_results (split_material e ob) (used_materials e (mesh ob)))"

section \<open>Writing nodes (NodeWriter)\<close>

record NodeProperties =
  np_name :: string
  lodIn :: real
  lodOut :: real
  layer :: nat
  castShadows :: bool
  visible :: bool
  transparent :: bool
  renderable :: bool

definition node_properties_of :: "obj_info \<Rightarrow> NodeProperties" where
  "node_properties_of node =
     \<lparr>np_name = obj_name node,
      lodIn = lod_in (ac_kn5 node),
      lodOut = lod_out (ac_kn5 node),
      layer = 0,
      castShadows = cast_shadows (ac_kn5 node),
      visible = kn5_visible (ac_kn5 node),
      transparent = kn5_transparent (ac_kn5 node),
      renderable = kn5_renderable (ac_kn5 node)\<rparr>"

text \<open>\<open>Matrix()\<close>, the 4x4 identity, row-major.\<close>

definition identity_matrix :: "real list" where
  "identity_matrix = [1, 0, 0, 0, 0, 1, 0, 0, 0, 0, 1, 0, 0, 0, 0, 1]"

definition write_base_node_data :: "string \<Rightarrow> nat \<Rightarrow> bool \<Rightarrow> real list \<Rightarrow> wstate \<Rightarrow> wstate" where
  "write_base_node_data name childCount active transform s =
     emit [WUInt NODE_TYPE_Node, WString name, WUInt childCount, WBool active,
           WMatrix transform] s"

definition vertex_events :: "UvVertex \<Rightarrow> event list" where
  "vertex_events vertex =
     [WVector3 (co vertex), WVector3 (normal vertex), WVector2 (uv vertex),
      WVector3 (tangent vertex)]"

text \<open>
  \<open>_write_mesh\<close>. The node header is written before the vertex count is checked, so
  the exception leaves these writes in the state.
\<close>

definition write_mesh :: "string \<Rightarrow> Mesh \<Rightarrow> NodeProperties \<Rightarrow> wstate \<Rightarrow> error option \<times> wstate" where
  "write_mesh name m node_properties s =
     (let s1 = emit [WUInt NODE_TYPE_Mesh, WString name, WUInt MESH_CHILD_COUNT, WBool True,
                     WBool (castShadows node_properties), WBool (visible node_properties),
                     WBool (transparent node_properties)] s
      in if length (vertices m) > MAX_VERTICES_PER_MESH then
           (Some (Exception (''Only '' @ str_nat MAX_VERTICES_PER_MESH
                             @ '' vertices per mesh allowed. ('' @ sq @ name @ sq @ '')'')), s1)
         else
           (let s2 = emit ([WUInt (length (vertices m))] @ concat (map vertex_events (vertices m))
                           @ [WUInt (length (indices m))] @ map WUShort (indices m)) s1;
                s3 = (case material_id m of
                        None \<Rightarrow>
                          emit [WUInt DEFAULT_MATERIAL_ID]
                            (warn (''No material to mesh '' @ sq @ name @ sq @ '' assigned'') s2)
                      | Some mid \<Rightarrow> emit [WUInt mid] s2);
                s4 = emit [WUInt (layer node_properties), WFloat (lodIn node_properties),
                           WFloat (lodOut node_properties)] s3;
                s5 = write_bounding_sphere (vertices m) s4
            in (None, emit [WBool (renderable node_properties)] s5)))"

fun write_meshes :: "string \<Rightarrow> Mesh list \<Rightarrow> NodeProperties \<Rightarrow> wstate \<Rightarrow> error option \<times> wstate" where
  "write_meshes name [] node_properties s = (None, s)"
| "write_meshes name (m # ms) node_properties s =
     (case write_mesh name m node_properties s of
        (Some err, s') \<Rightarrow> (Some err, s')
      | (None, s') \<Rightarrow> write_meshes name ms node_properties s')"

text \<open>
  \<open>_write_mesh_node\<close>. The exporter constructs the node writer with empty settings,
  so \<open>self.node_settings\<close> is empty and no setting is applied to the properties.
\<close>

definition write_mesh_node :: "env \<Rightarrow> bool \<Rightarrow> obj_info \<Rightarrow> wstate \<Rightarrow> error option \<times> wstate" where
  "write_mesh_node e has_parent ob s =
     (case split_object_by_materials e ob of
        Inl err \<Rightarrow> (Some err, s)
      | Inr divided \<Rightarrow>
          (case split_meshes_for_vertex_limit divided of
             Inl err \<Rightarrow> (Some err, s)
           | Inr divided_meshes \<Rightarrow>
               (let s1 = (if has_parent \<or> length divided_meshes > 1 then
                            write_base_node_data (obj_name ob) (length divided_meshes) True
                              (if has_parent then parent_inverse_converted ob
                               else identity_matrix) s
                          else s)
                in write_meshes (obj_name ob) divided_meshes (node_properties_of ob) s1)))"

fun any_child_is_mesh :: "obj \<Rightarrow> bool"
  and any_of_children :: "obj list \<Rightarrow> bool" where
  "any_child_is_mesh (Obj ob cs) = any_of_children cs"
| "any_of_children [] = False"
| "any_of_children (child # cs) =
     (if obj_type (info child) = ''MESH'' \<or> obj_type (info child) = ''CURVE''
         \<or> any_child_is_mesh child then True
      else any_of_children cs)"

definition counted_child :: "obj \<Rightarrow> bool" where
  "counted_child child =
     (\<not> is_hidden_name (obj_name (info child)) \<and> \<not> is_object_excluded_by_collection (info child))"

text \<open>
  \<open>_write_base_node\<close> for an object (it is never called without one). The second
  line of the warning is not an f-string in the source.
\<close>

definition write_base_node :: "env \<Rightarrow> obj \<Rightarrow> wstate \<Rightarrow> wstate" where
  "write_base_node e ob s =
     (let s1 = (if \<not> is_ac_object (obj_name (info ob)) \<and> \<not> any_child_is_mesh ob then
                  warn (''Unknown logical object '' @ sq @ obj_name (info ob) @ sq
                        @ '' might prevent other objects from loading.'' @ linesep e
                        @ [CHR 0x09] @ ''Rename it to '' @ sq @ ''__{obj.name}'' @ sq
                        @ '' if you do not want to export it.'') s
                else s)
      in write_base_node_data (obj_name (info ob))
           (length (filter counted_child (children ob))) True
           (matrix_local_converted (info ob)) s1)"

fun write_object :: "env \<Rightarrow> bool \<Rightarrow> obj \<Rightarrow> wstate \<Rightarrow> error option \<times> wstate"
  and write_children :: "env \<Rightarrow> obj list \<Rightarrow> wstate \<Rightarrow> error option \<times> wstate" where
  "write_object e has_parent (Obj ob cs) s =
     (if is_hidden_name (obj_name ob) then (None, s)
      else
        (case (if obj_type ob = ''MESH'' then
                 (if cs \<noteq> [] then
                    (Some (Exception (''A mesh cannot contain children ('' @ sq @ obj_name ob
                                      @ sq @ '')'')), s)
                  else write_mesh_node e has_parent ob s)
               else (None, write_base_node e (Obj ob cs) s)) of
           (Some err, s') \<Rightarrow> (Some err, s')
         | (None, s') \<Rightarrow> write_children e cs s'))"
| "write_children e [] s = (None, s)"
| "write_children e (child # cs) s =
     (if is_object_excluded_by_collection (info child) then write_children e cs s
      else (case write_object e True child s of
              (Some err, s') \<Rightarrow> (Some err, s')
            | (None, s') \<Rightarrow> write_children e cs s'))"

section \<open>Instance groups (NodeWriter)\<close>

definition calculate_tree_normal :: "vec3 \<Rightarrow> vec3 \<Rightarrow> real \<Rightarrow> vec3" where
  "calculate_tree_normal vertex_pos vertex_normal mesh_center_y =
     (let height_above_center = c1 vertex_pos - mesh_center_y;
          height_factor = min 1 (max (1 / 2) (7 / 10 + height_above_center * (1 / 10)));
          orig_horiz_len = sqrt ((c0 vertex_normal)\<^sup>2 + (c2 vertex_normal)\<^sup>2);
          n = (if orig_horiz_len > 1 / 1000 then
                 (let horiz_x = c0 vertex_normal / orig_horiz_len;
                      horiz_z = c2 vertex_normal / orig_horiz_len;
                      horiz_weight = (1 - height_factor) * (1 / 2)
                  in (horiz_x * horiz_weight, height_factor + (1 - height_factor) * (1 / 2),
                      horiz_z * horiz_weight))
               else (0, 1, 0));
          len = sqrt (c0 n * c0 n + c1 n * c1 n + c2 n * c2 n)
      in if len > 1 / 1000 then (c0 n / len, c1 n / len, c2 n / len) else (0, 1, 0))"

text \<open>
  The first pass of \<open>_write_kstree_group\<close>: the material id and the node properties
  of the first record found, and the Y coordinates of all vertices.
\<close>

type_synonym first_pass = "nat option \<times> NodeProperties option \<times> real list"

definition first_pass_record ::
  "obj_info \<Rightarrow> first_pass \<Rightarrow> UvVertex list \<times> nat list \<times> nat \<Rightarrow> first_pass" where
  "first_pass_record ob acc r =
     (case acc of (mid, np, ys) \<Rightarrow>
        (case r of (verts, inds, mat_id) \<Rightarrow>
           ((if mid = None then Some mat_id else mid),
            (if np = None then Some (node_properties_of ob) else np),
            ys @ map (\<lambda>v. c1 (co v)) verts)))"

fun tree_first_pass :: "env \<Rightarrow> obj_info list \<Rightarrow> first_pass \<Rightarrow> error + first_pass" where
  "tree_first_pass e [] acc = Inr acc"
| "tree_first_pass e (ob # obs) acc =
     (case extract_tree_mesh_data e ob of
        Inl err \<Rightarrow> Inl err
      | Inr mesh_data \<Rightarrow> tree_first_pass e obs (foldl (first_pass_record ob) acc mesh_data))"

definition mesh_center :: "real list \<Rightarrow> real" where
  "mesh_center all_positions_y =
     (if all_positions_y \<noteq> [] then sum_list all_positions_y / real (length all_positions_y)
      else 0)"

text \<open>The second pass: the merged vertices with their tree normals, and the offset indices.\<close>

definition second_pass_record ::
  "real \<Rightarrow> UvVertex list \<times> nat list \<Rightarrow> UvVertex list \<times> nat list \<times> nat
     \<Rightarrow> UvVertex list \<times> nat list" where
  "second_pass_record mesh_center_y acc r =
     (case acc of (all_vertices, all_indices) \<Rightarrow>
        (case r of (verts, inds, mat_id) \<Rightarrow>
           (let index_offset = length all_vertices
            in (all_vertices
                  @ map (\<lambda>v. \<lparr>co = co v,
                               normal = calculate_tree_normal (co v) (normal v) mesh_center_y,
                               uv = uv v, tangent = tangent v\<rparr>) verts,
                all_indices @ map (\<lambda>idx. idx + index_offset) inds))))"

fun tree_second_pass ::
  "env \<Rightarrow> real \<Rightarrow> obj_info list \<Rightarrow> UvVertex list \<times> nat list
     \<Rightarrow> error + UvVertex list \<times> nat list" where
  "tree_second_pass e mesh_center_y [] acc = Inr acc"
| "tree_second_pass e mesh_center_y (ob # obs) acc =
     (case extract_tree_mesh_data e ob of
        Inl err \<Rightarrow> Inl err
      | Inr mesh_data \<Rightarrow>
          tree_second_pass e mesh_center_y obs
            (foldl (second_pass_record mesh_center_y) acc mesh_data))"

text \<open>The writes of \<open>_write_kstree_group\<close> once the merged geometry is not empty.\<close>

definition write_merged_mesh ::
  "string \<Rightarrow> nat option \<Rightarrow> NodeProperties option \<Rightarrow> UvVertex list \<Rightarrow> nat list
     \<Rightarrow> wstate \<Rightarrow> wstate" where
  "write_merged_mesh group_name mid np all_vertices all_indices s =
     (let s0 = (if length all_vertices > MAX_VERTICES_PER_MESH then
                  warn (''KSTREE group '' @ sq @ group_name @ sq @ '' has ''
                        @ str_nat (length all_vertices) @ '' vertices, exceeding limit of ''
                        @ str_nat MAX_VERTICES_PER_MESH
                        @ ''. Consider splitting into multiple groups.'') s
                else s);
          s1 = emit [WUInt NODE_TYPE_Mesh, WString group_name, WUInt MESH_CHILD_COUNT,
                     WBool True] s0;
          s2 = (case np of
                  Some p \<Rightarrow> emit [WBool (castShadows p), WBool (visible p),
                                  WBool (transparent p)] s1
                | None \<Rightarrow> emit [WBool True, WBool True, WBool False] s1);
          s3 = emit ([WUInt (length all_vertices)] @ concat (map vertex_events all_vertices)
                     @ [WUInt (length all_indices)] @ map WUShort all_indices) s2;
          s4 = (case mid of
                  Some i \<Rightarrow> emit [WUInt i] s3
                | None \<Rightarrow>
                    emit [WUInt DEFAULT_MATERIAL_ID]
                      (warn (''No material for KSTREE group '' @ sq @ group_name @ sq) s3));
          s5 = (case np of
                  Some p \<Rightarrow> emit [WUInt (layer p), WFloat (lodIn p), WFloat (lodOut p)] s4
                | None \<Rightarrow> emit [WUInt 0, WFloat 0, WFloat 0] s4);
          s6 = write_bounding_sphere all_vertices s5
      in (case np of
            Some p \<Rightarrow> emit [WBool (renderable p)] s6
          | None \<Rightarrow> emit [WBool True] s6))"

definition write_kstree_group :: "env \<Rightarrow> string \<Rightarrow> obj list \<Rightarrow> wstate \<Rightarrow> error option \<times> wstate" where
  "write_kstree_group e group_name objects s =
     (let mesh_objects = filter (\<lambda>ob. obj_type ob = ''MESH'') (map info objects)
      in if mesh_objects = [] then (None, s)
         else (case tree_first_pass e mesh_objects (None, None, []) of
                 Inl err \<Rightarrow> (Some err, s)
               | Inr (mid, np, all_positions_y) \<Rightarrow>
                   (case tree_second_pass e (mesh_center all_positions_y) mesh_objects ([], []) of
                      Inl err \<Rightarrow> (Some err, s)
                    | Inr (all_vertices, all_indices) \<Rightarrow>
                        if all_vertices = [] then (None, s)
                        else (None, write_merged_mesh group_name mid np all_vertices
                                      all_indices s))))"

text \<open>
  \<open>_collect_and_group_objects\<close>. \<open>scene\<close> lists the objects of
  \<open>blend_data.objects\<close> that have no parent, in iteration order; the loop skips the
  others. The dict \<open>kstree_groups\<close> is the list of its items in insertion order.
\<close>

type_synonym kstree_groups = "(string \<times> string \<times> obj list) list"

definition groups_append :: "kstree_groups \<Rightarrow> string \<Rightarrow> obj \<Rightarrow> kstree_groups" where
  "groups_append groups group_name ob =
     (let group_key = lower group_name;
          groups1 = (if map_of groups group_key = None then groups @ [(group_key, group_name, [])]
                     else groups)
      in map (\<lambda>(k, n, obs). if k = group_key then (k, n, obs @ [ob]) else (k, n, obs)) groups1)"

definition collect_step :: "obj list \<times> kstree_groups \<Rightarrow> obj \<Rightarrow> obj list \<times> kstree_groups" where
  "collect_step acc ob =
     (case acc of (regular_objects, groups) \<Rightarrow>
        if is_hidden_name (obj_name (info ob)) then acc
        else if is_object_excluded_by_collection (info ob) then acc
        else (case get_kstree_group_name (obj_name (info ob)) of
                Some group_name \<Rightarrow> (regular_objects, groups_append groups group_name ob)
              | None \<Rightarrow> (regular_objects @ [ob], groups)))"

definition collect_and_group_objects :: "obj list \<Rightarrow> obj list \<times> kstree_groups" where
  "collect_and_group_objects scene =
     (case foldl collect_step ([], []) scene of
        (regular_objects, groups) \<Rightarrow>
          (sort_key (\<lambda>k. length (children k)) regular_objects,
           map (\<lambda>(k, n, obs). (k, n, sort_key (\<lambda>ob. obj_name (info ob)) obs)) groups))"

fun write_groups :: "env \<Rightarrow> kstree_groups \<Rightarrow> string list \<Rightarrow> wstate \<Rightarrow> error option \<times> wstate" where
  "write_groups e groups [] s = (None, s)"
| "write_groups e groups (group_key # keys) s =
     (case map_of groups group_key of
        None \<Rightarrow> (Some (KeyError group_key), s)
      | Some (original_name, objects) \<Rightarrow>
          (case write_kstree_group e original_name objects s of
             (Some err, s') \<Rightarrow> (Some err, s')
           | (None, s') \<Rightarrow> write_groups e groups keys s'))"

fun write_objects :: "env \<Rightarrow> obj list \<Rightarrow> wstate \<Rightarrow> error option \<times> wstate" where
  "write_objects e [] s = (None, s)"
| "write_objects e (ob # obs) s =
     (case write_object e False ob s of
        (Some err, s') \<Rightarrow> (Some err, s')
      | (None, s') \<Rightarrow> write_objects e obs s')"

text \<open>\<open>NodeWriter.write\<close>.\<close>

definition NodeWriter_write :: "env \<Rightarrow> obj list \<Rightarrow> wstate \<Rightarrow> error option \<times> wstate" where
  "NodeWriter_write e scene s =
     (case collect_and_group_objects scene of
        (regular_objects, groups) \<Rightarrow>
          (let total_children = length regular_objects + length groups;
               s1 = write_base_node_data ''BlenderFile'' total_children True identity_matrix s
           in case write_groups e groups (sort (map fst groups)) s1 of
                (Some err, s2) \<Rightarrow> (Some err, s2)
              | (None, s2) \<Rightarrow> write_objects e regular_objects s2))"

section \<open>Textures (lib/kn5/texture_writer.py)\<close>

definition DDS_HEADER_BYTES :: string where
  "DDS_HEADER_BYTES = ''DDS''"

definition PNG_HEADER_BYTES :: string where
  "PNG_HEADER_BYTES = [CHR 0x89, CHR ''P'', CHR ''N'', CHR ''G'']"

definition is_png_data :: "string \<Rightarrow> bool" where
  "is_png_data image_data = (take 4 image_data = PNG_HEADER_BYTES)"

definition is_dds_data :: "string \<Rightarrow> bool" where
  "is_dds_data image_data = (take 3 image_data = DDS_HEADER_BYTES)"

text \<open>
  An image as the texture writer reads it. \<open>real_filename\<close> is
  \<open>os.path.basename(bpy.path.abspath(image.filepath))\<close>, \<open>file_data\<close> the bytes of
  the file at that path when it exists, \<open>packed_data\<close> the data of the packed file,
  and \<open>saved_png\<close> the bytes that \<open>image.save()\<close> writes for the pixel data.
\<close>

record image =
  img_name :: string
  img_filepath :: string
  real_filename :: string
  has_pixels :: bool
  file_data :: "string option"
  packed_data :: "string option"
  saved_png :: string

record texture_node =
  node_name :: string
  node_image :: "image option"

text \<open>
  The outcome of running texconv.exe on a PNG in a temporary directory: writing the
  PNG there fails (outside the \<open>try\<close>), the process exits non-zero, another exception
  is raised inside the \<open>try\<close>, no output file appears, or the DDS bytes are read.
\<close>

datatype conv_outcome =
    TempWriteError
  | CalledProcessError string
  | OtherException string
  | NoOutput
  | Output string

record tex_env =
  texconv_path :: string
  texconv_exists :: bool
  run_texconv :: "string \<Rightarrow> string \<Rightarrow> conv_outcome"
  splitext_root :: "string \<Rightarrow> string"

definition get_real_texture_name :: "image \<Rightarrow> string" where
  "get_real_texture_name img =
     (if img_filepath img \<noteq> [] \<and> real_filename img \<noteq> [] then real_filename img
      else img_name img)"

definition convert_png_to_dds ::
  "tex_env \<Rightarrow> string \<Rightarrow> string \<Rightarrow> wstate \<Rightarrow> (error + (string \<times> string) option) \<times> wstate" where
  "convert_png_to_dds t png_data image_name s =
     (if \<not> texconv_exists t then
        (Inr None, warn (''texconv.exe not found at '' @ texconv_path t
                         @ '' - PNG will not be converted'') s)
      else (case run_texconv t png_data image_name of
              TempWriteError \<Rightarrow> (Inl OSError, s)
            | CalledProcessError stderr \<Rightarrow>
                (Inr None, warn (''texconv failed for '' @ sq @ image_name @ sq @ '': '' @ stderr) s)
            | OtherException msg \<Rightarrow>
                (Inr None, warn (''Error converting '' @ sq @ image_name @ sq @ '' to DDS: ''
                                 @ msg) s)
            | NoOutput \<Rightarrow>
                (Inr None, warn (''texconv did not create output file for '' @ sq @ image_name
                                 @ sq) s)
            | Output dds_data \<Rightarrow>
                (Inr (Some (dds_data, splitext_root t image_name @ ''.dds'')), s)))"

definition get_raw_image_data :: "image \<Rightarrow> error + string" where
  "get_raw_image_data img =
     (case (if img_filepath img \<noteq> [] then file_data img else None) of
        Some d \<Rightarrow> Inr d
      | None \<Rightarrow>
          (case packed_data img of
             Some d \<Rightarrow> Inr d
           | None \<Rightarrow>
               if has_pixels img then Inr (saved_png img)
               else Inl (RuntimeError (''Cannot get image data for '' @ sq @ img_name img @ sq
                      @ '' - no file path, not packed, and no pixel data. ''
                      @ ''Please ensure the image file exists or pack it manually.''))))"

text \<open>
  \<open>_process_texture\<close> for the image of a texture node. The arrow of the conversion
  message is a non-ASCII character in the source; it is written \<open>->\<close> here.
\<close>

definition process_texture ::
  "tex_env \<Rightarrow> image \<Rightarrow> wstate \<Rightarrow> (error + string \<times> string) \<times> wstate" where
  "process_texture t img s =
     (let real_name = get_real_texture_name img
      in case get_raw_image_data img of
           Inl err \<Rightarrow> (Inl err, s)
         | Inr image_data \<Rightarrow>
             if is_dds_data image_data then (Inr (real_name, image_data), s)
             else if is_png_data image_data then
               (case convert_png_to_dds t image_data real_name s of
                  (Inl err, s') \<Rightarrow> (Inl err, s')
                | (Inr (Some (dds_data, new_name)), s') \<Rightarrow>
                    (Inr (new_name, dds_data),
                     warn (''Converted '' @ sq @ real_name @ sq @ '' to DDS (''
                           @ str_nat (length image_data) @ '' -> '' @ str_nat (length dds_data)
                           @ '' bytes)'') s')
                | (Inr None, s') \<Rightarrow>
                    (Inr (real_name, image_data),
                     warn (''Using original PNG for '' @ sq @ real_name @ sq
                           @ '' (conversion failed)'') s'))
             else (Inr (real_name, image_data), s))"

text \<open>A Python dict as the list of its items in insertion order; \<open>d[k] = v\<close>.\<close>

definition dict_set :: "('k \<times> 'v) list \<Rightarrow> 'k \<Rightarrow> 'v \<Rightarrow> ('k \<times> 'v) list" where
  "dict_set d k v =
     (if map_of d k = None then d @ [(k, v)]
      else map (\<lambda>(k', v'). if k' = k then (k', v) else (k', v')) d)"

record texture_tables =
  available_textures :: "(string \<times> image) list"
  texture_positions :: "(string \<times> nat) list"
  position :: nat

definition fill_step :: "texture_tables \<times> wstate \<Rightarrow> texture_node \<Rightarrow> texture_tables \<times> wstate" where
  "fill_step acc node =
     (case acc of (tb, s) \<Rightarrow>
        if is_hidden_name (node_name node) then (tb, s)
        else (case node_image node of
                None \<Rightarrow>
                  (tb, warn (''Ignoring texture node without image '' @ sq @ node_name node @ sq) s)
              | Some img \<Rightarrow>
                  if \<not> has_pixels img then
                    (tb, warn (''Ignoring texture node without image data '' @ sq
                               @ node_name node @ sq) s)
                  else
                    (\<lparr>available_textures = dict_set (available_textures tb) (img_name img) img,
                      texture_positions =
                        dict_set (texture_positions tb) (img_name img) (position tb),
                      position = position tb + 1\<rparr>, s)))"

definition fill_available_image_textures ::
  "texture_node list \<Rightarrow> wstate \<Rightarrow> texture_tables \<times> wstate" where
  "fill_available_image_textures nodes s =
     foldl fill_step
       (\<lparr>available_textures = [], texture_positions = [], position = 0\<rparr>, s) nodes"

text \<open>\<open>_process_all_textures\<close>: the dict \<open>_processed_textures\<close>.\<close>

fun process_all_textures ::
  "tex_env \<Rightarrow> (string \<times> image) list \<Rightarrow> (string \<times> string \<times> string) list \<Rightarrow> wstate
     \<Rightarrow> (error + (string \<times> string \<times> string) list) \<times> wstate" where
  "process_all_textures t [] processed s = (Inr processed, s)"
| "process_all_textures t ((blender_name, img) # rest) processed s =
     (case process_texture t img s of
        (Inl err, s') \<Rightarrow> (Inl err, s')
      | (Inr r, s') \<Rightarrow> process_all_textures t rest (dict_set processed blender_name r) s')"

definition write_texture_data :: "string \<Rightarrow> string \<Rightarrow> wstate \<Rightarrow> wstate" where
  "write_texture_data texture_name image_data s =
     emit [WInt 1, WString texture_name, WBlob image_data] s"

fun write_textures ::
  "(string \<times> string \<times> string) list \<Rightarrow> (string \<times> nat) list \<Rightarrow> wstate \<Rightarrow> error option \<times> wstate" where
  "write_textures processed [] s = (None, s)"
| "write_textures processed ((texture_name, pos) # rest) s =
     (case map_of processed texture_name of
        None \<Rightarrow> (Some (KeyError texture_name), s)
      | Some (output_name, image_data) \<Rightarrow>
          write_textures processed rest (write_texture_data output_name image_data s))"

text \<open>
  The texture writer as the exporter uses it: the constructor fills the tables,
  \<open>write\<close> processes the textures, writes their count and then each texture in the
  order of its position. The texture nodes are those of \<open>get_all_texture_nodes\<close>.
\<close>

definition TextureWriter_write ::
  "tex_env \<Rightarrow> texture_node list \<Rightarrow> wstate \<Rightarrow> error option \<times> wstate" where
  "TextureWriter_write t nodes s =
     (case fill_available_image_textures nodes s of
        (tb, s1) \<Rightarrow>
          (case process_all_textures t (available_textures tb) [] s1 of
             (Inl err, s2) \<Rightarrow> (Some err, s2)
           | (Inr processed, s2) \<Rightarrow>
               write_textures processed (sort_key snd (texture_positions tb))
                 (emit [WInt (int (length processed))] s2)))"

section \<open>The exporter (lib/kn5/exporter.py)\<close>

text \<open>
  The material writer (material_writer.py) is not among the sources: what it writes,
  the warnings it adds and whether it raises are given. Its \<open>material_positions\<close> are
  in the environment of the node writer.
\<close>

record material_writer =
  mw_out :: "event list"
  mw_warnings :: "string list"
  mw_raises :: "error option"

record blender_context =
  texture_nodes :: "texture_node list"
  materials_written :: material_writer
  node_env :: env
  scene_objects :: "obj list"

definition KN5_HEADER :: string where
  "KN5_HEADER = ''sc6969''"

definition KN5_VERSION :: nat where
  "KN5_VERSION = 5"

definition MaterialWriter_write :: "material_writer \<Rightarrow> wstate \<Rightarrow> error option \<times> wstate" where
  "MaterialWriter_write mw s =
     (mw_raises mw, s\<lparr>out := out s @ mw_out mw, warnings := warnings s @ mw_warnings mw\<rparr>)"

text \<open>\<open>KN5Exporter.write\<close>: the header, then textures, materials and nodes.\<close>

definition KN5Exporter_write :: "tex_env \<Rightarrow> blender_context \<Rightarrow> wstate \<Rightarrow> error option \<times> wstate" where
  "KN5Exporter_write t ctx s =
     (let s1 = emit [WRaw KN5_HEADER, WUInt KN5_VERSION] s
      in case TextureWriter_write t (texture_nodes ctx) s1 of
           (Some err, s2) \<Rightarrow> (Some err, s2)
         | (None, s2) \<Rightarrow>
             (case MaterialWriter_write (materials_written ctx) s2 of
                (Some err, s3) \<Rightarrow> (Some err, s3)
              | (None, s3) \<Rightarrow> NodeWriter_write (node_env ctx) (scene_objects ctx) s3))"

text \<open>
  The file system is a map from a path to the content of the file there; a content is
  the log of what was written. The operating system's part is given: whether
  \<open>open\<close>, \<open>unlink\<close> and \<open>os.replace\<close>/\<open>os.rename\<close> raise OSError, the text of
  \<open>str(e)\<close> for the built-in exceptions, and \<open>traceback.format_exc()\<close>.
  \<open>copy_textures_to_working_directory\<close> is given by its outcome: the warnings it
  adds, the files it copies, and the exception of \<open>os.makedirs\<close> if it raises.
\<close>

type_synonym fs = "string \<Rightarrow> event list option"

record os_env =
  open_raises :: bool
  unlink_raises :: bool
  replace_raises :: bool
  builtin_message :: "error \<Rightarrow> string"
  format_exc :: "error \<Rightarrow> string"
  copy_warnings :: "string list"
  copy_files :: "(string \<times> event list) list"
  copy_raises :: "error option"

definition str_error :: "os_env \<Rightarrow> error \<Rightarrow> string" where
  "str_error os err =
     (case err of Exception msg \<Rightarrow> msg | RuntimeError msg \<Rightarrow> msg | _ \<Rightarrow> builtin_message os err)"

definition write_files :: "(string \<times> event list) list \<Rightarrow> fs \<Rightarrow> fs" where
  "write_files files f = foldl (\<lambda>g (path, content). g(path \<mapsto> content)) f files"

text \<open>
  The \<open>except Exception\<close> branch of \<open>export_kn5\<close>: two warnings, then the temporary
  file is unlinked, an OSError of which is passed over.
\<close>

definition export_failed ::
  "os_env \<Rightarrow> string \<Rightarrow> error \<Rightarrow> string list \<Rightarrow> fs \<Rightarrow> (string \<times> string list) \<times> fs" where
  "export_failed os temp_filepath err warns f =
     ((''error'', warns @ [''Export failed: '' @ str_error os err, format_exc os err]),
      (if unlink_raises os then f else f(temp_filepath := None)))"

definition export_kn5 ::
  "os_env \<Rightarrow> tex_env \<Rightarrow> string \<Rightarrow> blender_context \<Rightarrow> bool \<Rightarrow> fs \<Rightarrow> (string \<times> string list) \<times> fs" where
  "export_kn5 os t filepath ctx copy_textures f =
     (let temp_filepath = filepath @ ''.tmp''
      in if open_raises os then export_failed os temp_filepath OSError [] f
         else
           (case KN5Exporter_write t ctx \<lparr>out = [], warnings = []\<rparr> of
              (Some err, s) \<Rightarrow>
                export_failed os temp_filepath err (warnings s) (f(temp_filepath \<mapsto> out s))
            | (None, s) \<Rightarrow>
                (let f1 = f(temp_filepath \<mapsto> out s);
                     warns = (if copy_textures then warnings s @ copy_warnings os else warnings s);
                     f2 = (if copy_textures then write_files (copy_files os) f1 else f1)
                 in case (if copy_textures then copy_raises os else None) of
                      Some err \<Rightarrow> export_failed os temp_filepath err warns f2
                    | None \<Rightarrow>
                        if replace_raises os then export_failed os temp_filepath OSError warns f2
                        else (case f2 temp_filepath of
                                None \<Rightarrow> export_failed os temp_filepath OSError warns f2
                              | Some content \<Rightarrow>
                                  ((''success'', warns),
                                   f2(filepath \<mapsto> content, temp_filepath := None))))))"

section \<open>Theorems\<close>

text \<open>
  C8. The two coordinate conversions are mutually inverse:
  \<open>blender_to_ac (ac_to_blender (x, y, z)) = (x, y, z)\<close> and
  \<open>ac_to_blender (blender_to_ac (x, y, z)) = (x, y, z)\<close> for every vector, where
  \<open>blender_to_ac\<close> is \<open>(x, y, z) \<rightarrow> (x, z, -y)\<close>, \<open>ac_to_blender\<close> is
  \<open>(x, y, z) \<rightarrow> (x, -z, y)\<close>, and the serializer's \<open>convert_vector3\<close> is the
  \<open>(x, z, -y)\<close> mapping. The result tuple of one conversion is unpacked into the three
  arguments of the other.
\<close>

theorem coordinate_round_trip:
  "(case ac_to_blender x y z of (a, b, c) \<Rightarrow> blender_to_ac a b c) = (x, y, z)
   \<and> (case blender_to_ac x y z of (a, b, c) \<Rightarrow> ac_to_blender a b c) = (x, y, z)
   \<and> blender_to_ac x y z = (x, z, - y)
   \<and> ac_to_blender x y z = (x, - z, y)
   \<and> convert_vector3 (x, y, z) = (x, z, - y)
   \<and> convert_vector3 (x, y, z) = blender_to_ac x y z"
  by (simp add: ac_to_blender_def blender_to_ac_def convert_vector3_def)

subsection \<open>The hash and the equality of vertices\<close>

text \<open>
  C2. For every pair of vertices \<open>u\<close> and \<open>v\<close>: if \<open>u\<close> and \<open>v\<close> compare equal under
  the deduplication rule (position, normal and UV each componentwise within \<open>1e-5\<close>;
  tangent excluded), then \<open>hash(u) = hash(v)\<close>, the hash quantizing each compared
  component by \<open>round(value * 1e5)\<close>. The code does not have this property: the two
  vertices below differ only in the first coordinate, \<open>0.000004\<close> against
  \<open>0.000006\<close>; they compare equal (the difference is \<open>0.000002\<close>), and their
  quantized coordinates are \<open>round(0.4) = 0\<close> and \<open>round(0.6) = 1\<close>.
\<close>

theorem equal_vertices_hash_differently:
  "UvVertex_eq
     \<lparr>co = (4 / 1000000, 0, 0), normal = (0, 0, 0), uv = (0, 0), tangent = (1, 0, 0)\<rparr>
     \<lparr>co = (6 / 1000000, 0, 0), normal = (0, 0, 0), uv = (0, 0), tangent = (1, 0, 0)\<rparr>
   \<and> UvVertex_hash
        \<lparr>co = (4 / 1000000, 0, 0), normal = (0, 0, 0), uv = (0, 0), tangent = (1, 0, 0)\<rparr>
      \<noteq> UvVertex_hash
        \<lparr>co = (6 / 1000000, 0, 0), normal = (0, 0, 0), uv = (0, 0), tangent = (1, 0, 0)\<rparr>"
  by (simp add: UvVertex_eq_def UvVertex_hash_def approx_equal_def EPSILON_def c0_def c1_def
      c2_def quantize_def py_round_def QUANT_def Let_def)

subsection \<open>The bounding sphere\<close>





















subsection \<open>The split at the vertex limit\<close>

definition mapping_ok :: "index_mapping \<Rightarrow> bool" where
  "mapping_ok m = (map snd m = [0..<length m])"

lemma mapping_ok_Nil: "mapping_ok []"
  by (simp add: mapping_ok_def)

lemma mapping_ok_lookup:
  assumes "mapping_ok m" and "map_of m k = Some j"
  shows "j < length m \<and> fst (m ! j) = k"
proof -
  from assms(2) have "(k, j) \<in> set m" by (rule map_of_SomeD)
  then obtain i where i: "i < length m" and mi: "m ! i = (k, j)"
    by (auto simp: in_set_conv_nth)
  from assms(1) have "map snd m ! i = [0..<length m] ! i"
    by (simp add: mapping_ok_def)
  with i have "snd (m ! i) = i" by simp
  with mi have "j = i" by simp
  with i mi show ?thesis by simp
qed

lemma mapping_ok_snoc: "mapping_ok m \<Longrightarrow> mapping_ok (m @ [(k, length m)])"
  by (simp add: mapping_ok_def)

text \<open>What one face adds: the mapping grows at its end, and the new indices name the face's
  old indices in the grown mapping.\<close>

definition extends :: "index_mapping \<Rightarrow> nat list \<Rightarrow> index_mapping \<Rightarrow> nat list \<Rightarrow> nat list \<Rightarrow> bool" where
  "extends m ni m' ni' seg =
     (mapping_ok m' \<and> (\<exists>ext. m' = m @ ext \<and> length ext \<le> length seg)
      \<and> (\<exists>js. ni' = ni @ js \<and> (\<forall>j \<in> set js. j < length m')
            \<and> map (\<lambda>j. fst (m' ! j)) js = seg))"

lemma extends_refl: "mapping_ok m \<Longrightarrow> extends m ni m ni []"
  by (simp add: extends_def)

lemma extends_trans:
  assumes "extends m ni m1 ni1 seg1" and "extends m1 ni1 m2 ni2 seg2"
  shows "extends m ni m2 ni2 (seg1 @ seg2)"
proof -
  from assms(1) obtain ext1 js1 where ok1: "mapping_ok m1" and m1: "m1 = m @ ext1"
    and l1: "length ext1 \<le> length seg1" and ni1: "ni1 = ni @ js1"
    and b1: "\<forall>j \<in> set js1. j < length m1" and s1: "map (\<lambda>j. fst (m1 ! j)) js1 = seg1"
    unfolding extends_def by blast
  from assms(2) obtain ext2 js2 where ok2: "mapping_ok m2" and m2: "m2 = m1 @ ext2"
    and l2: "length ext2 \<le> length seg2" and ni2: "ni2 = ni1 @ js2"
    and b2: "\<forall>j \<in> set js2. j < length m2" and s2: "map (\<lambda>j. fst (m2 ! j)) js2 = seg2"
    unfolding extends_def by blast
  have "map (\<lambda>j. fst (m2 ! j)) js1 = map (\<lambda>j. fst (m1 ! j)) js1"
    using b1 m2 by (simp add: nth_append)
  with s1 s2 have seg: "map (\<lambda>j. fst (m2 ! j)) (js1 @ js2) = seg1 @ seg2" by simp
  have bnd: "\<forall>j \<in> set (js1 @ js2). j < length m2" using b1 b2 m2 by auto
  have "m2 = m @ (ext1 @ ext2) \<and> length (ext1 @ ext2) \<le> length (seg1 @ seg2)"
    using m1 m2 l1 l2 by simp
  moreover have "ni2 = ni @ (js1 @ js2)" using ni1 ni2 by simp
  ultimately show ?thesis
    unfolding extends_def
    by (intro conjI exI [of _ "ext1 @ ext2"] exI [of _ "js1 @ js2"] ok2 seg bnd) simp_all
qed

lemma map_face_index_extends:
  assumes "mapping_ok m" and "map_face_index (m, ni) k = (m', ni')"
  shows "extends m ni m' ni' [k]"
proof (cases "map_of m k")
  case None
  with assms(2) have m': "m' = m @ [(k, length m)]" and ni': "ni' = ni @ [length m]"
    by (simp_all add: map_face_index_def Let_def)
  show ?thesis
    unfolding extends_def
  proof (intro conjI)
    show "mapping_ok m'" using assms(1) m' by (simp add: mapping_ok_snoc)
    show "\<exists>ext. m' = m @ ext \<and> length ext \<le> length [k]" using m' by simp
    show "\<exists>js. ni' = ni @ js \<and> (\<forall>j\<in>set js. j < length m') \<and> map (\<lambda>j. fst (m' ! j)) js = [k]"
      using m' ni' by (intro exI [of _ "[length m]"]) simp
  qed
next
  case (Some j)
  with assms(2) have m': "m' = m" and ni': "ni' = ni @ [j]"
    by (simp_all add: map_face_index_def)
  from mapping_ok_lookup [OF assms(1) Some] have j: "j < length m" "fst (m ! j) = k" by simp_all
  show ?thesis
    unfolding extends_def
  proof (intro conjI)
    show "mapping_ok m'" using assms(1) m' by simp
    show "\<exists>ext. m' = m @ ext \<and> length ext \<le> length [k]" using m' by simp
    show "\<exists>js. ni' = ni @ js \<and> (\<forall>j\<in>set js. j < length m') \<and> map (\<lambda>j. fst (m' ! j)) js = [k]"
      using m' ni' j by (intro exI [of _ "[j]"]) simp
  qed
qed

lemma foldl_map_face_index_extends:
  assumes "mapping_ok m" and "foldl map_face_index (m, ni) seg = (m', ni')"
  shows "extends m ni m' ni' seg"
  using assms
proof (induction seg arbitrary: m ni)
  case Nil
  then show ?case by (simp add: extends_refl)
next
  case (Cons k seg)
  obtain m1 ni1 where step: "map_face_index (m, ni) k = (m1, ni1)"
    by (cases "map_face_index (m, ni) k")
  from map_face_index_extends [OF Cons.prems(1) step] have e1: "extends m ni m1 ni1 [k]" .
  then have ok1: "mapping_ok m1" by (simp add: extends_def)
  from Cons.prems(2) step have "foldl map_face_index (m1, ni1) seg = (m', ni')" by simp
  from Cons.IH [OF ok1 this] have "extends m1 ni1 m' ni' seg" .
  from extends_trans [OF e1 this] show ?case by simp
qed

lemma extends_length:
  "extends m ni m' ni' seg \<Longrightarrow> length m \<le> length m' \<and> length m' \<le> length m + length seg"
  unfolding extends_def by auto

text \<open>The loop over the faces of one chunk.\<close>

lemma chunk_faces_extends:
  assumes "mapping_ok m" and "chunk_faces limit inds i m ni = (i', m', ni')"
  shows "i \<le> i' \<and> 3 dvd (i' - i) \<and> extends m ni m' ni' (take (i' - i) (drop i inds))"
  using assms
proof (induction limit inds i m ni rule: chunk_faces.induct)
  case (1 limit inds i m ni)
  show ?case
  proof (cases "i < length inds")
    case False
    with "1.prems" show ?thesis
      by (simp add: chunk_faces.simps [of limit inds i m ni] extends_refl)
  next
    case True
    obtain m1 ni1 where face: "foldl map_face_index (m, ni) (take 3 (drop i inds)) = (m1, ni1)"
      by (cases "foldl map_face_index (m, ni) (take 3 (drop i inds))")
    from foldl_map_face_index_extends [OF "1.prems"(1) face]
    have e1: "extends m ni m1 ni1 (take 3 (drop i inds))" .
    then have ok1: "mapping_ok m1" by (simp add: extends_def)
    show ?thesis
    proof (cases "int (length m1) \<ge> int limit - 3")
      case full: True
      with True face "1.prems"(2) have "i' = i + 3" "m' = m1" "ni' = ni1"
        by (simp_all add: chunk_faces.simps [of limit inds i m ni])
      with e1 show ?thesis by simp
    next
      case more: False
      with True face "1.prems"(2) have rec: "chunk_faces limit inds (i + 3) m1 ni1 = (i', m', ni')"
        by (simp add: chunk_faces.simps [of limit inds i m ni])
      from "1.IH" [OF True face [symmetric] more ok1 rec]
      have le: "i + 3 \<le> i'" and dv: "3 dvd (i' - (i + 3))"
        and e2: "extends m1 ni1 m' ni' (take (i' - (i + 3)) (drop (i + 3) inds))"
        by simp_all
      from le obtain d where d: "i' = i + 3 + d" by (auto simp: le_iff_add)
      have e2': "extends m1 ni1 m' ni' (take d (drop 3 (drop i inds)))"
        using e2 by (simp add: d add.commute)
      have "take 3 (drop i inds) @ take d (drop 3 (drop i inds)) = take (3 + d) (drop i inds)"
        by (simp only: take_add)
      with extends_trans [OF e1 e2']
      have "extends m ni m' ni' (take (3 + d) (drop i inds))" by simp
      moreover have "i' - i = 3 + d" by (simp add: d)
      moreover have "3 dvd d" using dv by (simp add: d)
      ultimately show ?thesis by (simp add: d)
    qed
  qed
qed

lemma chunk_faces_bound:
  assumes "length m + 3 < limit" and "chunk_faces limit inds i m ni = (i', m', ni')"
    and "mapping_ok m"
  shows "length m' < limit"
  using assms
proof (induction limit inds i m ni rule: chunk_faces.induct)
  case (1 limit inds i m ni)
  show ?case
  proof (cases "i < length inds")
    case False
    with "1.prems" show ?thesis
      by (simp add: chunk_faces.simps [of limit inds i m ni])
  next
    case True
    obtain m1 ni1 where face: "foldl map_face_index (m, ni) (take 3 (drop i inds)) = (m1, ni1)"
      by (cases "foldl map_face_index (m, ni) (take 3 (drop i inds))")
    from foldl_map_face_index_extends [OF "1.prems"(3) face]
    have e1: "extends m ni m1 ni1 (take 3 (drop i inds))" .
    then have ok1: "mapping_ok m1" by (simp add: extends_def)
    from extends_length [OF e1] have l1: "length m1 \<le> length m + 3" by auto
    show ?thesis
    proof (cases "int (length m1) \<ge> int limit - 3")
      case full: True
      with True face "1.prems"(2) have "m' = m1"
        by (simp add: chunk_faces.simps [of limit inds i m ni])
      with l1 "1.prems"(1) show ?thesis by simp
    next
      case more: False
      with True face "1.prems"(2) have rec: "chunk_faces limit inds (i + 3) m1 ni1 = (i', m', ni')"
        by (simp add: chunk_faces.simps [of limit inds i m ni])
      from more have "length m1 + 3 < limit" by linarith
      from "1.IH" [OF True face [symmetric] more this rec ok1] show ?thesis .
    qed
  qed
qed

definition corners :: "Mesh \<Rightarrow> UvVertex list" where
  "corners m = map (\<lambda>i. vertices m ! i) (indices m)"

fun triples :: "'a list \<Rightarrow> ('a \<times> 'a \<times> 'a) list" where
  "triples (a # b # c # xs) = (a, b, c) # triples xs"
| "triples xs = []"

definition triangles_of :: "Mesh \<Rightarrow> (UvVertex \<times> UvVertex \<times> UvVertex) list" where
  "triangles_of m = triples (corners m)"

lemma not_3_dvd_2: "\<not> 3 dvd Suc (Suc 0)"
  by presburger

lemma triples_append:
  "3 dvd length xs \<Longrightarrow> triples (xs @ ys) = triples xs @ triples ys"
proof (induction xs rule: triples.induct)
  case (1 a b c xs)
  have "length (a # b # c # xs) = length xs + 3" by simp
  with "1.prems" have "3 dvd length xs" by (simp only: dvd_add_triv_right_iff)
  with "1.IH" show ?case by simp
qed (simp_all add: not_3_dvd_2)

lemma triples_concat:
  "(\<forall>xs \<in> set xss. 3 dvd length xs) \<Longrightarrow> triples (concat xss) = concat (map triples xss)"
  by (induction xss) (simp_all add: triples_append)

lemma lookup_vertices_Inr:
  "lookup_vertices vs keys = Inr xs \<Longrightarrow> xs = map ((!) vs) keys \<and> (\<forall>k \<in> set keys. k < length vs)"
  by (induction keys arbitrary: xs) (auto split: if_splits sum.splits)

lemma lookup_vertices_total:
  "(\<forall>k \<in> set keys. k < length vs) \<Longrightarrow> lookup_vertices vs keys = Inr (map ((!) vs) keys)"
  by (induction keys) auto

lemma sort_mapping:
  assumes "mapping_ok m"
  shows "sort_key snd m = m"
proof -
  from assms have "sorted (map snd m)" by (simp add: mapping_ok_def)
  then show ?thesis by (rule sort_key_id_if_sorted)
qed

text \<open>One chunk: what the record built from a finished mapping holds.\<close>

lemma chunk_record:
  assumes ok: "mapping_ok m"
    and js: "\<forall>j \<in> set js. j < length m" 
    and look: "lookup_vertices vs (map fst (sort_key snd m)) = Inr verts"
  shows "length verts = length m"
    and "map ((!) verts) js = map ((!) vs) (map (\<lambda>j. fst (m ! j)) js)"
proof -
  from look have v: "verts = map ((!) vs) (map fst m)"
    using lookup_vertices_Inr [OF look] sort_mapping [OF ok] by simp
  then show "length verts = length m" by simp
  from v js show "map ((!) verts) js = map ((!) vs) (map (\<lambda>j. fst (m ! j)) js)"
    by simp
qed

lemma split_chunks_bound:
  assumes "4 \<le> limit" and "split_chunks limit msh start = Inr ms"
  shows "\<forall>c \<in> set ms. length (vertices c) < limit"
  using assms
proof (induction limit msh start arbitrary: ms rule: split_chunks.induct)
  case (1 limit msh start)
  show ?case
  proof (cases "start < length (indices msh)")
    case False
    with "1.prems" show ?thesis by (simp add: split_chunks.simps [of limit msh start])
  next
    case True
    obtain i' m' ni' where ch: "chunk_faces limit (indices msh) start [] [] = (i', m', ni')"
      by (cases "chunk_faces limit (indices msh) start [] []")
    from True ch "1.prems"(2) obtain verts rest
      where look: "lookup_vertices (vertices msh) (map fst (sort_key snd m')) = Inr verts"
        and rest: "split_chunks limit msh i' = Inr rest"
        and ms: "ms = \<lparr>material_id = material_id msh, vertices = verts, indices = ni'\<rparr> # rest"
      by (auto simp: split_chunks.simps [of limit msh start] split: sum.splits)
    from chunk_faces_extends [OF mapping_ok_Nil ch] have ext: "mapping_ok m'"
      by (simp add: extends_def)
    from "1.prems"(1) have "length ([]::index_mapping) + 3 < limit" by simp
    from chunk_faces_bound [OF this ch mapping_ok_Nil] have "length m' < limit" .
    moreover from chunk_record(1) [OF ext _ look, of "[]"] have "length verts = length m'" by simp
    moreover from "1.IH" [OF True ch [symmetric] refl look "1.prems"(1) rest]
    have "\<forall>c \<in> set rest. length (vertices c) < limit" .
    ultimately show ?thesis using ms by simp
  qed
qed

lemma split_chunks_corners:
  assumes "split_chunks limit msh start = Inr ms"
    and "3 dvd (length (indices msh) - start)"
  shows "(\<forall>c \<in> set ms. 3 dvd length (indices c))
     \<and> concat (map corners ms) = map ((!) (vertices msh)) (drop start (indices msh))"
  using assms
proof (induction limit msh start arbitrary: ms rule: split_chunks.induct)
  case (1 limit msh start)
  let ?inds = "indices msh"
  show ?case
  proof (cases "start < length ?inds")
    case False
    with "1.prems" show ?thesis by (simp add: split_chunks.simps [of limit msh start])
  next
    case True
    obtain i' m' ni' where ch: "chunk_faces limit ?inds start [] [] = (i', m', ni')"
      by (cases "chunk_faces limit ?inds start [] []")
    from True ch "1.prems"(1) obtain verts rest
      where look: "lookup_vertices (vertices msh) (map fst (sort_key snd m')) = Inr verts"
        and rest: "split_chunks limit msh i' = Inr rest"
        and ms: "ms = \<lparr>material_id = material_id msh, vertices = verts, indices = ni'\<rparr> # rest"
      by (auto simp: split_chunks.simps [of limit msh start] split: sum.splits)
    let ?seg = "take (i' - start) (drop start ?inds)"
    from chunk_faces_extends [OF mapping_ok_Nil ch]
    have le: "start \<le> i'" and dv: "3 dvd (i' - start)" and ext: "extends [] [] m' ni' ?seg"
      by simp_all
    from ext have ok: "mapping_ok m'" and bnd: "\<forall>j \<in> set ni'. j < length m'"
      and seg: "map (\<lambda>j. fst (m' ! j)) ni' = ?seg"
      by (auto simp: extends_def)
    from le obtain d where d: "i' = start + d" by (auto simp: le_iff_add)
    from dv d have dvd_d: "3 dvd d" by simp
    obtain n where n: "length ?inds = start + n" using True by (auto simp: less_iff_Suc_add)
    from "1.prems"(2) n have dvd_n: "3 dvd n" by simp
    have len_seg: "length ?seg = min d n" by (simp add: d n)
    have "length ni' = length ?seg" using seg by (metis length_map)
    then have l3: "3 dvd length ni'" using len_seg dvd_d dvd_n by (simp add: min_def)
    have dvd_rest: "3 dvd (length ?inds - i')"
    proof (cases "d \<le> n")
      case True
      then have "length ?inds - i' = n - d" by (simp add: d n)
      with dvd_d dvd_n show ?thesis by (simp add: dvd_diff_nat)
    next
      case False
      then show ?thesis by (simp add: d n)
    qed
    from "1.IH" [OF True ch [symmetric] refl look rest dvd_rest]
    have r3: "\<forall>c \<in> set rest. 3 dvd length (indices c)"
      and rc: "concat (map corners rest) = map ((!) (vertices msh)) (drop i' ?inds)"
      by simp_all
    have "corners \<lparr>material_id = material_id msh, vertices = verts, indices = ni'\<rparr>
        = map ((!) verts) ni'"
      by (simp add: corners_def)
    also have "\<dots> = map ((!) (vertices msh)) ?seg"
      using chunk_record(2) [OF ok bnd look] seg by simp
    finally have c1: "corners \<lparr>material_id = material_id msh, vertices = verts, indices = ni'\<rparr>
        = map ((!) (vertices msh)) ?seg" .
    have seg_d: "?seg = take d (drop start ?inds)" by (simp add: d)
    have dr: "drop i' ?inds = drop d (drop start ?inds)"
      by (simp only: d drop_drop add.commute)
    have "?seg @ drop i' ?inds = drop start ?inds"
      by (simp only: seg_d dr append_take_drop_id)
    then have "map ((!) (vertices msh)) ?seg @ map ((!) (vertices msh)) (drop i' ?inds)
        = map ((!) (vertices msh)) (drop start ?inds)"
      by (metis map_append)
    with c1 rc have "concat (map corners ms) = map ((!) (vertices msh)) (drop start ?inds)"
      by (simp add: ms)
    moreover have "\<forall>c \<in> set ms. 3 dvd length (indices c)" using l3 r3 by (simp add: ms)
    ultimately show ?thesis by simp
  qed
qed

lemma split_meshes_at_bound:
  assumes "4 \<le> limit" and "split_meshes_at limit ds = Inr new"
  shows "\<forall>m \<in> set new. length (vertices m) \<le> limit"
  using assms(2)
proof (induction ds arbitrary: new)
  case Nil
  then show ?case by simp
next
  case (Cons d ds)
  from Cons.prems obtain ms rest
    where first: "(if length (vertices d) > limit then split_chunks limit d 0 else Inr [d]) = Inr ms"
      and rest: "split_meshes_at limit ds = Inr rest" and new: "new = ms @ rest"
    by (auto split: sum.splits)
  have "\<forall>m \<in> set ms. length (vertices m) \<le> limit"
  proof (cases "length (vertices d) > limit")
    case True
    with first have "split_chunks limit d 0 = Inr ms" by simp
    from split_chunks_bound [OF assms(1) this] show ?thesis by auto
  next
    case False
    with first show ?thesis by auto
  qed
  with Cons.IH [OF rest] new show ?case by auto
qed

lemma split_meshes_at_corners:
  assumes "split_meshes_at limit ds = Inr new"
    and "\<forall>m \<in> set ds. 3 dvd length (indices m)"
  shows "(\<forall>m \<in> set new. 3 dvd length (indices m))
     \<and> concat (map corners new) = concat (map corners ds)"
  using assms
proof (induction ds arbitrary: new)
  case Nil
  then show ?case by simp
next
  case (Cons d ds)
  from Cons.prems(1) obtain ms rest
    where first: "(if length (vertices d) > limit then split_chunks limit d 0 else Inr [d]) = Inr ms"
      and rest: "split_meshes_at limit ds = Inr rest" and new: "new = ms @ rest"
    by (auto split: sum.splits)
  from Cons.prems(2) have d3: "3 dvd length (indices d)" and ds3: "\<forall>m \<in> set ds. 3 dvd length (indices m)"
    by simp_all
  have "(\<forall>m \<in> set ms. 3 dvd length (indices m)) \<and> concat (map corners ms) = corners d"
  proof (cases "length (vertices d) > limit")
    case True
    with first have "split_chunks limit d 0 = Inr ms" by simp
    from split_chunks_corners [OF this] d3 show ?thesis by (simp add: corners_def)
  next
    case False
    with first d3 show ?thesis by auto
  qed
  with Cons.IH [OF rest ds3] new show ?case by auto
qed

lemma triangles_concat:
  assumes "\<forall>m \<in> set ms. 3 dvd length (indices m)"
  shows "concat (map triangles_of ms) = triples (concat (map corners ms))"
proof -
  from assms have "\<forall>xs \<in> set (map corners ms). 3 dvd length xs"
    by (simp add: corners_def)
  from triples_concat [OF this] have "triples (concat (map corners ms)) = concat (map (\<lambda>m. triples (corners m)) ms)"
    by (simp add: comp_def)
  moreover have "triangles_of = (\<lambda>m. triples (corners m))"
    by (rule ext) (simp add: triangles_of_def)
  ultimately show ?thesis by simp
qed

lemma str_nat_MAX: "str_nat MAX_VERTICES_PER_MESH = ''65536''"
  by (simp add: MAX_VERTICES_PER_MESH_def str_nat.simps digit_char_def)

lemma write_mesh_rejects:
  "MAX_VERTICES_PER_MESH < length (vertices m) \<Longrightarrow>
   fst (write_mesh name m np s) =
     Some (Exception (''Only 65536 vertices per mesh allowed. ('' @ sq @ name @ sq @ '')''))"
  by (simp add: write_mesh_def Let_def str_nat_MAX)

lemma write_mesh_accepts:
  "length (vertices m) \<le> MAX_VERTICES_PER_MESH \<Longrightarrow> fst (write_mesh name m np s) = None"
  by (simp add: write_mesh_def Let_def)

definition vx :: "real \<Rightarrow> UvVertex" where
  "vx x = \<lparr>co = (x, 0, 0), normal = (0, 1, 0), uv = (0, 0), tangent = (1, 0, 0)\<rparr>"

lemma chunk_faces_end:
  "length inds \<le> i \<Longrightarrow> chunk_faces limit inds i m ni = (i, m, ni)"
  by (simp add: chunk_faces.simps [of limit inds i m ni])

lemma chunk_faces_step:
  "i < length inds \<Longrightarrow>
   chunk_faces limit inds i m ni =
     (case foldl map_face_index (m, ni) (take 3 (drop i inds)) of
        (m', ni') \<Rightarrow>
          if int (length m') \<ge> int limit - 3 then (i + 3, m', ni')
          else chunk_faces limit inds (i + 3) m' ni')"
  by (simp add: chunk_faces.simps [of limit inds i m ni])

lemma split_chunks_end:
  "length (indices msh) \<le> start \<Longrightarrow> split_chunks limit msh start = Inr []"
  by (simp add: split_chunks.simps [of limit msh start])

lemma split_chunks_step:
  "start < length (indices msh) \<Longrightarrow>
   split_chunks limit msh start =
     (case chunk_faces limit (indices msh) start [] [] of
        (start', m, ni) \<Rightarrow>
          (case lookup_vertices (vertices msh) (map fst (sort_key snd m)) of
             Inl e \<Rightarrow> Inl e
           | Inr verts \<Rightarrow>
               (case split_chunks limit msh start' of
                  Inl e \<Rightarrow> Inl e
                | Inr rest \<Rightarrow>
                    Inr (\<lparr>material_id = material_id msh, vertices = verts, indices = ni\<rparr>
                         # rest))))"
  by (simp add: split_chunks.simps [of limit msh start])

lemma big_split:
  "split_meshes_for_vertex_limit
     [\<lparr>material_id = Some 0, vertices = replicate 65537 (vx 0), indices = [0, 1, 2]\<rparr>]
   = Inr [\<lparr>material_id = Some 0, vertices = [vx 0, vx 0, vx 0], indices = [0, 1, 2]\<rparr>]"
  by (simp add: split_meshes_for_vertex_limit_def MAX_VERTICES_PER_MESH_def
      split_chunks_step split_chunks_end chunk_faces_step chunk_faces_end map_face_index_def)

lemma split_example:
  "split_meshes_at 7
     [\<lparr>material_id = Some 0, vertices = map vx [0, 1, 2, 3, 4, 5, 6, 7],
       indices = [0, 1, 2, 3, 4, 5, 0, 5, 7]\<rparr>]
   = Inr [\<lparr>material_id = Some 0, vertices = map vx [0, 1, 2, 3, 4, 5],
            indices = [0, 1, 2, 3, 4, 5]\<rparr>,
          \<lparr>material_id = Some 0, vertices = map vx [0, 5, 7], indices = [0, 1, 2]\<rparr>]"
  by (simp add: split_chunks_step split_chunks_end chunk_faces_step chunk_faces_end
      map_face_index_def)

text \<open>
  C1. For every mesh record emitted by the splitter after limit-splitting, the vertex
  list has at most 65536 entries, and no triangle's three indices are split across two
  chunks: \<open>_split_meshes_for_vertex_limit\<close> only starts a new chunk at a face
  boundary, and \<open>_write_mesh\<close> rejects any mesh whose vertex count exceeds the
  limit. Here: every emitted record is within the limit and passes the check of
  \<open>_write_mesh\<close>; when the index lists of the input hold whole triangles, so do those
  of the emitted records, and the triangles read back from the emitted records are the
  triangles of the input, in order; and \<open>_write_mesh\<close> raises for every mesh above
  the limit.
\<close>

theorem vertex_ceiling:
  assumes "split_meshes_for_vertex_limit divided_meshes = Inr new_meshes"
  shows "(\<forall>m \<in> set new_meshes.
            length (vertices m) \<le> MAX_VERTICES_PER_MESH \<and> fst (write_mesh name m np s) = None)
     \<and> ((\<forall>m \<in> set divided_meshes. 3 dvd length (indices m)) \<longrightarrow>
          (\<forall>m \<in> set new_meshes. 3 dvd length (indices m))
          \<and> concat (map triangles_of new_meshes) = concat (map triangles_of divided_meshes))
     \<and> (\<forall>m. MAX_VERTICES_PER_MESH < length (vertices m) \<longrightarrow>
          fst (write_mesh name m np s) =
            Some (Exception (''Only 65536 vertices per mesh allowed. ('' @ sq @ name @ sq @ '')'')))"
proof (intro conjI ballI allI impI)
  have at: "split_meshes_at MAX_VERTICES_PER_MESH divided_meshes = Inr new_meshes"
    using assms by (simp add: split_meshes_for_vertex_limit_def)
  have four: "4 \<le> MAX_VERTICES_PER_MESH" by (simp add: MAX_VERTICES_PER_MESH_def)
  {
    fix m assume "m \<in> set new_meshes"
    with split_meshes_at_bound [OF four at]
    show le: "length (vertices m) \<le> MAX_VERTICES_PER_MESH" by simp
    then show "fst (write_mesh name m np s) = None" by (rule write_mesh_accepts)
  }
  {
    assume d3: "\<forall>m \<in> set divided_meshes. 3 dvd length (indices m)"
    from split_meshes_at_corners [OF at d3]
    have n3: "\<forall>m \<in> set new_meshes. 3 dvd length (indices m)"
      and c: "concat (map corners new_meshes) = concat (map corners divided_meshes)"
      by simp_all
    {
      fix m assume "m \<in> set new_meshes"
      with n3 show "3 dvd length (indices m)" by simp
    }
    show "concat (map triangles_of new_meshes) = concat (map triangles_of divided_meshes)"
      by (simp only: triangles_concat [OF n3] triangles_concat [OF d3] c)
  }
  {
    fix m :: Mesh assume "MAX_VERTICES_PER_MESH < length (vertices m)"
    then show "fst (write_mesh name m np s) =
        Some (Exception (''Only 65536 vertices per mesh allowed. ('' @ sq @ name @ sq @ '')''))"
      by (rule write_mesh_rejects)
  }
qed

theorem vertex_ceiling_witness:
  "split_meshes_for_vertex_limit
     [\<lparr>material_id = Some 0, vertices = replicate 65537 (vx 0), indices = [0, 1, 2]\<rparr>]
   = Inr [\<lparr>material_id = Some 0, vertices = [vx 0, vx 0, vx 0], indices = [0, 1, 2]\<rparr>]
   \<and> length (vertices \<lparr>material_id = Some 0, vertices = [vx 0, vx 0, vx 0], indices = [0, 1, 2]\<rparr>)
       \<le> MAX_VERTICES_PER_MESH
   \<and> concat (map triangles_of
        [\<lparr>material_id = Some 0, vertices = [vx 0, vx 0, vx 0], indices = [0, 1, 2]\<rparr>])
     = concat (map triangles_of
        [\<lparr>material_id = Some 0, vertices = replicate 65537 (vx 0), indices = [0, 1, 2]\<rparr>])"
proof -
  let ?M = "\<lparr>material_id = Some 0, vertices = replicate 65537 (vx 0), indices = [0, 1, 2]\<rparr>"
  let ?C = "\<lparr>material_id = Some 0, vertices = [vx 0, vx 0, vx 0], indices = [0, 1, 2]\<rparr>"
  note t = vertex_ceiling [OF big_split, of "''tree''"
      "\<lparr>np_name = ''tree'', lodIn = 0, lodOut = 0, layer = 0, castShadows = True,
        visible = True, transparent = False, renderable = True\<rparr>"
      "\<lparr>out = [], warnings = []\<rparr>"]
  have d: "\<forall>m \<in> set [?M]. 3 dvd length (indices m)" by (simp add: numeral_3_eq_3)
  from t have "\<forall>m \<in> set [?C]. length (vertices m) \<le> MAX_VERTICES_PER_MESH" by blast
  then have a: "length (vertices ?C) \<le> MAX_VERTICES_PER_MESH" by simp
  from t d have b: "concat (map triangles_of [?C]) = concat (map triangles_of [?M])" by blast
  from big_split a b show ?thesis by (intro conjI)
qed

subsection \<open>The instance-group path and the regular path\<close>

lemma tree_material_unassigned:
  "idx < length (materials m) \<Longrightarrow> materials m ! idx = None \<Longrightarrow> tree_material e m idx = Inr []"
  by (simp add: tree_material_def)

lemma tree_material_hidden:
  "idx < length (materials m) \<Longrightarrow> materials m ! idx = Some mat \<Longrightarrow>
   is_hidden_name (mat_name mat) \<Longrightarrow> tree_material e m idx = Inr []"
  by (simp add: tree_material_def)

lemma split_material_unassigned:
  "idx < length (materials (mesh ob)) \<Longrightarrow> materials (mesh ob) ! idx = None \<Longrightarrow>
   split_material e ob idx =
     Inl (Exception (''Material slot '' @ str_nat idx @ '' for object '' @ sq @ obj_name ob
                     @ sq @ '' has no material assigned''))"
  by (simp add: split_material_def)

lemma split_material_hidden:
  "idx < length (materials (mesh ob)) \<Longrightarrow> materials (mesh ob) ! idx = Some mat \<Longrightarrow>
   is_hidden_name (mat_name mat) \<Longrightarrow>
   split_material e ob idx =
     Inl (Exception (''Material '' @ sq @ mat_name mat @ sq
                     @ '' is ignored but is used by object '' @ sq @ obj_name ob @ sq))"
  by (simp add: split_material_def)

lemma collect_results_all_empty:
  "(\<forall>x \<in> set xs. f x = Inr []) \<Longrightarrow> collect_results f xs = Inr []"
  by (induction xs) simp_all

lemma collect_results_raises:
  "x \<in> set xs \<Longrightarrow> f x = Inl err \<Longrightarrow> \<exists>err'. collect_results f xs = Inl err'"
  by (induction xs) (auto split: sum.splits)

lemma first_pass_skip:
  "extract_tree_mesh_data e ob = Inr [] \<Longrightarrow>
   tree_first_pass e (ob # obs) acc = tree_first_pass e obs acc"
  by simp

lemma first_pass_filter:
  "tree_first_pass e (filter (\<lambda>ob. extract_tree_mesh_data e ob \<noteq> Inr []) obs) acc
   = tree_first_pass e obs acc"
  by (induction obs arbitrary: acc) (auto split: sum.splits)

lemma second_pass_filter:
  "tree_second_pass e c (filter (\<lambda>ob. extract_tree_mesh_data e ob \<noteq> Inr []) obs) acc
   = tree_second_pass e c obs acc"
  by (induction obs arbitrary: acc) (auto split: sum.splits)

lemma first_pass_all_empty:
  "(\<forall>ob \<in> set obs. extract_tree_mesh_data e ob = Inr []) \<Longrightarrow>
   tree_first_pass e obs acc = Inr acc"
  by (induction obs arbitrary: acc) simp_all

lemma second_pass_all_empty:
  "(\<forall>ob \<in> set obs. extract_tree_mesh_data e ob = Inr []) \<Longrightarrow>
   tree_second_pass e c obs acc = Inr acc"
  by (induction obs arbitrary: acc) simp_all

lemma write_kstree_group_all_empty:
  assumes "\<forall>ob \<in> set objects. extract_tree_mesh_data e (info ob) = Inr []"
  shows "write_kstree_group e group_name objects s = (None, s)"
proof -
  let ?ms = "filter (\<lambda>ob. obj_type ob = ''MESH'') (map info objects)"
  from assms have "\<forall>ob \<in> set ?ms. extract_tree_mesh_data e ob = Inr []" by auto
  then show ?thesis
    by (simp add: write_kstree_group_def Let_def first_pass_all_empty second_pass_all_empty)
qed

lemma filter_mesh_commute:
  "filter (\<lambda>ob. obj_type ob = ''MESH'')
     (map info (filter (\<lambda>ob. extract_tree_mesh_data e (info ob) \<noteq> Inr []) objects))
   = filter (\<lambda>ob. extract_tree_mesh_data e ob \<noteq> Inr [])
       (filter (\<lambda>ob. obj_type ob = ''MESH'') (map info objects))"
  by (induction objects) auto

lemma write_kstree_group_filter:
  "write_kstree_group e group_name
     (filter (\<lambda>ob. extract_tree_mesh_data e (info ob) \<noteq> Inr []) objects) s
   = write_kstree_group e group_name objects s"
proof -
  let ?ms = "filter (\<lambda>ob. obj_type ob = ''MESH'') (map info objects)"
  let ?fs = "filter (\<lambda>ob. extract_tree_mesh_data e ob \<noteq> Inr []) ?ms"
  show ?thesis
  proof (cases "?fs = []")
    case True
    then have all: "\<forall>ob \<in> set ?ms. extract_tree_mesh_data e ob = Inr []"
      by (auto simp: filter_empty_conv)
    have "write_kstree_group e group_name
        (filter (\<lambda>ob. extract_tree_mesh_data e (info ob) \<noteq> Inr []) objects) s = (None, s)"
      using True by (simp add: write_kstree_group_def filter_mesh_commute)
    moreover have "write_kstree_group e group_name objects s = (None, s)"
      using all
      by (simp add: write_kstree_group_def Let_def first_pass_all_empty second_pass_all_empty)
    ultimately show ?thesis by simp
  next
    case False
    have ne: "?ms \<noteq> []"
    proof
      assume "?ms = []"
      then have "?fs = []" by simp
      with False show False by simp
    qed
    from False ne show ?thesis
      by (simp add: write_kstree_group_def filter_mesh_commute first_pass_filter
          second_pass_filter Let_def del: filter_filter cong: sum.case_cong prod.case_cong)
  qed
qed

subsection \<open>Collecting and grouping the top-level objects\<close>

definition is_exported :: "obj \<Rightarrow> bool" where
  "is_exported ob =
     (\<not> is_hidden_name (obj_name (info ob)) \<and> \<not> is_object_excluded_by_collection (info ob))"

definition is_regular :: "obj \<Rightarrow> bool" where
  "is_regular ob = (is_exported ob \<and> get_kstree_group_name (obj_name (info ob)) = None)"

definition group_key_of :: "obj \<Rightarrow> string option" where
  "group_key_of ob =
     (if is_exported ob then map_option lower (get_kstree_group_name (obj_name (info ob)))
      else None)"

lemma groups_append_keys:
  "map fst (groups_append groups group_name ob) =
     (if lower group_name \<in> set (map fst groups) then map fst groups
      else map fst groups @ [lower group_name])"
proof -
  have m: "\<And>gs. map fst (map (\<lambda>(k, n, obs). if k = lower group_name then (k, n, obs @ [ob])
              else (k, n, obs)) gs) = map fst gs"
    by (simp add: case_prod_beta comp_def)
  show ?thesis
    by (auto simp: groups_append_def Let_def m map_of_eq_None_iff simp del: map_map)
qed

lemma collect_step_cases:
  "collect_step (r, g) ob =
     (if is_regular ob then (r @ [ob], g)
      else case group_key_of ob of
             None \<Rightarrow> (r, g)
           | Some k \<Rightarrow> (case get_kstree_group_name (obj_name (info ob)) of
                          None \<Rightarrow> (r, g) | Some n \<Rightarrow> (r, groups_append g n ob)))"
  by (auto simp: collect_step_def is_regular_def group_key_of_def is_exported_def
      split: option.splits)

lemma collect_regular:
  "fst (foldl collect_step (r, g) scene) = r @ filter is_regular scene"
proof (induction scene arbitrary: r g)
  case Nil
  show ?case by simp
next
  case (Cons ob scene)
  obtain r1 g1 where st: "collect_step (r, g) ob = (r1, g1)" by (cases "collect_step (r, g) ob")
  then have r1: "r1 = (if is_regular ob then r @ [ob] else r)"
    by (auto simp: collect_step_cases split: if_splits option.splits)
  from Cons.IH [of r1 g1] st r1 show ?case by simp
qed

lemma collect_keys:
  "distinct (map fst g) \<Longrightarrow>
   distinct (map fst (snd (foldl collect_step (r, g) scene)))
   \<and> set (map fst (snd (foldl collect_step (r, g) scene)))
     = set (map fst g) \<union> {k. \<exists>ob \<in> set scene. group_key_of ob = Some k}"
proof (induction scene arbitrary: r g)
  case Nil
  then show ?case by simp
next
  case (Cons ob scene)
  obtain r1 g1 where st: "collect_step (r, g) ob = (r1, g1)" by (cases "collect_step (r, g) ob")
  have g1: "distinct (map fst g1) \<and> set (map fst g1)
      = set (map fst g) \<union> {k. group_key_of ob = Some k}"
  proof (cases "group_key_of ob")
    case None
    then have "g1 = g" using st
      by (auto simp: collect_step_cases split: if_splits option.splits)
    with None Cons.prems show ?thesis by simp
  next
    case (Some k)
    then obtain n where n: "get_kstree_group_name (obj_name (info ob)) = Some n" and k: "k = lower n"
      by (auto simp: group_key_of_def split: if_splits)
    from Some have nr: "\<not> is_regular ob"
      by (auto simp: is_regular_def group_key_of_def split: if_splits)
    from st nr Some n have "g1 = groups_append g n ob"
      by (simp add: collect_step_cases)
    with Cons.prems Some k show ?thesis
      by (auto simp: groups_append_keys simp del: map_map)
  qed
  from Cons.IH [of g1 r1] g1 st show ?case by auto
qed

lemma collect_and_group_objects_regular:
  "set (fst (collect_and_group_objects scene)) = {ob \<in> set scene. is_regular ob}"
  "length (fst (collect_and_group_objects scene)) = length (filter is_regular scene)"
proof -
  obtain r g where f: "foldl collect_step ([], []) scene = (r, g)"
    by (cases "foldl collect_step ([], []) scene")
  from collect_regular [of "[]" "[]" scene] f have r: "r = filter is_regular scene" by simp
  from f r show "set (fst (collect_and_group_objects scene)) = {ob \<in> set scene. is_regular ob}"
    by (auto simp: collect_and_group_objects_def)
  from f r show "length (fst (collect_and_group_objects scene)) = length (filter is_regular scene)"
    by (simp add: collect_and_group_objects_def)
qed

lemma collect_and_group_objects_keys:
  "distinct (map fst (snd (collect_and_group_objects scene)))"
  "set (map fst (snd (collect_and_group_objects scene)))
     = {k. \<exists>ob \<in> set scene. group_key_of ob = Some k}"
proof -
  obtain r g where f: "foldl collect_step ([], []) scene = (r, g)"
    by (cases "foldl collect_step ([], []) scene")
  have m: "map fst (map (\<lambda>(k, n, obs). (k, n, sort_key (\<lambda>ob. obj_name (info ob)) obs)) g)
      = map fst g"
    by (simp add: case_prod_beta comp_def)
  from collect_keys [of "[]" "[]" scene] f
  have "distinct (map fst g)" "set (map fst g) = {k. \<exists>ob \<in> set scene. group_key_of ob = Some k}"
    by simp_all
  with f m show "distinct (map fst (snd (collect_and_group_objects scene)))"
    "set (map fst (snd (collect_and_group_objects scene)))
     = {k. \<exists>ob \<in> set scene. group_key_of ob = Some k}"
    by (simp_all add: collect_and_group_objects_def del: map_map)
qed

definition group_entry_ok :: "obj list \<Rightarrow> string \<times> string \<times> obj list \<Rightarrow> bool" where
  "group_entry_ok pre g =
     (case g of (k, n, obs) \<Rightarrow>
        obs = filter (\<lambda>ob. group_key_of ob = Some k) pre \<and> obs \<noteq> []
        \<and> get_kstree_group_name (obj_name (info (hd obs))) = Some n)"

definition groups_ok :: "obj list \<Rightarrow> kstree_groups \<Rightarrow> bool" where
  "groups_ok pre g =
     (distinct (map fst g) \<and> (\<forall>x \<in> set g. group_entry_ok pre x)
      \<and> set (map fst g) = {k. \<exists>ob \<in> set pre. group_key_of ob = Some k})"

lemma groups_ok_Nil: "groups_ok [] []"
  by (simp add: groups_ok_def)

lemma group_entry_ok_other:
  assumes "group_entry_ok pre (k, n, obs)" and "group_key_of ob \<noteq> Some k"
  shows "group_entry_ok (pre @ [ob]) (k, n, obs)"
  using assms by (auto simp: group_entry_ok_def)

lemma group_entry_ok_same:
  assumes "group_entry_ok pre (k, n, obs)" and "group_key_of ob = Some k"
  shows "group_entry_ok (pre @ [ob]) (k, n, obs @ [ob])"
  using assms by (auto simp: group_entry_ok_def hd_append)

lemma groups_ok_skip:
  assumes "groups_ok pre g" and "group_key_of ob = None"
  shows "groups_ok (pre @ [ob]) g"
  using assms
  by (auto simp: groups_ok_def group_entry_ok_def)

lemma groups_ok_append:
  assumes ok: "groups_ok pre g" and key: "group_key_of ob = Some (lower n)"
    and n: "get_kstree_group_name (obj_name (info ob)) = Some n"
  shows "groups_ok (pre @ [ob]) (groups_append g n ob)"
proof -
  let ?k = "lower n"
  let ?upd = "\<lambda>(k, n, obs). if k = ?k then (k, n, obs @ [ob]) else (k, n, obs)"
  from ok have dist: "distinct (map fst g)" and ent: "\<forall>x \<in> set g. group_entry_ok pre x"
    and keys: "set (map fst g) = {k. \<exists>ob \<in> set pre. group_key_of ob = Some k}"
    by (simp_all add: groups_ok_def)
  have upd_ok: "\<And>x. group_entry_ok pre x \<Longrightarrow> group_entry_ok (pre @ [ob]) (?upd x)"
  proof -
    fix x assume x: "group_entry_ok pre x"
    obtain k m obs where xx: "x = (k, m, obs)" by (cases x)
    show "group_entry_ok (pre @ [ob]) (?upd x)"
    proof (cases "k = ?k")
      case True
      with x xx key show ?thesis by (simp add: group_entry_ok_same)
    next
      case False
      with x xx key show ?thesis by (simp add: group_entry_ok_other)
    qed
  qed
  have keys': "set (map fst (groups_append g n ob))
      = {k. \<exists>ob' \<in> set (pre @ [ob]). group_key_of ob' = Some k}"
    using keys key by (auto simp: groups_append_keys simp del: map_map)
  have dist': "distinct (map fst (groups_append g n ob))"
    using dist by (auto simp: groups_append_keys simp del: map_map)
  have ent': "\<forall>x \<in> set (groups_append g n ob). group_entry_ok (pre @ [ob]) x"
  proof (cases "map_of g ?k = None")
    case True
    then have notin: "?k \<notin> set (map fst g)" by (simp add: map_of_eq_None_iff)
    with keys have "filter (\<lambda>ob'. group_key_of ob' = Some ?k) pre = []"
      by (auto simp: filter_empty_conv)
    then have new: "group_entry_ok (pre @ [ob]) (?k, n, [ob])"
      using key n by (simp add: group_entry_ok_def)
    have "groups_append g n ob = map ?upd (g @ [(?k, n, [])])"
      using True by (simp add: groups_append_def Let_def)
    also have "\<dots> = map ?upd g @ [(?k, n, [ob])]" by simp
    finally have eq: "groups_append g n ob = map ?upd g @ [(?k, n, [ob])]" .
    show ?thesis
      unfolding eq using new upd_ok ent by auto
  next
    case False
    then have "groups_append g n ob = map ?upd g"
      by (simp add: groups_append_def Let_def)
    then show ?thesis using upd_ok ent by auto
  qed
  from dist' ent' keys' show ?thesis by (simp add: groups_ok_def)
qed

lemma collect_step_groups_ok:
  assumes "groups_ok pre g"
  shows "groups_ok (pre @ [ob]) (snd (collect_step (r, g) ob))"
proof (cases "group_key_of ob")
  case None
  then have "snd (collect_step (r, g) ob) = g"
    by (auto simp: collect_step_cases)
  with groups_ok_skip [OF assms None] show ?thesis by simp
next
  case (Some k)
  then obtain n where n: "get_kstree_group_name (obj_name (info ob)) = Some n" and k: "k = lower n"
    by (auto simp: group_key_of_def split: if_splits)
  from Some have nr: "\<not> is_regular ob"
    by (auto simp: is_regular_def group_key_of_def split: if_splits)
  from nr Some n have "snd (collect_step (r, g) ob) = groups_append g n ob"
    by (simp add: collect_step_cases)
  with groups_ok_append [OF assms _ n] Some k show ?thesis by simp
qed

lemma foldl_collect_groups_ok:
  "groups_ok pre g \<Longrightarrow> groups_ok (pre @ scene) (snd (foldl collect_step (r, g) scene))"
proof (induction scene arbitrary: pre r g)
  case Nil
  then show ?case by simp
next
  case (Cons ob scene)
  obtain r1 g1 where st: "collect_step (r, g) ob = (r1, g1)" by (cases "collect_step (r, g) ob")
  from collect_step_groups_ok [OF Cons.prems, of ob r] st have "groups_ok (pre @ [ob]) g1" by simp
  from Cons.IH [OF this, of r1] st show ?case by simp
qed

text \<open>What \<open>kstree_groups[key]\<close> holds after \<open>_collect_and_group_objects\<close>.\<close>

lemma collect_and_group_objects_entry:
  assumes "map_of (snd (collect_and_group_objects scene)) k = Some (n, obs)"
  shows "obs = sort_key (\<lambda>ob. obj_name (info ob)) (filter (\<lambda>ob. group_key_of ob = Some k) scene)"
    and "filter (\<lambda>ob. group_key_of ob = Some k) scene \<noteq> []"
    and "get_kstree_group_name
           (obj_name (info (hd (filter (\<lambda>ob. group_key_of ob = Some k) scene)))) = Some n"
proof -
  obtain r g where f: "foldl collect_step ([], []) scene = (r, g)"
    by (cases "foldl collect_step ([], []) scene")
  from foldl_collect_groups_ok [OF groups_ok_Nil, of scene "[]"] f have ok: "groups_ok scene g"
    by simp
  from f have "snd (collect_and_group_objects scene)
      = map (\<lambda>(k, n, obs). (k, n, sort_key (\<lambda>ob. obj_name (info ob)) obs)) g"
    by (simp add: collect_and_group_objects_def)
  with assms have "(k, n, obs) \<in> set (map (\<lambda>(k, n, obs). (k, n, sort_key (\<lambda>ob. obj_name (info ob)) obs)) g)"
    by (auto dest: map_of_SomeD)
  then obtain obs0 where in_g: "(k, n, obs0) \<in> set g"
    and obs: "obs = sort_key (\<lambda>ob. obj_name (info ob)) obs0"
    by auto
  from ok in_g have e: "group_entry_ok scene (k, n, obs0)" by (auto simp: groups_ok_def)
  from e obs show "obs = sort_key (\<lambda>ob. obj_name (info ob)) (filter (\<lambda>ob. group_key_of ob = Some k) scene)"
    by (simp add: group_entry_ok_def)
  from e show "filter (\<lambda>ob. group_key_of ob = Some k) scene \<noteq> []"
    by (auto simp: group_entry_ok_def)
  from e show "get_kstree_group_name
           (obj_name (info (hd (filter (\<lambda>ob. group_key_of ob = Some k) scene)))) = Some n"
    by (auto simp: group_entry_ok_def)
qed

subsection \<open>Exceptions of the regular path and of the export\<close>

definition unassigned_material :: "obj_info \<Rightarrow> bool" where
  "unassigned_material ob =
     (materials (mesh ob) = []
      \<or> (\<exists>t \<in> set (loop_triangles (mesh ob)).
            material_index t < length (materials (mesh ob))
            \<and> materials (mesh ob) ! material_index t = None))"

lemma used_materials_set:
  "set_order_ok e \<Longrightarrow> set (used_materials e m) = material_index ` set (loop_triangles m)"
  by (simp add: used_materials_def set_order_ok_def)

lemma split_object_no_materials:
  "materials (mesh ob) = [] \<Longrightarrow>
   split_object_by_materials e ob =
     Inl (Exception (''Object '' @ sq @ obj_name ob @ sq @ '' has no material assigned''))"
  by (simp add: split_object_by_materials_def)

lemma split_object_unassigned_slot:
  assumes "idx \<in> set (used_materials e (mesh ob))" and "idx < length (materials (mesh ob))"
    and "materials (mesh ob) ! idx = None"
  shows "\<exists>err. split_object_by_materials e ob = Inl err"
proof -
  from assms(2) have ne: "materials (mesh ob) \<noteq> []" by auto
  from collect_results_raises [of idx "used_materials e (mesh ob)" "split_material e ob",
      OF assms(1) split_material_unassigned [OF assms(2,3)]] ne
  show ?thesis by (simp add: split_object_by_materials_def)
qed

lemma split_object_raises:
  assumes "set_order_ok e" and "unassigned_material ob"
  shows "\<exists>err. split_object_by_materials e ob = Inl err"
proof (cases "materials (mesh ob) = []")
  case True
  then show ?thesis by (simp add: split_object_no_materials)
next
  case False
  with assms(2) obtain t where t: "t \<in> set (loop_triangles (mesh ob))"
    and lt: "material_index t < length (materials (mesh ob))"
    and none: "materials (mesh ob) ! material_index t = None"
    by (auto simp: unassigned_material_def)
  from t have "material_index t \<in> set (used_materials e (mesh ob))"
    by (simp add: used_materials_set [OF assms(1)])
  from split_object_unassigned_slot [OF this lt none] show ?thesis .
qed

lemma write_mesh_node_raises:
  "split_object_by_materials e ob = Inl err \<Longrightarrow> write_mesh_node e hp ob s = (Some err, s)"
  by (simp add: write_mesh_node_def)

lemma write_object_raises:
  assumes "set_order_ok e" and "unassigned_material ob" and "obj_type ob = ''MESH''"
    and "\<not> is_hidden_name (obj_name ob)"
  shows "\<exists>err. write_object e hp (Obj ob cs) s = (Some err, s)"
proof -
  from split_object_raises [OF assms(1,2)] obtain err
    where "split_object_by_materials e ob = Inl err" by blast
  then have "write_mesh_node e hp ob s = (Some err, s)" by (rule write_mesh_node_raises)
  with assms(3,4) show ?thesis by (cases "cs = []") simp_all
qed

lemma write_objects_raises:
  assumes "ob \<in> set obs" and "\<And>s. \<exists>err s'. write_object e False ob s = (Some err, s')"
  shows "\<exists>err s'. write_objects e obs s = (Some err, s')"
  using assms(1)
proof (induction obs arbitrary: s)
  case Nil
  then show ?case by simp
next
  case (Cons x xs)
  show ?case
  proof (cases "write_object e False x s")
    case (Pair r s1)
    show ?thesis
    proof (cases r)
      case (Some err)
      with Pair show ?thesis by simp
    next
      case None
      with Pair assms(2) [of s] have "x \<noteq> ob" by auto
      with Cons.prems have "ob \<in> set xs" by simp
      from Cons.IH [OF this, of s1] Pair None show ?thesis by simp
    qed
  qed
qed

lemma NodeWriter_write_raises:
  assumes "set_order_ok e" and "ob \<in> set scene" and "is_regular ob"
    and "obj_type (info ob) = ''MESH''" and "unassigned_material (info ob)"
  shows "\<exists>err s'. NodeWriter_write e scene s = (Some err, s')"
proof -
  obtain regular groups where cg: "collect_and_group_objects scene = (regular, groups)"
    by (cases "collect_and_group_objects scene")
  from collect_and_group_objects_regular(1) [of scene] cg assms(2,3)
  have mem: "ob \<in> set regular" by simp
  obtain i cs where ob: "ob = Obj i cs" by (cases ob)
  from assms(3) ob have nh: "\<not> is_hidden_name (obj_name i)"
    by (simp add: is_regular_def is_exported_def)
  from assms(4,5) ob have ty: "obj_type i = ''MESH''" and um: "unassigned_material i"
    by simp_all
  have r: "\<And>s. \<exists>err s'. write_object e False ob s = (Some err, s')"
  proof -
    fix s
    from write_object_raises [OF assms(1) um ty nh, of False cs s]
    show "\<exists>err s'. write_object e False ob s = (Some err, s')"
      unfolding ob by blast
  qed
  let ?s1 = "write_base_node_data ''BlenderFile'' (length regular + length groups) True
               identity_matrix s"
  show ?thesis
  proof (cases "write_groups e groups (sort (map fst groups)) ?s1")
    case (Pair r2 s2)
    show ?thesis
    proof (cases r2)
      case (Some err)
      with Pair cg show ?thesis by (simp add: NodeWriter_write_def Let_def)
    next
      case None
      from write_objects_raises [OF mem r, of s2] obtain err s' 
        where "write_objects e regular s2 = (Some err, s')" by blast
      with Pair None cg show ?thesis by (simp add: NodeWriter_write_def Let_def)
    qed
  qed
qed

lemma KN5Exporter_write_raises:
  assumes "\<And>s. \<exists>err s'. NodeWriter_write (node_env ctx) (scene_objects ctx) s = (Some err, s')"
  shows "\<exists>err s'. KN5Exporter_write t ctx s = (Some err, s')"
proof -
  let ?s1 = "emit [WRaw KN5_HEADER, WUInt KN5_VERSION] s"
  obtain r2 s2 where tw: "TextureWriter_write t (texture_nodes ctx) ?s1 = (r2, s2)"
    by (cases "TextureWriter_write t (texture_nodes ctx) ?s1")
  obtain r3 s3 where mw: "MaterialWriter_write (materials_written ctx) s2 = (r3, s3)"
    by (cases "MaterialWriter_write (materials_written ctx) s2")
  from assms [of s3] obtain err s' where
    nw: "NodeWriter_write (node_env ctx) (scene_objects ctx) s3 = (Some err, s')" by blast
  show ?thesis
    using tw mw nw
    by (cases r2; cases r3) (simp_all add: KN5Exporter_write_def Let_def)
qed

lemma temp_differs: "filepath @ ''.tmp'' \<noteq> filepath"
  by simp

lemma export_failed_status:
  "fst (export_failed os temp err warns f) =
     (''error'', warns @ [''Export failed: '' @ str_error os err, format_exc os err])"
  by (simp add: export_failed_def)

lemma export_failed_files:
  "snd (export_failed os temp err warns f) p =
     (if p = temp \<and> \<not> unlink_raises os then None else f p)"
  by (simp add: export_failed_def)

text \<open>A run of \<open>export_kn5\<close> in which opening the temporary file or the write raises.\<close>

lemma export_kn5_write_fails:
  assumes "open_raises os \<or> fst (KN5Exporter_write t ctx \<lparr>out = [], warnings = []\<rparr>) \<noteq> None"
  shows "\<exists>err warns.
      fst (export_kn5 os t filepath ctx copy_textures f)
        = (''error'', warns @ [''Export failed: '' @ str_error os err, format_exc os err])
      \<and> (\<forall>p. p \<noteq> filepath @ ''.tmp'' \<longrightarrow>
             snd (export_kn5 os t filepath ctx copy_textures f) p = f p)
      \<and> (\<not> unlink_raises os \<longrightarrow>
             snd (export_kn5 os t filepath ctx copy_textures f) (filepath @ ''.tmp'') = None)
      \<and> (unlink_raises os \<and> \<not> open_raises os \<longrightarrow>
             snd (export_kn5 os t filepath ctx copy_textures f) (filepath @ ''.tmp'')
               = Some (out (snd (KN5Exporter_write t ctx \<lparr>out = [], warnings = []\<rparr>))))
      \<and> (unlink_raises os \<and> open_raises os \<longrightarrow>
             snd (export_kn5 os t filepath ctx copy_textures f) (filepath @ ''.tmp'')
               = f (filepath @ ''.tmp''))"
proof (cases "open_raises os")
  case True
  then have "export_kn5 os t filepath ctx copy_textures f
      = export_failed os (filepath @ ''.tmp'') OSError [] f"
    by (simp add: export_kn5_def Let_def)
  with True show ?thesis
    by (intro exI [of _ OSError] exI [of _ "[]"])
       (simp add: export_failed_status export_failed_files)
next
  case False
  with assms obtain err s where w: "KN5Exporter_write t ctx \<lparr>out = [], warnings = []\<rparr> = (Some err, s)"
    by (cases "KN5Exporter_write t ctx \<lparr>out = [], warnings = []\<rparr>") auto
  with False have "export_kn5 os t filepath ctx copy_textures f
      = export_failed os (filepath @ ''.tmp'') err (warnings s) (f(filepath @ ''.tmp'' \<mapsto> out s))"
    by (simp add: export_kn5_def Let_def)
  with False w show ?thesis
    by (intro exI [of _ err] exI [of _ "warnings s"])
       (simp add: export_failed_status export_failed_files)
qed

subsection \<open>Example scenes\<close>

definition example_env :: env where
  "example_env = \<lparr>material_positions = [(''grass'', 0)], set_order = remdups, linesep = [CHR 0x0A]\<rparr>"

definition example_loop :: "real \<Rightarrow> real \<Rightarrow> loop" where
  "example_loop x y =
     \<lparr>world_co = (x, y, 0), loop_normal = (0, 0, 1), loop_uv = (x, y), loop_tangent = (1, 0, 0)\<rparr>"

definition example_triangle :: triangle where
  "example_triangle =
     \<lparr>material_index = 0, loops = (example_loop 0 0, example_loop 1 0, example_loop 0 1)\<rparr>"

definition example_mesh :: "material option list \<Rightarrow> mesh_data" where
  "example_mesh mats =
     \<lparr>has_uv_layers = True, calc_tangents_raises = False, uv_layer_active = True,
      materials = mats, loop_triangles = [example_triangle]\<rparr>"

definition example_object :: "string \<Rightarrow> material option list \<Rightarrow> obj" where
  "example_object name mats =
     Obj \<lparr>obj_name = name, obj_type = ''MESH'', hide_viewport = False, hide_render = False,
          hide_get = False, users_collection = [],
          ac_kn5 = \<lparr>lod_in = 0, lod_out = 0, cast_shadows = True, kn5_visible = True,
                    kn5_transparent = False, kn5_renderable = True\<rparr>,
          mesh = example_mesh mats, dimensions = (1, 1, 0),
          matrix_local_converted = identity_matrix,
          parent_inverse_converted = identity_matrix\<rparr> []"

definition example_context :: "obj list \<Rightarrow> blender_context" where
  "example_context scene =
     \<lparr>texture_nodes = [],
      materials_written = \<lparr>mw_out = [], mw_warnings = [], mw_raises = None\<rparr>,
      node_env = example_env, scene_objects = scene\<rparr>"

definition example_tex_env :: tex_env where
  "example_tex_env =
     \<lparr>texconv_path = ''texconv.exe'', texconv_exists = False,
      run_texconv = (\<lambda>d n. NoOutput), splitext_root = (\<lambda>n. n)\<rparr>"

definition example_os :: "bool \<Rightarrow> os_env" where
  "example_os unlink_fails =
     \<lparr>open_raises = False, unlink_raises = unlink_fails, replace_raises = False,
      builtin_message = (\<lambda>e. ''error''), format_exc = (\<lambda>e. ''Traceback''),
      copy_warnings = [], copy_files = [], copy_raises = None\<rparr>"

lemma example_env_ok: "set_order_ok example_env"
  by (simp add: set_order_ok_def example_env_def)

lemma kstree_name_OAK_1: "get_kstree_group_name ''KSTREE_GROUP_OAK_1'' = Some ''OAK''"
  by code_simp

lemma kstree_name_cube: "get_kstree_group_name ''cube'' = None"
  by code_simp

lemma lower_OAK: "lower ''OAK'' = ''oak''"
  by code_simp

lemma example_object_exported: "is_exported (example_object ''KSTREE_GROUP_OAK_1'' mats)"
  "is_exported (example_object ''cube'' mats)"
  by (simp_all add: is_exported_def example_object_def is_hidden_name_def
      is_object_excluded_by_collection_def)

lemma example_cube_regular: "is_regular (example_object ''cube'' mats)"
  using example_object_exported(2) [of mats]
  by (simp add: is_regular_def example_object_def kstree_name_cube)


lemma example_no_materials: "unassigned_material (info (example_object name []))"
  by (simp add: unassigned_material_def example_object_def example_mesh_def)


lemma example_tree_extract:
  "extract_tree_mesh_data example_env (info (example_object name [None])) = Inr []"
  by (simp add: extract_tree_mesh_data_def example_object_def example_mesh_def
      used_materials_def example_env_def example_triangle_def tree_material_def)



subsection \<open>Unassigned materials\<close>



text \<open>
  C10. In the instance-group merge path, a material slot with no material assigned, or
  with a hidden (\<open>__\<close>-prefixed) material name, is silently skipped: no exception is
  raised and no warning is recorded; and a member object with no materials at all
  contributes no geometry while the export still succeeds. In the regular per-object
  path the same conditions raise. Here: for such a slot the merge path adds nothing to
  its result where the regular path returns the exception; an object without materials
  gives the empty result in the merge path and the exception in the regular path; the
  members that give the empty result can be removed from a group without changing what
  \<open>_write_kstree_group\<close> returns, writes or warns; and a group of such members only
  returns normally, with the state (output and warnings) untouched.
\<close>

theorem tree_path_skips_silently:
  "(idx < length (materials (mesh ob)) \<and> materials (mesh ob) ! idx = None \<longrightarrow>
      tree_material e (mesh ob) idx = Inr []
      \<and> split_material e ob idx =
          Inl (Exception (''Material slot '' @ str_nat idx @ '' for object '' @ sq @ obj_name ob
                          @ sq @ '' has no material assigned'')))
   \<and> (idx < length (materials (mesh ob)) \<and> materials (mesh ob) ! idx = Some mat
        \<and> is_hidden_name (mat_name mat) \<longrightarrow>
      tree_material e (mesh ob) idx = Inr []
      \<and> split_material e ob idx =
          Inl (Exception (''Material '' @ sq @ mat_name mat @ sq
                          @ '' is ignored but is used by object '' @ sq @ obj_name ob @ sq)))
   \<and> (materials (mesh ob) = [] \<longrightarrow>
      extract_tree_mesh_data e ob = Inr []
      \<and> split_object_by_materials e ob =
          Inl (Exception (''Object '' @ sq @ obj_name ob @ sq @ '' has no material assigned''))
      \<and> write_mesh_node e has_parent ob s =
          (Some (Exception (''Object '' @ sq @ obj_name ob @ sq @ '' has no material assigned'')), s))
   \<and> ((\<forall>i \<in> set (used_materials e (mesh ob)). tree_material e (mesh ob) i = Inr []) \<longrightarrow>
      extract_tree_mesh_data e ob = Inr [])
   \<and> write_kstree_group e group_name objects s =
       write_kstree_group e group_name
         (filter (\<lambda>member. extract_tree_mesh_data e (info member) \<noteq> Inr []) objects) s
   \<and> ((\<forall>member \<in> set objects. extract_tree_mesh_data e (info member) = Inr []) \<longrightarrow>
       write_kstree_group e group_name objects s = (None, s))"
proof (intro conjI impI)
  assume a: "idx < length (materials (mesh ob)) \<and> materials (mesh ob) ! idx = None"
  then show "tree_material e (mesh ob) idx = Inr []" by (simp add: tree_material_unassigned)
  from a show "split_material e ob idx =
          Inl (Exception (''Material slot '' @ str_nat idx @ '' for object '' @ sq @ obj_name ob
                          @ sq @ '' has no material assigned''))"
    by (simp add: split_material_unassigned)
next
  assume a: "idx < length (materials (mesh ob)) \<and> materials (mesh ob) ! idx = Some mat
        \<and> is_hidden_name (mat_name mat)"
  then show "tree_material e (mesh ob) idx = Inr []" by (simp add: tree_material_hidden)
  from a show "split_material e ob idx =
          Inl (Exception (''Material '' @ sq @ mat_name mat @ sq
                          @ '' is ignored but is used by object '' @ sq @ obj_name ob @ sq))"
    by (simp add: split_material_hidden)
next
  assume a: "materials (mesh ob) = []"
  then show "extract_tree_mesh_data e ob = Inr []" by (simp add: extract_tree_mesh_data_def)
  from a show sp: "split_object_by_materials e ob =
          Inl (Exception (''Object '' @ sq @ obj_name ob @ sq @ '' has no material assigned''))"
    by (rule split_object_no_materials)
  from sp show "write_mesh_node e has_parent ob s =
          (Some (Exception (''Object '' @ sq @ obj_name ob @ sq @ '' has no material assigned'')), s)"
    by (rule write_mesh_node_raises)
next
  assume "\<forall>i \<in> set (used_materials e (mesh ob)). tree_material e (mesh ob) i = Inr []"
  then show "extract_tree_mesh_data e ob = Inr []"
    by (simp add: extract_tree_mesh_data_def collect_results_all_empty)
next
  show "write_kstree_group e group_name objects s =
       write_kstree_group e group_name
         (filter (\<lambda>member. extract_tree_mesh_data e (info member) \<noteq> Inr []) objects) s"
    by (rule write_kstree_group_filter [symmetric])
next
  assume "\<forall>member \<in> set objects. extract_tree_mesh_data e (info member) = Inr []"
  then show "write_kstree_group e group_name objects s = (None, s)"
    by (rule write_kstree_group_all_empty)
qed

theorem tree_path_skips_silently_witness:
  "materials (mesh (info (example_object ''KSTREE_GROUP_OAK_1'' [None]))) ! 0 = None
   \<and> tree_material example_env (mesh (info (example_object ''KSTREE_GROUP_OAK_1'' [None]))) 0 = Inr []
   \<and> split_material example_env (info (example_object ''KSTREE_GROUP_OAK_1'' [None])) 0 =
        Inl (Exception ''Material slot 0 for object 'KSTREE_GROUP_OAK_1' has no material assigned'')
   \<and> write_kstree_group example_env ''OAK'' [example_object ''KSTREE_GROUP_OAK_1'' [None]]
        \<lparr>out = [], warnings = []\<rparr> = (None, \<lparr>out = [], warnings = []\<rparr>)"
proof -
  let ?o = "example_object ''KSTREE_GROUP_OAK_1'' [None]"
  note t = tree_path_skips_silently [of 0 "info ?o" example_env undefined undefined
      "\<lparr>out = [], warnings = []\<rparr>" "''OAK''" "[?o]"]
  have h: "0 < length (materials (mesh (info ?o))) \<and> materials (mesh (info ?o)) ! 0 = None"
    by (simp add: example_object_def example_mesh_def)
  have n: "obj_name (info ?o) = ''KSTREE_GROUP_OAK_1''" by (simp add: example_object_def)
  from t h have a: "tree_material example_env (mesh (info ?o)) 0 = Inr []" by blast
  from t h have "split_material example_env (info ?o) 0 =
      Inl (Exception (''Material slot '' @ str_nat 0 @ '' for object '' @ sq @ obj_name (info ?o)
                          @ sq @ '' has no material assigned''))" by blast
  then have b: "split_material example_env (info ?o) 0 =
        Inl (Exception ''Material slot 0 for object 'KSTREE_GROUP_OAK_1' has no material assigned'')"
    by (simp add: n sq_def str_nat.simps digit_char_def)
  have "\<forall>member \<in> set [?o]. extract_tree_mesh_data example_env (info member) = Inr []"
    by (simp add: example_tree_extract)
  with t have c: "write_kstree_group example_env ''OAK'' [?o] \<lparr>out = [], warnings = []\<rparr>
      = (None, \<lparr>out = [], warnings = []\<rparr>)" by blast
  from h a b c show ?thesis by simp
qed








definition cube_scene :: blender_context where
  "cube_scene = example_context [example_object ''cube'' []]"


lemma cube_scene_facts:
  "set_order_ok (node_env cube_scene)"
  "example_object ''cube'' [] \<in> set (scene_objects cube_scene)"
  "is_regular (example_object ''cube'' [])"
  "obj_type (info (example_object ''cube'' [])) = ''MESH''"
  "unassigned_material (info (example_object ''cube'' []))"
  by (simp_all add: cube_scene_def example_context_def example_env_ok example_cube_regular
      example_no_materials) (simp add: example_object_def)








subsection \<open>The temporary file\<close>

text \<open>
  C4 (as amended). For every invocation of \<open>export_kn5\<close> in which opening the
  temporary file or the write raises, the status is \<open>error\<close> and every file but the
  temporary one is as before, so a file at the destination path is left unchanged:
  the bytes are written to \<open>filepath + ".tmp"\<close> only. The temporary file is unlinked;
  when the unlink succeeds it is gone, and when the unlink raises OSError the exception
  is passed over and the partly written temporary file stays.
\<close>

theorem failed_write_keeps_destination:
  assumes "open_raises os \<or> fst (KN5Exporter_write t ctx \<lparr>out = [], warnings = []\<rparr>) \<noteq> None"
  shows "fst (fst (export_kn5 os t filepath ctx copy_textures f)) = ''error''
     \<and> snd (export_kn5 os t filepath ctx copy_textures f) filepath = f filepath
     \<and> (\<forall>p. p \<noteq> filepath @ ''.tmp'' \<longrightarrow>
           snd (export_kn5 os t filepath ctx copy_textures f) p = f p)
     \<and> (\<not> unlink_raises os \<longrightarrow>
           snd (export_kn5 os t filepath ctx copy_textures f) (filepath @ ''.tmp'') = None)
     \<and> (unlink_raises os \<and> \<not> open_raises os \<longrightarrow>
           snd (export_kn5 os t filepath ctx copy_textures f) (filepath @ ''.tmp'')
             = Some (out (snd (KN5Exporter_write t ctx \<lparr>out = [], warnings = []\<rparr>))))"
proof -
  from export_kn5_write_fails [OF assms, of filepath copy_textures f]
  obtain err warns where
    st: "fst (export_kn5 os t filepath ctx copy_textures f)
          = (''error'', warns @ [''Export failed: '' @ str_error os err, format_exc os err])"
    and keep: "\<forall>p. p \<noteq> filepath @ ''.tmp'' \<longrightarrow>
           snd (export_kn5 os t filepath ctx copy_textures f) p = f p"
    and gone: "\<not> unlink_raises os \<longrightarrow>
           snd (export_kn5 os t filepath ctx copy_textures f) (filepath @ ''.tmp'') = None"
    and left: "unlink_raises os \<and> \<not> open_raises os \<longrightarrow>
           snd (export_kn5 os t filepath ctx copy_textures f) (filepath @ ''.tmp'')
             = Some (out (snd (KN5Exporter_write t ctx \<lparr>out = [], warnings = []\<rparr>)))"
    by blast
  from st have a: "fst (fst (export_kn5 os t filepath ctx copy_textures f)) = ''error''" by simp
  from keep have b: "snd (export_kn5 os t filepath ctx copy_textures f) filepath = f filepath"
    by simp
  from a b keep gone left show ?thesis by blast
qed

lemma cube_scene_raises:
  "fst (KN5Exporter_write example_tex_env cube_scene \<lparr>out = [], warnings = []\<rparr>) \<noteq> None"
proof -
  have "\<And>s. \<exists>err s'. NodeWriter_write (node_env cube_scene) (scene_objects cube_scene) s
      = (Some err, s')"
    by (rule NodeWriter_write_raises [OF cube_scene_facts])
  from KN5Exporter_write_raises [OF this, of example_tex_env "\<lparr>out = [], warnings = []\<rparr>"]
  show ?thesis by auto
qed

theorem failed_write_keeps_destination_witness:
  "fst (KN5Exporter_write example_tex_env cube_scene \<lparr>out = [], warnings = []\<rparr>) \<noteq> None
   \<and> fst (fst (export_kn5 (example_os False) example_tex_env ''track.kn5'' cube_scene True
                  [''track.kn5'' \<mapsto> [WRaw ''old'']])) = ''error''
   \<and> snd (export_kn5 (example_os False) example_tex_env ''track.kn5'' cube_scene True
             [''track.kn5'' \<mapsto> [WRaw ''old'']]) ''track.kn5'' = Some [WRaw ''old'']
   \<and> snd (export_kn5 (example_os False) example_tex_env ''track.kn5'' cube_scene True
             [''track.kn5'' \<mapsto> [WRaw ''old'']]) ''track.kn5.tmp'' = None"
proof -
  have h: "open_raises (example_os False)
      \<or> fst (KN5Exporter_write example_tex_env cube_scene \<lparr>out = [], warnings = []\<rparr>) \<noteq> None"
    using cube_scene_raises by simp
  have u: "\<not> unlink_raises (example_os False)" by (simp add: example_os_def)
  note t = failed_write_keeps_destination [OF h, of "''track.kn5''" True
      "[''track.kn5'' \<mapsto> [WRaw ''old'']]"]
  from t have a: "fst (fst (export_kn5 (example_os False) example_tex_env ''track.kn5'' cube_scene
      True [''track.kn5'' \<mapsto> [WRaw ''old'']])) = ''error''" by blast
  from t have "snd (export_kn5 (example_os False) example_tex_env ''track.kn5'' cube_scene True
             [''track.kn5'' \<mapsto> [WRaw ''old'']]) ''track.kn5''
      = [''track.kn5'' \<mapsto> [WRaw ''old'']] ''track.kn5''" by blast
  then have b: "snd (export_kn5 (example_os False) example_tex_env ''track.kn5'' cube_scene True
             [''track.kn5'' \<mapsto> [WRaw ''old'']]) ''track.kn5'' = Some [WRaw ''old'']" by simp
  from t u have "snd (export_kn5 (example_os False) example_tex_env ''track.kn5'' cube_scene True
             [''track.kn5'' \<mapsto> [WRaw ''old'']]) (''track.kn5'' @ ''.tmp'') = None" by blast
  then have c: "snd (export_kn5 (example_os False) example_tex_env ''track.kn5'' cube_scene True
             [''track.kn5'' \<mapsto> [WRaw ''old'']]) ''track.kn5.tmp'' = None" by simp
  from cube_scene_raises a b c show ?thesis by blast
qed

text \<open>
  C4 as stated fails where the unlink of the temporary file raises OSError: the write
  raises (the object has no material), the status is \<open>error\<close>, and the temporary
  file is still there afterwards.
\<close>

theorem temporary_file_left_behind:
  "fst (KN5Exporter_write example_tex_env cube_scene \<lparr>out = [], warnings = []\<rparr>) \<noteq> None
   \<and> fst (fst (export_kn5 (example_os True) example_tex_env ''track.kn5'' cube_scene True
                  Map.empty)) = ''error''
   \<and> snd (export_kn5 (example_os True) example_tex_env ''track.kn5'' cube_scene True
             Map.empty) ''track.kn5.tmp'' \<noteq> None"
proof -
  have h: "open_raises (example_os True)
      \<or> fst (KN5Exporter_write example_tex_env cube_scene \<lparr>out = [], warnings = []\<rparr>) \<noteq> None"
    using cube_scene_raises by simp
  have u: "unlink_raises (example_os True) \<and> \<not> open_raises (example_os True)"
    by (simp add: example_os_def)
  from export_kn5_write_fails [OF h, of "''track.kn5''" True Map.empty]
  obtain err warns where
    st: "fst (export_kn5 (example_os True) example_tex_env ''track.kn5'' cube_scene True Map.empty)
          = (''error'', warns @ [''Export failed: '' @ str_error (example_os True) err,
                                 format_exc (example_os True) err])"
    and left: "unlink_raises (example_os True) \<and> \<not> open_raises (example_os True) \<longrightarrow>
           snd (export_kn5 (example_os True) example_tex_env ''track.kn5'' cube_scene True
                  Map.empty) (''track.kn5'' @ ''.tmp'')
             = Some (out (snd (KN5Exporter_write example_tex_env cube_scene
                                 \<lparr>out = [], warnings = []\<rparr>)))"
    by blast
  from st have a: "fst (fst (export_kn5 (example_os True) example_tex_env ''track.kn5''
      cube_scene True Map.empty)) = ''error''" by simp
  from left u have "snd (export_kn5 (example_os True) example_tex_env ''track.kn5'' cube_scene
      True Map.empty) (''track.kn5'' @ ''.tmp'') \<noteq> None" by simp
  then have b: "snd (export_kn5 (example_os True) example_tex_env ''track.kn5'' cube_scene
      True Map.empty) ''track.kn5.tmp'' \<noteq> None" by simp
  from cube_scene_raises a b show ?thesis by blast
qed

subsection \<open>The writers only append to the output and to the warnings\<close>

definition grows :: "wstate \<Rightarrow> wstate \<Rightarrow> bool" where
  "grows s s' = ((\<exists>es. out s' = out s @ es) \<and> (\<exists>ws. warnings s' = warnings s @ ws))"

lemma grows_refl: "grows s s"
  by (simp add: grows_def)

lemma grows_trans: "grows s s1 \<Longrightarrow> grows s1 s2 \<Longrightarrow> grows s s2"
  by (auto simp: grows_def)

lemma grows_emit: "grows s (emit es s)"
  by (simp add: grows_def emit_def)

lemma grows_warn: "grows s (warn w s)"
  by (simp add: grows_def warn_def)

lemma grows_emit_after: "grows s s1 \<Longrightarrow> grows s (emit es s1)"
  by (rule grows_trans [OF _ grows_emit])

lemma grows_warn_after: "grows s s1 \<Longrightarrow> grows s (warn w s1)"
  by (rule grows_trans [OF _ grows_warn])

lemma grows_write_base_node_data: "grows s (write_base_node_data n c a m s)"
  by (simp add: write_base_node_data_def grows_emit)

lemma grows_write_bounding_sphere: "grows s (write_bounding_sphere vs s)"
  by (cases "bounding_sphere vs"; cases "fst (bounding_sphere vs)")
     (simp_all add: write_bounding_sphere_def grows_emit)

lemma grows_write_mesh: "grows s (snd (write_mesh n m np s))"
proof -
  have b: "\<And>s0. grows s s0 \<Longrightarrow> grows s (write_bounding_sphere (vertices m) s0)"
    by (rule grows_trans [OF _ grows_write_bounding_sphere])
  show ?thesis
    by (cases "material_id m")
       (simp_all add: write_mesh_def Let_def grows_emit grows_emit_after grows_warn_after b)
qed

lemma grows_write_meshes: "grows s (snd (write_meshes n ms np s))"
proof (induction ms arbitrary: s)
  case Nil
  show ?case by (simp add: grows_refl)
next
  case (Cons m ms)
  obtain r s1 where w: "write_mesh n m np s = (r, s1)" by (cases "write_mesh n m np s")
  from grows_write_mesh [of s n m np] w have g1: "grows s s1" by simp
  show ?case
  proof (cases r)
    case None
    from grows_trans [OF g1 Cons.IH [of s1]] w None show ?thesis by simp
  next
    case (Some err)
    with w g1 show ?thesis by simp
  qed
qed

lemma grows_write_mesh_node: "grows s (snd (write_mesh_node e hp ob s))"
proof (cases "split_object_by_materials e ob")
  case (Inl err)
  then show ?thesis by (simp add: write_mesh_node_def grows_refl)
next
  case (Inr divided)
  show ?thesis
  proof (cases "split_meshes_for_vertex_limit divided")
    case (Inl err)
    with Inr show ?thesis by (simp add: write_mesh_node_def grows_refl)
  next
    case (Inr dm)
    have "\<And>s1. grows s s1 \<Longrightarrow> grows s (snd (write_meshes (obj_name ob) dm (node_properties_of ob) s1))"
      by (rule grows_trans [OF _ grows_write_meshes])
    with \<open>split_object_by_materials e ob = Inr divided\<close> Inr show ?thesis
      by (simp add: write_mesh_node_def Let_def grows_refl grows_write_base_node_data)
  qed
qed

lemma grows_write_base_node: "grows s (write_base_node e ob s)"
  by (simp add: write_base_node_def Let_def grows_write_base_node_data
      grows_trans [OF grows_warn grows_write_base_node_data])

lemma grows_write_object_children:
  "grows s (snd (write_object e hp ob s))"
  "grows s (snd (write_children e obs s))"
proof (induction e hp ob s and e obs s rule: write_object_write_children.induct)
  case (1 e has_parent ob cs s)
  show ?case
  proof (cases "is_hidden_name (obj_name ob)")
    case True
    then show ?thesis by (simp add: grows_refl)
  next
    case False
    let ?first = "(if obj_type ob = ''MESH'' then
                 (if cs \<noteq> [] then
                    (Some (Exception (''A mesh cannot contain children ('' @ sq @ obj_name ob
                                      @ sq @ '')'')), s)
                  else write_mesh_node e has_parent ob s)
               else (None, write_base_node e (Obj ob cs) s))"
    obtain r s1 where f: "?first = (r, s1)" by (cases ?first)
    have g1: "grows s s1"
      using f grows_write_mesh_node [of s e has_parent ob] grows_write_base_node [of s e "Obj ob cs"]
      by (auto simp: grows_refl split: if_splits)
    show ?thesis
    proof (cases r)
      case (Some err)
      with False f g1 show ?thesis by simp
    next
      case None
      from "1.IH" [OF False f [symmetric] None] have "grows s1 (snd (write_children e cs s1))"
        by simp
      from grows_trans [OF g1 this] False f None show ?thesis by simp
    qed
  qed
next
  case (2 e s)
  show ?case by (simp add: grows_refl)
next
  case (3 e child cs s)
  show ?case
  proof (cases "is_object_excluded_by_collection (info child)")
    case True
    with "3.IH"(1) show ?thesis by simp
  next
    case False
    obtain r s1 where w: "write_object e True child s = (r, s1)"
      by (cases "write_object e True child s")
    from "3.IH"(2) [OF False] w have g1: "grows s s1" by simp
    show ?thesis
    proof (cases r)
      case (Some err)
      with False w g1 show ?thesis by simp
    next
      case None
      from "3.IH"(3) [OF False w [symmetric] None]
      have "grows s1 (snd (write_children e cs s1))" by simp
      from grows_trans [OF g1 this] False w None show ?thesis by simp
    qed
  qed
qed

lemma grows_write_merged_mesh: "grows s (write_merged_mesh n mid np vs inds s)"
proof -
  have b: "\<And>s0. grows s s0 \<Longrightarrow> grows s (write_bounding_sphere vs s0)"
    by (rule grows_trans [OF _ grows_write_bounding_sphere])
  show ?thesis
    by (cases mid; cases np)
       (simp_all add: write_merged_mesh_def Let_def grows_emit grows_warn grows_emit_after
          grows_warn_after b)
qed

lemma grows_write_kstree_group: "grows s (snd (write_kstree_group e n objects s))"
  by (auto simp: write_kstree_group_def Let_def grows_refl grows_write_merged_mesh
      split: sum.splits prod.splits)

lemma grows_write_groups: "grows s (snd (write_groups e groups keys s))"
proof (induction keys arbitrary: s)
  case Nil
  show ?case by (simp add: grows_refl)
next
  case (Cons k keys)
  show ?case
  proof (cases "map_of groups k")
    case None
    then show ?thesis by (simp add: grows_refl)
  next
    case (Some g)
    obtain n objects where g: "g = (n, objects)" by (cases g)
    obtain r s1 where w: "write_kstree_group e n objects s = (r, s1)"
      by (cases "write_kstree_group e n objects s")
    from grows_write_kstree_group [of s e n objects] w have g1: "grows s s1" by simp
    show ?thesis
    proof (cases r)
      case None
      from grows_trans [OF g1 Cons.IH [of s1]] Some g w None show ?thesis by simp
    next
      case (Some err)
      with \<open>map_of groups k = Some g\<close> g w g1 show ?thesis by simp
    qed
  qed
qed

lemma grows_write_objects: "grows s (snd (write_objects e obs s))"
proof (induction obs arbitrary: s)
  case Nil
  show ?case by (simp add: grows_refl)
next
  case (Cons ob obs)
  obtain r s1 where w: "write_object e False ob s = (r, s1)"
    by (cases "write_object e False ob s")
  from grows_write_object_children(1) [of s e False ob] w have g1: "grows s s1" by simp
  show ?case
  proof (cases r)
    case None
    from grows_trans [OF g1 Cons.IH [of s1]] w None show ?thesis by simp
  next
    case (Some err)
    with w g1 show ?thesis by simp
  qed
qed

text \<open>The root node comes first in what \<open>NodeWriter.write\<close> writes, whatever follows.\<close>

lemma NodeWriter_write_root:
  "\<exists>es ws.
     out (snd (NodeWriter_write e scene s))
       = out s @ [WUInt NODE_TYPE_Node, WString ''BlenderFile'',
                  WUInt (length (fst (collect_and_group_objects scene))
                         + length (snd (collect_and_group_objects scene))),
                  WBool True, WMatrix identity_matrix] @ es
     \<and> warnings (snd (NodeWriter_write e scene s)) = warnings s @ ws"
proof -
  obtain regular groups where cg: "collect_and_group_objects scene = (regular, groups)"
    by (cases "collect_and_group_objects scene")
  let ?s1 = "write_base_node_data ''BlenderFile'' (length regular + length groups) True
               identity_matrix s"
  have s1: "out ?s1 = out s @ [WUInt NODE_TYPE_Node, WString ''BlenderFile'',
                  WUInt (length regular + length groups), WBool True, WMatrix identity_matrix]"
    "warnings ?s1 = warnings s"
    by (simp_all add: write_base_node_data_def emit_def)
  obtain r2 s2 where wg: "write_groups e groups (sort (map fst groups)) ?s1 = (r2, s2)"
    by (cases "write_groups e groups (sort (map fst groups)) ?s1")
  from grows_write_groups [of ?s1 e groups "sort (map fst groups)"] wg have g2: "grows ?s1 s2"
    by simp
  have "grows ?s1 (snd (NodeWriter_write e scene s))"
  proof (cases r2)
    case (Some err)
    with cg wg g2 show ?thesis by (simp add: NodeWriter_write_def Let_def)
  next
    case None
    from grows_trans [OF g2 grows_write_objects [of s2 e regular]] cg wg None
    show ?thesis by (simp add: NodeWriter_write_def Let_def)
  qed
  then obtain es ws where "out (snd (NodeWriter_write e scene s)) = out ?s1 @ es"
    and "warnings (snd (NodeWriter_write e scene s)) = warnings ?s1 @ ws"
    by (auto simp: grows_def)
  with s1 cg show ?thesis by simp
qed

lemma grows_NodeWriter_write: "grows s (snd (NodeWriter_write e scene s))"
  using NodeWriter_write_root [of e scene s] by (auto simp: grows_def)

subsection \<open>Textures without the conversion tool\<close>

lemma png_not_dds: "is_png_data d \<Longrightarrow> \<not> is_dds_data d"
proof
  assume p: "is_png_data d" and q: "is_dds_data d"
  have "take 3 d = take 3 (take 4 d)" by simp
  also from p have "\<dots> = take 3 PNG_HEADER_BYTES" by (simp only: is_png_data_def)
  finally show False using q
    by (simp add: is_dds_data_def PNG_HEADER_BYTES_def DDS_HEADER_BYTES_def)
qed

definition raw_bytes :: "image \<Rightarrow> string" where
  "raw_bytes img = (case get_raw_image_data img of Inr d \<Rightarrow> d | Inl err \<Rightarrow> [])"

definition fallback_warnings :: "tex_env \<Rightarrow> image \<Rightarrow> string list" where
  "fallback_warnings t img =
     (if is_png_data (raw_bytes img) then
        [''texconv.exe not found at '' @ texconv_path t @ '' - PNG will not be converted'',
         ''Using original PNG for '' @ sq @ get_real_texture_name img @ sq
           @ '' (conversion failed)'']
      else [])"

definition texture_record :: "image \<Rightarrow> event list" where
  "texture_record img = [WInt 1, WString (get_real_texture_name img), WBlob (raw_bytes img)]"

lemma has_pixels_raw_data: "has_pixels img \<Longrightarrow> get_raw_image_data img = Inr (raw_bytes img)"
  by (simp add: raw_bytes_def get_raw_image_data_def split: option.splits)

lemma process_texture_passes:
  assumes "get_raw_image_data img = Inr d" and "\<not> is_png_data d"
  shows "process_texture t img s = (Inr (get_real_texture_name img, d), s)"
  using assms by (simp add: process_texture_def Let_def)

lemma process_texture_absent:
  assumes "\<not> texconv_exists t" and "get_raw_image_data img = Inr d" and "is_png_data d"
  shows "process_texture t img s
         = (Inr (get_real_texture_name img, d),
            warn (''Using original PNG for '' @ sq @ get_real_texture_name img @ sq
                  @ '' (conversion failed)'')
              (warn (''texconv.exe not found at '' @ texconv_path t
                     @ '' - PNG will not be converted'') s))"
  using assms png_not_dds [OF assms(3)]
  by (simp add: process_texture_def Let_def convert_png_to_dds_def)

lemma process_texture_fallback:
  assumes "\<not> texconv_exists t" and "has_pixels img"
  shows "process_texture t img s
         = (Inr (get_real_texture_name img, raw_bytes img),
            s\<lparr>warnings := warnings s @ fallback_warnings t img\<rparr>)"
proof (cases "is_png_data (raw_bytes img)")
  case True
  from process_texture_absent [OF assms(1) has_pixels_raw_data [OF assms(2)] True, of s] True
  show ?thesis by (simp add: fallback_warnings_def warn_def)
next
  case False
  from process_texture_passes [OF has_pixels_raw_data [OF assms(2)] False, of t s] False
  show ?thesis by (simp add: fallback_warnings_def)
qed

lemma process_all_textures_fallback:
  assumes "\<not> texconv_exists t" and "\<forall>(n, img) \<in> set av. has_pixels img"
  shows "process_all_textures t av processed s
         = (Inr (foldl (\<lambda>p (n, img). dict_set p n (get_real_texture_name img, raw_bytes img))
                   processed av),
            s\<lparr>warnings := warnings s @ concat (map (\<lambda>(n, img). fallback_warnings t img) av)\<rparr>)"
  using assms(2)
proof (induction av arbitrary: processed s)
  case Nil
  show ?case by simp
next
  case (Cons a av)
  obtain n img where a: "a = (n, img)" by (cases a)
  from Cons.prems a have hp: "has_pixels img" and rest: "\<forall>(n, img) \<in> set av. has_pixels img"
    by auto
  show ?case
    by (simp add: a process_texture_fallback [OF assms(1) hp] Cons.IH [OF rest])
qed


lemma dict_set_keys:
  "map fst (dict_set d k v) = (if k \<in> set (map fst d) then map fst d else map fst d @ [k])"
proof (cases "map_of d k")
  case None
  then have "k \<notin> set (map fst d)" by (simp add: map_of_eq_None_iff)
  with None show ?thesis by (simp add: dict_set_def)
next
  case (Some v')
  then have k: "k \<in> set (map fst d)" by (metis map_of_eq_None_iff option.distinct(1) set_map)
  have "map fst (map (\<lambda>(k', v'). if k' = k then (k', v) else (k', v')) d) = map fst d"
    by (induction d) auto
  with Some k show ?thesis by (simp add: dict_set_def)
qed

lemma dict_set_new: "k \<notin> fst ` set d \<Longrightarrow> dict_set d k v = d @ [(k, v)]"
  by (simp add: dict_set_def map_of_eq_None_iff)

lemma dict_set_values: "set (dict_set d k v) \<subseteq> insert (k, v) (set d)"
  by (auto simp: dict_set_def split: if_splits)

lemma dict_set_distinct: "distinct (map fst d) \<Longrightarrow> distinct (map fst (dict_set d k v))"
  by (simp add: dict_set_keys)

lemma foldl_dict_set_distinct:
  "distinct (map fst av) \<Longrightarrow> fst ` set p \<inter> fst ` set av = {} \<Longrightarrow>
   foldl (\<lambda>p (n, img). dict_set p n (g img)) p av = p @ map (\<lambda>(n, img). (n, g img)) av"
proof (induction av arbitrary: p)
  case Nil
  show ?case by simp
next
  case (Cons a av)
  obtain n img where a: "a = (n, img)" by (cases a)
  from Cons.prems a have new: "n \<notin> fst ` set p" by auto
  from Cons.prems a have d: "distinct (map fst av)" by simp
  from Cons.prems a have "fst ` set (p @ [(n, g img)]) \<inter> fst ` set av = {}" by auto
  from Cons.IH [OF d this] show ?case by (simp add: a dict_set_new [OF new])
qed

definition tables_ok :: "texture_tables \<Rightarrow> bool" where
  "tables_ok tb =
     (map fst (available_textures tb) = map fst (texture_positions tb)
      \<and> distinct (map fst (available_textures tb))
      \<and> (\<forall>(n, img) \<in> set (available_textures tb). has_pixels img \<and> img_name img = n))"

lemma fill_step_ok:
  assumes "tables_ok tb"
  shows "tables_ok (fst (fill_step (tb, s) node))"
    and "out (snd (fill_step (tb, s) node)) = out s"
    and "\<exists>ws. warnings (snd (fill_step (tb, s) node)) = warnings s @ ws"
proof -
  show "out (snd (fill_step (tb, s) node)) = out s"
    by (simp add: fill_step_def warn_def split: option.splits)
  show "\<exists>ws. warnings (snd (fill_step (tb, s) node)) = warnings s @ ws"
    by (simp add: fill_step_def warn_def split: option.splits)
  show "tables_ok (fst (fill_step (tb, s) node))"
  proof (cases "\<not> is_hidden_name (node_name node) \<and> (\<exists>img. node_image node = Some img \<and> has_pixels img)")
    case False
    then have "fst (fill_step (tb, s) node) = tb"
      by (auto simp: fill_step_def split: option.splits)
    with assms show ?thesis by simp
  next
    case True
    then obtain img where img: "node_image node = Some img" "has_pixels img"
      and nh: "\<not> is_hidden_name (node_name node)" by blast
    let ?tb = "\<lparr>available_textures = dict_set (available_textures tb) (img_name img) img,
                texture_positions = dict_set (texture_positions tb) (img_name img) (position tb),
                position = position tb + 1\<rparr>"
    from img nh have f: "fst (fill_step (tb, s) node) = ?tb" by (simp add: fill_step_def)
    from assms have k: "map fst (available_textures tb) = map fst (texture_positions tb)"
      and d: "distinct (map fst (available_textures tb))"
      and h: "\<forall>(n, i) \<in> set (available_textures tb). has_pixels i \<and> img_name i = n"
      unfolding tables_ok_def by blast+
    have k': "map fst (available_textures ?tb) = map fst (texture_positions ?tb)"
      using k by (simp add: dict_set_keys)
    have d': "distinct (map fst (available_textures ?tb))"
      using d by (simp add: dict_set_distinct)
    have h': "\<forall>(n, i) \<in> set (available_textures ?tb). has_pixels i \<and> img_name i = n"
      using h img(2) dict_set_values [of "available_textures tb" "img_name img" img] by auto
    from k' d' h' show ?thesis unfolding f tables_ok_def by blast
  qed
qed

lemma foldl_fill_step_ok:
  "tables_ok tb \<Longrightarrow>
   tables_ok (fst (foldl fill_step (tb, s) nodes))
   \<and> out (snd (foldl fill_step (tb, s) nodes)) = out s
   \<and> (\<exists>ws. warnings (snd (foldl fill_step (tb, s) nodes)) = warnings s @ ws)"
proof (induction nodes arbitrary: tb s)
  case Nil
  then show ?case by simp
next
  case (Cons node nodes)
  obtain tb1 s1 where st: "fill_step (tb, s) node = (tb1, s1)" by (cases "fill_step (tb, s) node")
  from fill_step_ok [OF Cons.prems, of s node] st
  have ok1: "tables_ok tb1" and o1: "out s1 = out s" and w1: "\<exists>ws. warnings s1 = warnings s @ ws"
    by simp_all
  from Cons.IH [OF ok1, of s1] o1 w1 show ?case by (auto simp: st)
qed

lemma fill_available_image_textures_ok:
  "tables_ok (fst (fill_available_image_textures nodes s))"
  "out (snd (fill_available_image_textures nodes s)) = out s"
  "\<exists>ws. warnings (snd (fill_available_image_textures nodes s)) = warnings s @ ws"
proof -
  have "tables_ok \<lparr>available_textures = [], texture_positions = [], position = 0\<rparr>"
    by (simp add: tables_ok_def)
  from foldl_fill_step_ok [OF this, of s nodes]
  show "tables_ok (fst (fill_available_image_textures nodes s))"
    "out (snd (fill_available_image_textures nodes s)) = out s"
    "\<exists>ws. warnings (snd (fill_available_image_textures nodes s)) = warnings s @ ws"
    by (simp_all add: fill_available_image_textures_def)
qed

lemma write_textures_total:
  "\<forall>(n, p) \<in> set ps. \<exists>img. map_of processed n = Some (get_real_texture_name img, raw_bytes img)
                               \<and> map_of av n = Some img \<Longrightarrow>
   write_textures processed ps s
   = (None, emit (concat (map (\<lambda>(n, p). texture_record (the (map_of av n))) ps)) s)"
proof (induction ps arbitrary: s)
  case Nil
  show ?case by (simp add: emit_def)
next
  case (Cons a ps)
  obtain n p where a: "a = (n, p)" by (cases a)
  from Cons.prems a obtain img where
    img: "map_of processed n = Some (get_real_texture_name img, raw_bytes img)" "map_of av n = Some img"
    by auto
  from Cons.prems have rest: "\<forall>(n, p) \<in> set ps. \<exists>img.
      map_of processed n = Some (get_real_texture_name img, raw_bytes img) \<and> map_of av n = Some img"
    by simp
  show ?case
    by (simp add: a img Cons.IH [OF rest] write_texture_data_def emit_def texture_record_def)
qed


lemma fill_step_tables: "fst (fill_step (tb, s) node) = fst (fill_step (tb, s') node)"
  by (simp add: fill_step_def split: option.splits)

lemma foldl_fill_step_tables:
  "fst (foldl fill_step (tb, s) nodes) = fst (foldl fill_step (tb, s') nodes)"
proof (induction nodes arbitrary: tb s s')
  case Nil
  show ?case by simp
next
  case (Cons node nodes)
  obtain tb1 s1 where a: "fill_step (tb, s) node = (tb1, s1)" by (cases "fill_step (tb, s) node")
  obtain tb2 s2 where b: "fill_step (tb, s') node = (tb2, s2)" by (cases "fill_step (tb, s') node")
  from fill_step_tables [of tb s node s'] a b have "tb1 = tb2" by simp
  with Cons.IH [of tb1 s1 s2] a b show ?case by simp
qed

lemma fill_available_image_textures_tables:
  "fst (fill_available_image_textures nodes s) = fst (fill_available_image_textures nodes s')"
  by (simp add: fill_available_image_textures_def foldl_fill_step_tables [of _ s nodes s'])

lemma TextureWriter_write_fallback:
  assumes "\<not> texconv_exists t"
  shows "\<exists>s' ws. TextureWriter_write t nodes s = (None, s')
     \<and> out s' = out s
          @ WInt (int (length (available_textures (fst (fill_available_image_textures nodes s)))))
          # concat (map (\<lambda>(n, p). texture_record
                 (the (map_of (available_textures (fst (fill_available_image_textures nodes s))) n)))
               (sort_key snd (texture_positions (fst (fill_available_image_textures nodes s)))))
     \<and> warnings s' = warnings s @ ws
          @ concat (map (\<lambda>(n, img). fallback_warnings t img)
                      (available_textures (fst (fill_available_image_textures nodes s))))"
proof -
  obtain tb s1 where f: "fill_available_image_textures nodes s = (tb, s1)"
    by (cases "fill_available_image_textures nodes s")
  from fill_available_image_textures_ok [of nodes s] f
  have ok: "tables_ok tb" and o1: "out s1 = out s"
    and "\<exists>ws. warnings s1 = warnings s @ ws" by simp_all
  then obtain ws where w1: "warnings s1 = warnings s @ ws" by blast
  let ?av = "available_textures tb"
  let ?g = "\<lambda>img. (get_real_texture_name img, raw_bytes img)"
  let ?processed = "map (\<lambda>(n, img). (n, ?g img)) ?av"
  let ?s2 = "s1\<lparr>warnings := warnings s1 @ concat (map (\<lambda>(n, img). fallback_warnings t img) ?av)\<rparr>"
  from ok have keys: "map fst ?av = map fst (texture_positions tb)"
    and d: "distinct (map fst ?av)"
    and h: "\<forall>(n, img) \<in> set ?av. has_pixels img \<and> img_name img = n"
    unfolding tables_ok_def by blast+
  from h have hp: "\<forall>(n, img) \<in> set ?av. has_pixels img" by auto
  have fo: "foldl (\<lambda>p (n, img). dict_set p n (?g img)) [] ?av = ?processed"
    using foldl_dict_set_distinct [OF d, of "[]" ?g] by simp
  have pr: "process_all_textures t ?av [] s1 = (Inr ?processed, ?s2)"
    using process_all_textures_fallback [OF assms hp, of "[]" s1] fo by simp
  have mp: "map_of ?processed = map_option ?g \<circ> map_of ?av"
    by (rule map_of_map)
  have look: "\<forall>(n, p) \<in> set (sort_key snd (texture_positions tb)). \<exists>img.
      map_of ?processed n = Some (get_real_texture_name img, raw_bytes img) \<and> map_of ?av n = Some img"
  proof -
    have "\<exists>img. map_of ?processed n = Some (get_real_texture_name img, raw_bytes img)
                \<and> map_of ?av n = Some img"
      if "(n, p) \<in> set (texture_positions tb)" for n p
    proof -
      from that have "n \<in> set (map fst (texture_positions tb))" by force
      with keys have "n \<in> set (map fst ?av)" by simp
      then obtain img where "(n, img) \<in> set ?av" by auto
      with d have "map_of ?av n = Some img" by simp
      with mp show ?thesis by simp
    qed
    then show ?thesis by auto
  qed
  let ?s3 = "emit [WInt (int (length ?av))] ?s2"
  let ?es = "concat (map (\<lambda>(n, p). texture_record (the (map_of ?av n)))
                      (sort_key snd (texture_positions tb)))"
  have wr: "write_textures ?processed (sort_key snd (texture_positions tb)) ?s3 = (None, emit ?es ?s3)"
    by (rule write_textures_total [OF look])
  have tw: "TextureWriter_write t nodes s = (None, emit ?es ?s3)"
    by (simp add: TextureWriter_write_def f pr wr del: process_all_textures.simps)
  have "out (emit ?es ?s3) = out s @ WInt (int (length ?av)) # ?es"
    by (simp add: emit_def o1)
  moreover have "warnings (emit ?es ?s3)
      = warnings s @ ws @ concat (map (\<lambda>(n, img). fallback_warnings t img) ?av)"
    by (simp add: emit_def w1)
  ultimately show ?thesis using tw f by auto
qed

lemma concat_map_member:
  "x \<in> set xs \<Longrightarrow> \<exists>pre post. concat (map f xs) = pre @ f x @ post"
proof -
  assume "x \<in> set xs"
  then obtain ys zs where "xs = ys @ x # zs" by (auto dest: split_list)
  then have "concat (map f xs) = concat (map f ys) @ f x @ concat (map f zs)" by simp
  then show ?thesis by blast
qed

lemma TextureWriter_write_member:
  assumes "\<not> texconv_exists t"
    and "(name, img) \<in> set (available_textures (fst (fill_available_image_textures nodes s)))"
  shows "\<exists>s' d pre post. TextureWriter_write t nodes s = (None, s')
     \<and> get_raw_image_data img = Inr d
     \<and> out s' = out s @ pre @ [WInt 1, WString (get_real_texture_name img), WBlob d] @ post
     \<and> (is_png_data d \<longrightarrow>
          ''Using original PNG for '' @ sq @ get_real_texture_name img @ sq
            @ '' (conversion failed)'' \<in> set (warnings s'))"
proof -
  let ?tb = "fst (fill_available_image_textures nodes s)"
  from TextureWriter_write_fallback [OF assms(1), of nodes s] obtain s' ws where
    tw: "TextureWriter_write t nodes s = (None, s')"
    and o: "out s' = out s @ WInt (int (length (available_textures ?tb)))
          # concat (map (\<lambda>(n, p). texture_record (the (map_of (available_textures ?tb) n)))
               (sort_key snd (texture_positions ?tb)))"
    and w: "warnings s' = warnings s @ ws
          @ concat (map (\<lambda>(n, img). fallback_warnings t img) (available_textures ?tb))"
    by blast
  from fill_available_image_textures_ok(1) [of nodes s]
  have keys: "map fst (available_textures ?tb) = map fst (texture_positions ?tb)"
    and d: "distinct (map fst (available_textures ?tb))"
    and h: "\<forall>(n, img) \<in> set (available_textures ?tb). has_pixels img \<and> img_name img = n"
    unfolding tables_ok_def by blast+
  from h assms(2) have hp: "has_pixels img" by auto
  from d assms(2) have m: "map_of (available_textures ?tb) name = Some img" by simp
  from assms(2) have "name \<in> set (map fst (available_textures ?tb))" by force
  with keys have "name \<in> set (map fst (texture_positions ?tb))" by simp
  then obtain p where "(name, p) \<in> set (sort_key snd (texture_positions ?tb))" by auto
  from concat_map_member [OF this,
      of "\<lambda>(n, p). texture_record (the (map_of (available_textures ?tb) n))"] m
  obtain pre post where
    "concat (map (\<lambda>(n, p). texture_record (the (map_of (available_textures ?tb) n)))
               (sort_key snd (texture_positions ?tb))) = pre @ texture_record img @ post"
    by auto
  with o have o': "out s' = out s @ (WInt (int (length (available_textures ?tb))) # pre)
       @ [WInt 1, WString (get_real_texture_name img), WBlob (raw_bytes img)] @ post"
    by (simp add: texture_record_def)
  have w': "is_png_data (raw_bytes img) \<longrightarrow>
          ''Using original PNG for '' @ sq @ get_real_texture_name img @ sq
            @ '' (conversion failed)'' \<in> set (warnings s')"
  proof
    assume png: "is_png_data (raw_bytes img)"
    from concat_map_member [OF assms(2), of "\<lambda>(n, img). fallback_warnings t img"]
    obtain pre post where "concat (map (\<lambda>(n, img). fallback_warnings t img) (available_textures ?tb))
        = pre @ fallback_warnings t img @ post" by auto
    with w png show "''Using original PNG for '' @ sq @ get_real_texture_name img @ sq
            @ '' (conversion failed)'' \<in> set (warnings s')"
      by (simp add: fallback_warnings_def)
  qed
  from tw has_pixels_raw_data [OF hp] o' w' show ?thesis by blast
qed

lemma write_files_keeps: "g p \<noteq> None \<Longrightarrow> write_files files g p \<noteq> None"
proof -
  have "\<And>g :: fs. g p \<noteq> None \<Longrightarrow>
      foldl (\<lambda>g (path, content). g(path \<mapsto> content)) g files p \<noteq> None"
    by (induction files) (auto split: prod.splits)
  then show "g p \<noteq> None \<Longrightarrow> write_files files g p \<noteq> None"
    by (simp add: write_files_def)
qed

lemma write_files_other: "p \<notin> fst ` set files \<Longrightarrow> write_files files g p = g p"
proof -
  have "\<And>g :: fs. p \<notin> fst ` set files \<Longrightarrow>
      foldl (\<lambda>g (path, content). g(path \<mapsto> content)) g files p = g p"
    by (induction files) (auto split: prod.splits)
  then show "p \<notin> fst ` set files \<Longrightarrow> write_files files g p = g p"
    by (simp add: write_files_def)
qed

lemma export_kn5_success_result:
  assumes "\<not> open_raises os" and "KN5Exporter_write t ctx \<lparr>out = [], warnings = []\<rparr> = (None, s)"
    and "\<not> replace_raises os" and "copy_textures \<longrightarrow> copy_raises os = None"
  shows "fst (export_kn5 os t filepath ctx copy_textures f)
         = (''success'', if copy_textures then warnings s @ copy_warnings os else warnings s)"
    and "(copy_textures \<longrightarrow> filepath @ ''.tmp'' \<notin> fst ` set (copy_files os)) \<Longrightarrow>
         snd (export_kn5 os t filepath ctx copy_textures f) filepath = Some (out s)"
proof -
  let ?f1 = "f(filepath @ ''.tmp'' \<mapsto> out s)"
  let ?f2 = "if copy_textures then write_files (copy_files os) ?f1 else ?f1"
  have "?f2 (filepath @ ''.tmp'') \<noteq> None"
    using write_files_keeps [of ?f1 "filepath @ ''.tmp''" "copy_files os"] by simp
  then obtain c where c: "?f2 (filepath @ ''.tmp'') = Some c" by blast
  have e: "export_kn5 os t filepath ctx copy_textures f
      = ((''success'', if copy_textures then warnings s @ copy_warnings os else warnings s),
         ?f2(filepath \<mapsto> c, filepath @ ''.tmp'' := None))"
  proof (cases copy_textures)
    case True
    with assms c show ?thesis by (simp add: export_kn5_def Let_def)
  next
    case False
    with assms c show ?thesis by (simp add: export_kn5_def Let_def)
  qed
  from e show "fst (export_kn5 os t filepath ctx copy_textures f)
         = (''success'', if copy_textures then warnings s @ copy_warnings os else warnings s)"
    by simp
  show "snd (export_kn5 os t filepath ctx copy_textures f) filepath = Some (out s)"
    if "copy_textures \<longrightarrow> filepath @ ''.tmp'' \<notin> fst ` set (copy_files os)"
  proof -
    from that have "?f2 (filepath @ ''.tmp'') = Some (out s)"
      using write_files_other [of "filepath @ ''.tmp''" "copy_files os" ?f1] by auto
    with c have "c = out s" by simp
    with e show ?thesis by simp
  qed
qed

lemma KN5Exporter_write_fallback:
  assumes "\<not> texconv_exists t" and "mw_raises (materials_written ctx) = None"
    and "\<forall>s3. fst (NodeWriter_write (node_env ctx) (scene_objects ctx) s3) = None"
    and "(name, img) \<in> set (available_textures (fst (fill_available_image_textures (texture_nodes ctx) s0)))"
  shows "\<exists>s d pre post. KN5Exporter_write t ctx s0 = (None, s)
     \<and> get_raw_image_data img = Inr d
     \<and> out s = out s0 @ pre @ [WInt 1, WString (get_real_texture_name img), WBlob d] @ post
     \<and> (is_png_data d \<longrightarrow>
          ''Using original PNG for '' @ sq @ get_real_texture_name img @ sq
            @ '' (conversion failed)'' \<in> set (warnings s))"
proof -
  let ?s1 = "emit [WRaw KN5_HEADER, WUInt KN5_VERSION] s0"
  let ?msg = "''Using original PNG for '' @ sq @ get_real_texture_name img @ sq
            @ '' (conversion failed)''"
  from assms(4) fill_available_image_textures_tables [of "texture_nodes ctx" s0 ?s1]
  have "(name, img) \<in> set (available_textures (fst (fill_available_image_textures (texture_nodes ctx) ?s1)))"
    by simp
  from TextureWriter_write_member [OF assms(1) this] obtain s2 d pre post where
    tw: "TextureWriter_write t (texture_nodes ctx) ?s1 = (None, s2)"
    and raw: "get_raw_image_data img = Inr d"
    and o2: "out s2 = out ?s1 @ pre @ [WInt 1, WString (get_real_texture_name img), WBlob d] @ post"
    and w2: "is_png_data d \<longrightarrow> ?msg \<in> set (warnings s2)"
    by blast
  let ?s3 = "s2\<lparr>out := out s2 @ mw_out (materials_written ctx),
                 warnings := warnings s2 @ mw_warnings (materials_written ctx)\<rparr>"
  have mw: "MaterialWriter_write (materials_written ctx) s2 = (None, ?s3)"
    using assms(2) by (simp add: MaterialWriter_write_def)
  obtain s4 where nw: "NodeWriter_write (node_env ctx) (scene_objects ctx) ?s3 = (None, s4)"
    using assms(3) by (metis prod.collapse)
  from grows_NodeWriter_write [of ?s3 "node_env ctx" "scene_objects ctx"] nw
  obtain es ws where o4: "out s4 = out ?s3 @ es" and w4: "warnings s4 = warnings ?s3 @ ws"
    by (auto simp: grows_def)
  have e: "KN5Exporter_write t ctx s0 = (None, s4)"
    by (simp add: KN5Exporter_write_def Let_def tw mw nw)
  have o: "out s4 = out s0 @ ([WRaw KN5_HEADER, WUInt KN5_VERSION] @ pre)
       @ [WInt 1, WString (get_real_texture_name img), WBlob d]
       @ (post @ mw_out (materials_written ctx) @ es)"
    using o4 o2 by (simp add: emit_def)
  have w: "is_png_data d \<longrightarrow> ?msg \<in> set (warnings s4)"
    using w2 w4 by simp
  from e raw o w show ?thesis by blast
qed

definition png_bytes :: string where
  "png_bytes = PNG_HEADER_BYTES @ ''pixels''"

definition png_image :: image where
  "png_image = \<lparr>img_name = ''grass.png'', img_filepath = ''//grass.png'',
                 real_filename = ''grass.png'', has_pixels = True,
                 file_data = Some png_bytes, packed_data = None, saved_png = []\<rparr>"

definition png_scene :: blender_context where
  "png_scene = (example_context [])
                 \<lparr>texture_nodes := [\<lparr>node_name = ''Image Texture'', node_image = Some png_image\<rparr>]\<rparr>"

lemma NodeWriter_write_empty_scene: "fst (NodeWriter_write e [] s) = None"
  by (simp add: NodeWriter_write_def collect_and_group_objects_def Let_def)

lemma png_scene_textures:
  "available_textures (fst (fill_available_image_textures (texture_nodes png_scene) s))
   = [(''grass.png'', png_image)]"
  by (simp add: png_scene_def example_context_def fill_available_image_textures_def
      fill_step_def is_hidden_name_def png_image_def dict_set_def)

lemma png_image_data:
  "get_raw_image_data png_image = Inr png_bytes" "is_png_data png_bytes"
  "get_real_texture_name png_image = ''grass.png''"
  by (simp_all add: get_raw_image_data_def png_image_def png_bytes_def is_png_data_def
      PNG_HEADER_BYTES_def get_real_texture_name_def)

lemma map_of_dict_set: "map_of (dict_set d k v) = (map_of d)(k \<mapsto> v)"
proof (cases "map_of d k")
  case None
  then show ?thesis by (auto simp: dict_set_def fun_eq_iff map_add_def split: option.splits)
next
  case (Some v')
  have "map_of (map (\<lambda>(k', v'). if k' = k then (k', v) else (k', v')) d) x
      = (if x = k \<and> map_of d k \<noteq> None then Some v else map_of d x)" for x
    by (induction d) auto
  with Some show ?thesis by (auto simp: dict_set_def fun_eq_iff)
qed

lemma fill_step_available:
  "available_textures (fst (fill_step (tb, s) node))
   = (case node_image node of
        Some img \<Rightarrow>
          if \<not> is_hidden_name (node_name node) \<and> has_pixels img
          then dict_set (available_textures tb) (img_name img) img
          else available_textures tb
      | None \<Rightarrow> available_textures tb)"
  by (simp add: fill_step_def split: option.splits)

lemma foldl_fill_step_member:
  assumes "\<forall>node' \<in> set nodes. \<forall>img'. node_image node' = Some img'
             \<and> img_name img' = img_name img \<longrightarrow> img' = img"
    and "map_of (available_textures tb) (img_name img) = Some img
         \<or> (\<exists>node \<in> set nodes. \<not> is_hidden_name (node_name node)
               \<and> node_image node = Some img \<and> has_pixels img)"
  shows "map_of (available_textures (fst (foldl fill_step (tb, s) nodes))) (img_name img)
         = Some img"
  using assms
proof (induction nodes arbitrary: tb s)
  case Nil
  then show ?case by simp
next
  case (Cons n ns)
  obtain tb1 s1 where st: "fill_step (tb, s) n = (tb1, s1)" by (cases "fill_step (tb, s) n")
  from fill_step_available [of tb s n] st
  have av: "available_textures tb1
   = (case node_image n of
        Some i \<Rightarrow>
          if \<not> is_hidden_name (node_name n) \<and> has_pixels i
          then dict_set (available_textures tb) (img_name i) i
          else available_textures tb
      | None \<Rightarrow> available_textures tb)" by simp
  from Cons.prems(1) have u: "\<forall>node' \<in> set ns. \<forall>img'. node_image node' = Some img'
             \<and> img_name img' = img_name img \<longrightarrow> img' = img"
    and un: "\<forall>img'. node_image n = Some img' \<and> img_name img' = img_name img \<longrightarrow> img' = img"
    by simp_all
  have "map_of (available_textures tb1) (img_name img) = Some img
         \<or> (\<exists>node \<in> set ns. \<not> is_hidden_name (node_name node)
               \<and> node_image node = Some img \<and> has_pixels img)"
  proof (cases "\<exists>i. node_image n = Some i \<and> \<not> is_hidden_name (node_name n) \<and> has_pixels i")
    case True
    then obtain i where i: "node_image n = Some i" "\<not> is_hidden_name (node_name n)" "has_pixels i"
      by blast
    with av have av1: "available_textures tb1 = dict_set (available_textures tb) (img_name i) i"
      by simp
    show ?thesis
    proof (cases "img_name i = img_name img")
      case True
      with un i(1) have "i = img" by simp
      with av1 show ?thesis by (simp add: map_of_dict_set)
    next
      case False
      with av1 have same: "map_of (available_textures tb1) (img_name img)
          = map_of (available_textures tb) (img_name img)"
        by (simp add: map_of_dict_set)
      from False i(1) have "node_image n \<noteq> Some img" by auto
      with Cons.prems(2) same show ?thesis by auto
    qed
  next
    case False
    with av have same: "available_textures tb1 = available_textures tb"
      by (auto split: option.splits)
    from False have "\<not> (\<not> is_hidden_name (node_name n) \<and> node_image n = Some img \<and> has_pixels img)"
      by blast
    with Cons.prems(2) same show ?thesis by auto
  qed
  from Cons.IH [OF u this, of s1] st show ?case by simp
qed

lemma fill_available_image_textures_member:
  assumes "node \<in> set nodes" and "\<not> is_hidden_name (node_name node)"
    and "node_image node = Some img" and "has_pixels img"
    and "\<forall>node' \<in> set nodes. \<forall>img'. node_image node' = Some img'
           \<and> img_name img' = img_name img \<longrightarrow> img' = img"
  shows "(img_name img, img) \<in> set (available_textures (fst (fill_available_image_textures nodes s)))"
proof -
  from assms(1-4) have "\<exists>node \<in> set nodes. \<not> is_hidden_name (node_name node)
               \<and> node_image node = Some img \<and> has_pixels img" by blast
  then have "map_of (available_textures (fst (fill_available_image_textures nodes s)))
      (img_name img) = Some img"
    unfolding fill_available_image_textures_def
    by (intro foldl_fill_step_member [OF assms(5)]) simp
  then show ?thesis by (rule map_of_SomeD)
qed

text \<open>
  C9. With texconv.exe absent, every texture that the texture writer includes is
  written with its real name and the bytes read for it, unchanged; the texture writer
  does not raise; for a texture whose bytes are PNG the warning
  \<open>Using original PNG for '<name>' (conversion failed)\<close> is in the warning list. The
  textures included are the entries of \<open>available_textures\<close>; the image of every
  texture node that is not hidden by name and has pixel data is among them under its
  name, images being identified by their names. When the material writer and the node
  writer do not raise and opening, copying and replacing succeed, \<open>export_kn5\<close>
  returns the status \<open>success\<close>, that warning is in the returned list and the texture
  record is in the file at the destination path. Whether texconv.exe is there or not,
  bytes that are DDS, or not PNG, are returned by \<open>_process_texture\<close> unchanged and
  without a warning; bytes that are DDS are never PNG.
\<close>

theorem texture_fallback:
  assumes "\<not> texconv_exists t"
  shows "fst (TextureWriter_write t nodes s) = None
   \<and> (\<forall>node \<in> set nodes. \<forall>img.
        \<not> is_hidden_name (node_name node) \<and> node_image node = Some img \<and> has_pixels img
        \<and> (\<forall>node' \<in> set nodes. \<forall>img'. node_image node' = Some img'
               \<and> img_name img' = img_name img \<longrightarrow> img' = img) \<longrightarrow>
        (img_name img, img)
          \<in> set (available_textures (fst (fill_available_image_textures nodes s))))
   \<and> (\<forall>(name, img) \<in> set (available_textures (fst (fill_available_image_textures nodes s))).
        \<exists>d pre post. get_raw_image_data img = Inr d
          \<and> out (snd (TextureWriter_write t nodes s))
              = out s @ pre @ [WInt 1, WString (get_real_texture_name img), WBlob d] @ post
          \<and> (is_png_data d \<longrightarrow>
               ''Using original PNG for '' @ sq @ get_real_texture_name img @ sq
                 @ '' (conversion failed)'' \<in> set (warnings (snd (TextureWriter_write t nodes s)))))
   \<and> (mw_raises (materials_written ctx) = None
        \<and> (\<forall>s3. fst (NodeWriter_write (node_env ctx) (scene_objects ctx) s3) = None)
        \<and> \<not> open_raises os \<and> \<not> replace_raises os
        \<and> (copy_textures \<longrightarrow> copy_raises os = None
                             \<and> filepath @ ''.tmp'' \<notin> fst ` set (copy_files os)) \<longrightarrow>
      fst (fst (export_kn5 os t filepath ctx copy_textures f)) = ''success''
      \<and> (\<forall>(name, img) \<in> set (available_textures
              (fst (fill_available_image_textures (texture_nodes ctx) \<lparr>out = [], warnings = []\<rparr>))).
           \<exists>d pre post. get_raw_image_data img = Inr d
             \<and> snd (export_kn5 os t filepath ctx copy_textures f) filepath
                 = Some (pre @ [WInt 1, WString (get_real_texture_name img), WBlob d] @ post)
             \<and> (is_png_data d \<longrightarrow>
                  ''Using original PNG for '' @ sq @ get_real_texture_name img @ sq
                    @ '' (conversion failed)''
                    \<in> set (snd (fst (export_kn5 os t filepath ctx copy_textures f))))))
   \<and> (\<forall>t' img d s'. get_raw_image_data img = Inr d \<and> (is_dds_data d \<or> \<not> is_png_data d) \<longrightarrow>
        \<not> (is_dds_data d \<and> is_png_data d)
        \<and> process_texture t' img s' = (Inr (get_real_texture_name img, d), s'))"
proof (intro conjI)
  show "fst (TextureWriter_write t nodes s) = None"
    using TextureWriter_write_fallback [OF assms, of nodes s] by auto
  show "\<forall>node \<in> set nodes. \<forall>img.
        \<not> is_hidden_name (node_name node) \<and> node_image node = Some img \<and> has_pixels img
        \<and> (\<forall>node' \<in> set nodes. \<forall>img'. node_image node' = Some img'
               \<and> img_name img' = img_name img \<longrightarrow> img' = img) \<longrightarrow>
        (img_name img, img)
          \<in> set (available_textures (fst (fill_available_image_textures nodes s)))"
    using fill_available_image_textures_member by blast
  show "\<forall>(name, img) \<in> set (available_textures (fst (fill_available_image_textures nodes s))).
        \<exists>d pre post. get_raw_image_data img = Inr d
          \<and> out (snd (TextureWriter_write t nodes s))
              = out s @ pre @ [WInt 1, WString (get_real_texture_name img), WBlob d] @ post
          \<and> (is_png_data d \<longrightarrow>
               ''Using original PNG for '' @ sq @ get_real_texture_name img @ sq
                 @ '' (conversion failed)'' \<in> set (warnings (snd (TextureWriter_write t nodes s))))"
  proof (intro ballI, clarify)
    fix name img
    assume "(name, img) \<in> set (available_textures (fst (fill_available_image_textures nodes s)))"
    from TextureWriter_write_member [OF assms this]
    show "\<exists>d pre post. get_raw_image_data img = Inr d
          \<and> out (snd (TextureWriter_write t nodes s))
              = out s @ pre @ [WInt 1, WString (get_real_texture_name img), WBlob d] @ post
          \<and> (is_png_data d \<longrightarrow>
               ''Using original PNG for '' @ sq @ get_real_texture_name img @ sq
                 @ '' (conversion failed)'' \<in> set (warnings (snd (TextureWriter_write t nodes s))))"
      by force
  qed
  show "mw_raises (materials_written ctx) = None
        \<and> (\<forall>s3. fst (NodeWriter_write (node_env ctx) (scene_objects ctx) s3) = None)
        \<and> \<not> open_raises os \<and> \<not> replace_raises os
        \<and> (copy_textures \<longrightarrow> copy_raises os = None
                             \<and> filepath @ ''.tmp'' \<notin> fst ` set (copy_files os)) \<longrightarrow>
      fst (fst (export_kn5 os t filepath ctx copy_textures f)) = ''success''
      \<and> (\<forall>(name, img) \<in> set (available_textures
              (fst (fill_available_image_textures (texture_nodes ctx) \<lparr>out = [], warnings = []\<rparr>))).
           \<exists>d pre post. get_raw_image_data img = Inr d
             \<and> snd (export_kn5 os t filepath ctx copy_textures f) filepath
                 = Some (pre @ [WInt 1, WString (get_real_texture_name img), WBlob d] @ post)
             \<and> (is_png_data d \<longrightarrow>
                  ''Using original PNG for '' @ sq @ get_real_texture_name img @ sq
                    @ '' (conversion failed)''
                    \<in> set (snd (fst (export_kn5 os t filepath ctx copy_textures f)))))"
  proof (intro impI, elim conjE)
    assume mw: "mw_raises (materials_written ctx) = None"
      and nw: "\<forall>s3. fst (NodeWriter_write (node_env ctx) (scene_objects ctx) s3) = None"
      and op: "\<not> open_raises os" and rp: "\<not> replace_raises os"
      and cp: "copy_textures \<longrightarrow> copy_raises os = None
                             \<and> filepath @ ''.tmp'' \<notin> fst ` set (copy_files os)"
    let ?s0 = "\<lparr>out = [], warnings = []\<rparr>"
    from cp have cr: "copy_textures \<longrightarrow> copy_raises os = None"
      and cf: "copy_textures \<longrightarrow> filepath @ ''.tmp'' \<notin> fst ` set (copy_files os)" by simp_all
    have tw: "fst (TextureWriter_write t (texture_nodes ctx)
                (emit [WRaw KN5_HEADER, WUInt KN5_VERSION] ?s0)) = None"
      using TextureWriter_write_fallback [OF assms, of "texture_nodes ctx"
          "emit [WRaw KN5_HEADER, WUInt KN5_VERSION] ?s0"] by auto
    obtain s where e: "KN5Exporter_write t ctx ?s0 = (None, s)"
    proof -
      obtain s2 where a: "TextureWriter_write t (texture_nodes ctx)
                (emit [WRaw KN5_HEADER, WUInt KN5_VERSION] ?s0) = (None, s2)"
        using tw by (metis prod.collapse)
      obtain s3 where b: "MaterialWriter_write (materials_written ctx) s2 = (None, s3)"
        using mw by (simp add: MaterialWriter_write_def)
      obtain s4 where c: "NodeWriter_write (node_env ctx) (scene_objects ctx) s3 = (None, s4)"
        using nw by (metis prod.collapse)
      have "KN5Exporter_write t ctx ?s0 = (None, s4)"
        by (simp add: KN5Exporter_write_def Let_def a b c)
      then show ?thesis by (rule that)
    qed
    note r = export_kn5_success_result [OF op e rp cr, of filepath f]
    have st: "fst (fst (export_kn5 os t filepath ctx copy_textures f)) = ''success''"
      using r(1) by simp
    have ws: "set (warnings s) \<subseteq> set (snd (fst (export_kn5 os t filepath ctx copy_textures f)))"
      using r(1) by auto
    have fc: "snd (export_kn5 os t filepath ctx copy_textures f) filepath = Some (out s)"
      using r(2) cf by simp
    have "\<exists>d pre post. get_raw_image_data img = Inr d
             \<and> snd (export_kn5 os t filepath ctx copy_textures f) filepath
                 = Some (pre @ [WInt 1, WString (get_real_texture_name img), WBlob d] @ post)
             \<and> (is_png_data d \<longrightarrow>
                  ''Using original PNG for '' @ sq @ get_real_texture_name img @ sq
                    @ '' (conversion failed)''
                    \<in> set (snd (fst (export_kn5 os t filepath ctx copy_textures f))))"
      if "(name, img) \<in> set (available_textures
              (fst (fill_available_image_textures (texture_nodes ctx) ?s0)))" for name img
    proof -
      from KN5Exporter_write_fallback [OF assms mw nw that] e obtain d pre post where
        raw: "get_raw_image_data img = Inr d"
        and o: "out s = out ?s0 @ pre @ [WInt 1, WString (get_real_texture_name img), WBlob d] @ post"
        and w: "is_png_data d \<longrightarrow>
          ''Using original PNG for '' @ sq @ get_real_texture_name img @ sq
            @ '' (conversion failed)'' \<in> set (warnings s)"
        by auto
      from o fc have "snd (export_kn5 os t filepath ctx copy_textures f) filepath
          = Some (pre @ [WInt 1, WString (get_real_texture_name img), WBlob d] @ post)" by simp
      with raw w ws show ?thesis by blast
    qed
    with st show "fst (fst (export_kn5 os t filepath ctx copy_textures f)) = ''success''
      \<and> (\<forall>(name, img) \<in> set (available_textures
              (fst (fill_available_image_textures (texture_nodes ctx) \<lparr>out = [], warnings = []\<rparr>))).
           \<exists>d pre post. get_raw_image_data img = Inr d
             \<and> snd (export_kn5 os t filepath ctx copy_textures f) filepath
                 = Some (pre @ [WInt 1, WString (get_real_texture_name img), WBlob d] @ post)
             \<and> (is_png_data d \<longrightarrow>
                  ''Using original PNG for '' @ sq @ get_real_texture_name img @ sq
                    @ '' (conversion failed)''
                    \<in> set (snd (fst (export_kn5 os t filepath ctx copy_textures f)))))"
      by auto
  qed
  show "\<forall>t' img d s'. get_raw_image_data img = Inr d \<and> (is_dds_data d \<or> \<not> is_png_data d) \<longrightarrow>
        \<not> (is_dds_data d \<and> is_png_data d)
        \<and> process_texture t' img s' = (Inr (get_real_texture_name img, d), s')"
    using png_not_dds process_texture_passes by blast
qed

theorem texture_fallback_witness:
  "\<not> texconv_exists example_tex_env
   \<and> fst (fst (export_kn5 (example_os False) example_tex_env ''track.kn5'' png_scene True
                  Map.empty)) = ''success''
   \<and> ''Using original PNG for '' @ sq @ ''grass.png'' @ sq @ '' (conversion failed)''
       \<in> set (snd (fst (export_kn5 (example_os False) example_tex_env ''track.kn5'' png_scene True
                          Map.empty)))
   \<and> (\<exists>pre post. snd (export_kn5 (example_os False) example_tex_env ''track.kn5'' png_scene True
                        Map.empty) ''track.kn5''
        = Some (pre @ [WInt 1, WString ''grass.png'', WBlob png_bytes] @ post))"
proof -
  have a: "\<not> texconv_exists example_tex_env" by (simp add: example_tex_env_def)
  have c: "mw_raises (materials_written png_scene) = None
        \<and> (\<forall>s3. fst (NodeWriter_write (node_env png_scene) (scene_objects png_scene) s3) = None)
        \<and> \<not> open_raises (example_os False) \<and> \<not> replace_raises (example_os False)
        \<and> (True \<longrightarrow> copy_raises (example_os False) = None
                   \<and> ''track.kn5'' @ ''.tmp'' \<notin> fst ` set (copy_files (example_os False)))"
    by (simp add: png_scene_def example_context_def example_os_def NodeWriter_write_empty_scene)
  from texture_fallback [OF a, of "[]" "\<lparr>out = [], warnings = []\<rparr>" png_scene "example_os False"
      True "''track.kn5''" Map.empty] c
  have st: "fst (fst (export_kn5 (example_os False) example_tex_env ''track.kn5'' png_scene True
                  Map.empty)) = ''success''"
    and al: "\<forall>(name, img) \<in> set (available_textures
              (fst (fill_available_image_textures (texture_nodes png_scene)
                      \<lparr>out = [], warnings = []\<rparr>))).
           \<exists>d pre post. get_raw_image_data img = Inr d
             \<and> snd (export_kn5 (example_os False) example_tex_env ''track.kn5'' png_scene True
                      Map.empty) ''track.kn5''
                 = Some (pre @ [WInt 1, WString (get_real_texture_name img), WBlob d] @ post)
             \<and> (is_png_data d \<longrightarrow>
                  ''Using original PNG for '' @ sq @ get_real_texture_name img @ sq
                    @ '' (conversion failed)''
                    \<in> set (snd (fst (export_kn5 (example_os False) example_tex_env ''track.kn5''
                                       png_scene True Map.empty))))"
    by blast+
  from al obtain d pre post where
    "get_raw_image_data png_image = Inr d"
    and f: "snd (export_kn5 (example_os False) example_tex_env ''track.kn5'' png_scene True
                      Map.empty) ''track.kn5''
                 = Some (pre @ [WInt 1, WString (get_real_texture_name png_image), WBlob d] @ post)"
    and w: "is_png_data d \<longrightarrow>
                  ''Using original PNG for '' @ sq @ get_real_texture_name png_image @ sq
                    @ '' (conversion failed)''
                    \<in> set (snd (fst (export_kn5 (example_os False) example_tex_env ''track.kn5''
                                       png_scene True Map.empty)))"
    unfolding png_scene_textures by auto
  then have d: "d = png_bytes" by (simp add: png_image_data)
  from f w d png_image_data a st show ?thesis by auto
qed

subsection \<open>The root node and the order of its children\<close>

text \<open>
  The members of the instance group with the lower-cased name \<open>k\<close>, in the order in
  which they are merged, and the name of the group's node: the name captured from the
  first member in scene order.
\<close>

definition group_members :: "obj list \<Rightarrow> string \<Rightarrow> obj list" where
  "group_members scene k =
     sort_key (\<lambda>ob. obj_name (info ob)) (filter (\<lambda>ob. group_key_of ob = Some k) scene)"

definition group_node_name :: "obj list \<Rightarrow> string \<Rightarrow> string" where
  "group_node_name scene k =
     the (get_kstree_group_name
            (obj_name (info (hd (filter (\<lambda>ob. group_key_of ob = Some k) scene)))))"

lemma foldl_raised:
  "foldl (\<lambda>acc x. case acc of (Some err, st) \<Rightarrow> acc | (None, st) \<Rightarrow> f x st) (Some err, s) xs
   = (Some err, s)"
  by (induction xs) simp_all

lemma write_objects_foldl:
  "write_objects e obs s
   = foldl (\<lambda>acc ob. case acc of (Some err, st) \<Rightarrow> acc | (None, st) \<Rightarrow> write_object e False ob st)
       (None, s) obs"
proof (induction obs arbitrary: s)
  case Nil
  show ?case by simp
next
  case (Cons ob obs)
  obtain r s1 where w: "write_object e False ob s = (r, s1)" by (cases "write_object e False ob s")
  show ?case
  proof (cases r)
    case None
    with w Cons.IH [of s1] show ?thesis by simp
  next
    case (Some err)
    with w foldl_raised [of "\<lambda>ob st. write_object e False ob st" err s1 obs]
    show ?thesis by simp
  qed
qed

lemma write_groups_foldl:
  assumes "\<forall>k \<in> set keys. map_of groups k = Some (name k, members k)"
  shows "write_groups e groups keys s
   = foldl (\<lambda>acc k. case acc of (Some err, st) \<Rightarrow> acc
                     | (None, st) \<Rightarrow> write_kstree_group e (name k) (members k) st)
       (None, s) keys"
  using assms
proof (induction keys arbitrary: s)
  case Nil
  show ?case by simp
next
  case (Cons k keys)
  from Cons.prems have m: "map_of groups k = Some (name k, members k)"
    and rest: "\<forall>k \<in> set keys. map_of groups k = Some (name k, members k)" by simp_all
  obtain r s1 where w: "write_kstree_group e (name k) (members k) s = (r, s1)"
    by (cases "write_kstree_group e (name k) (members k) s")
  show ?case
  proof (cases r)
    case None
    with w m Cons.IH [OF rest, of s1] show ?thesis by simp
  next
    case (Some err)
    with w m foldl_raised [of "\<lambda>k st. write_kstree_group e (name k) (members k) st" err s1 keys]
    show ?thesis by simp
  qed
qed

lemma collect_and_group_objects_regular_list:
  "fst (collect_and_group_objects scene)
   = sort_key (\<lambda>ob. length (children ob)) (filter is_regular scene)"
proof -
  obtain r g where f: "foldl collect_step ([], []) scene = (r, g)"
    by (cases "foldl collect_step ([], []) scene")
  from collect_regular [of "[]" "[]" scene] f have "r = filter is_regular scene" by simp
  with f show ?thesis by (simp add: collect_and_group_objects_def)
qed

lemma collect_and_group_objects_sorted_keys:
  "sort (map fst (snd (collect_and_group_objects scene)))
   = sorted_list_of_set {k. \<exists>ob \<in> set scene. group_key_of ob = Some k}"
proof -
  let ?ks = "map fst (snd (collect_and_group_objects scene))"
  have "sorted_list_of_set (set ?ks) = sort (remdups ?ks)"
    by (rule sorted_list_of_set_sort_remdups)
  also have "remdups ?ks = ?ks"
    using collect_and_group_objects_keys(1) [of scene] by (rule distinct_remdups_id)
  finally show ?thesis using collect_and_group_objects_keys(2) [of scene] by simp
qed

lemma collect_and_group_objects_count:
  "length (snd (collect_and_group_objects scene))
   = card {k. \<exists>ob \<in> set scene. group_key_of ob = Some k}"
proof -
  let ?ks = "map fst (snd (collect_and_group_objects scene))"
  have "card (set ?ks) = length ?ks"
    using collect_and_group_objects_keys(1) [of scene] by (rule distinct_card)
  with collect_and_group_objects_keys(2) [of scene] show ?thesis by simp
qed

lemma collect_and_group_objects_lookup:
  assumes "\<exists>ob \<in> set scene. group_key_of ob = Some k"
  shows "map_of (snd (collect_and_group_objects scene)) k
         = Some (group_node_name scene k, group_members scene k)"
proof -
  from assms collect_and_group_objects_keys(2) [of scene]
  have "k \<in> set (map fst (snd (collect_and_group_objects scene)))" by simp
  then obtain n obs where m: "map_of (snd (collect_and_group_objects scene)) k = Some (n, obs)"
    by (cases "map_of (snd (collect_and_group_objects scene)) k")
       (auto simp: map_of_eq_None_iff)
  from collect_and_group_objects_entry [OF m] m show ?thesis
    by (simp add: group_members_def group_node_name_def)
qed

lemma first_pass_succeeds:
  "\<forall>ob \<in> set obs. \<exists>d. extract_tree_mesh_data e ob = Inr d \<Longrightarrow>
   \<exists>acc'. tree_first_pass e obs acc = Inr acc'"
proof (induction obs arbitrary: acc)
  case Nil
  show ?case unfolding tree_first_pass.simps by blast
next
  case (Cons ob obs)
  from Cons.prems obtain d where d: "extract_tree_mesh_data e ob = Inr d" by auto
  from Cons.prems have "\<forall>ob \<in> set obs. \<exists>d. extract_tree_mesh_data e ob = Inr d" by simp
  from Cons.IH [OF this] d show ?case by simp
qed

lemma second_pass_records_no_vertices:
  "\<forall>r \<in> set d. fst r = [] \<Longrightarrow>
   \<exists>ai'. foldl (second_pass_record c) (av, ai) d = (av, ai')"
proof (induction d arbitrary: ai)
  case Nil
  show ?case by simp
next
  case (Cons r d)
  obtain vs inds m where r: "r = (vs, inds, m)" by (cases r)
  with Cons.prems have vs: "vs = []" and rest: "\<forall>r \<in> set d. fst r = []" by auto
  from Cons.IH [OF rest] show ?case by (simp add: r vs second_pass_record_def Let_def)
qed

lemma second_pass_no_vertices:
  "\<forall>ob \<in> set obs. \<exists>d. extract_tree_mesh_data e ob = Inr d \<and> (\<forall>r \<in> set d. fst r = []) \<Longrightarrow>
   \<exists>ai'. tree_second_pass e c obs (av, ai) = Inr (av, ai')"
proof (induction obs arbitrary: ai)
  case Nil
  show ?case by simp
next
  case (Cons ob obs)
  from Cons.prems obtain d where d: "extract_tree_mesh_data e ob = Inr d"
    and em: "\<forall>r \<in> set d. fst r = []" by auto
  from second_pass_records_no_vertices [OF em, of c av ai] obtain ai1
    where f: "foldl (second_pass_record c) (av, ai) d = (av, ai1)" by blast
  from Cons.prems have "\<forall>ob \<in> set obs. \<exists>d. extract_tree_mesh_data e ob = Inr d
      \<and> (\<forall>r \<in> set d. fst r = [])" by simp
  from Cons.IH [OF this, of ai1] d f show ?case by simp
qed

lemma write_kstree_group_no_vertices:
  assumes "\<forall>ob \<in> set objects. obj_type (info ob) = ''MESH'' \<longrightarrow>
             (\<exists>d. extract_tree_mesh_data e (info ob) = Inr d \<and> (\<forall>r \<in> set d. fst r = []))"
  shows "write_kstree_group e group_name objects s = (None, s)"
proof -
  let ?ms = "filter (\<lambda>ob. obj_type ob = ''MESH'') (map info objects)"
  from assms have a: "\<forall>ob \<in> set ?ms. \<exists>d. extract_tree_mesh_data e ob = Inr d
      \<and> (\<forall>r \<in> set d. fst r = [])" by auto
  then have "\<forall>ob \<in> set ?ms. \<exists>d. extract_tree_mesh_data e ob = Inr d" by blast
  from first_pass_succeeds [OF this, of "(None, None, [])"] obtain mid np ys
    where fp: "tree_first_pass e ?ms (None, None, []) = Inr (mid, np, ys)"
    by (metis prod_cases3)
  from second_pass_no_vertices [OF a, of "mesh_center ys" "[]" "[]"] obtain ai
    where sp: "tree_second_pass e (mesh_center ys) ?ms ([], []) = Inr ([], ai)" by blast
  show ?thesis by (simp add: write_kstree_group_def Let_def fp sp)
qed


lemma group_members_names:
  assumes "\<exists>ob \<in> set scene. group_key_of ob = Some k"
  shows "group_members scene k \<noteq> []" and "lower (group_node_name scene k) = k"
proof -
  let ?fs = "filter (\<lambda>ob. group_key_of ob = Some k) scene"
  from assms have ne: "?fs \<noteq> []" by (auto simp: filter_empty_conv)
  have "length (group_members scene k) = length ?fs" by (simp add: group_members_def)
  with ne show "group_members scene k \<noteq> []" by auto
  from ne have "hd ?fs \<in> set ?fs" by (rule hd_in_set)
  then have "group_key_of (hd ?fs) = Some k" by simp
  then show "lower (group_node_name scene k) = k"
    by (auto simp: group_key_of_def group_node_name_def split: if_splits)
qed

definition mixed_scene :: "obj list" where
  "mixed_scene = [example_object ''cube'' [], example_object ''KSTREE_GROUP_OAK_1'' [None]]"

definition mixed_case_scene :: "obj list" where
  "mixed_case_scene = [example_object ''KSTREE_GROUP_Zed_1'' [None],
                       example_object ''KSTREE_GROUP_apple_1'' [None]]"

lemma kstree_name_Zed_1: "get_kstree_group_name ''KSTREE_GROUP_Zed_1'' = Some ''Zed''"
  by code_simp

lemma kstree_name_apple_1: "get_kstree_group_name ''KSTREE_GROUP_apple_1'' = Some ''apple''"
  by code_simp

lemma lower_Zed: "lower ''Zed'' = ''zed''" "lower ''apple'' = ''apple''"
  by code_simp+

lemma example_object_name: "obj_name (info (example_object name mats)) = name"
  by (simp add: example_object_def)

lemma example_object_is_exported: "is_exported (example_object name mats) = (\<not> is_hidden_name name)"
  by (simp add: is_exported_def example_object_def is_object_excluded_by_collection_def)

lemma mixed_scene_keys:
  "group_key_of (example_object ''cube'' []) = None"
  "group_key_of (example_object ''KSTREE_GROUP_OAK_1'' [None]) = Some ''oak''"
  "is_regular (example_object ''cube'' [])"
  "\<not> is_regular (example_object ''KSTREE_GROUP_OAK_1'' [None])"
  by (simp_all add: group_key_of_def is_regular_def example_object_is_exported
      example_object_name kstree_name_cube kstree_name_OAK_1 lower_OAK is_hidden_name_def)

lemma mixed_scene_key_set:
  "{k. \<exists>ob \<in> set mixed_scene. group_key_of ob = Some k} = {''oak''}"
  by (auto simp: mixed_scene_def mixed_scene_keys)

lemma mixed_case_scene_keys:
  "group_key_of (example_object ''KSTREE_GROUP_Zed_1'' [None]) = Some ''zed''"
  "group_key_of (example_object ''KSTREE_GROUP_apple_1'' [None]) = Some ''apple''"
  "is_exported (example_object ''KSTREE_GROUP_Zed_1'' [None])"
  "is_exported (example_object ''KSTREE_GROUP_apple_1'' [None])"
  by (simp_all add: group_key_of_def example_object_is_exported
      example_object_name kstree_name_Zed_1 kstree_name_apple_1 lower_Zed is_hidden_name_def)

lemma mixed_case_scene_key_set:
  "{k. \<exists>ob \<in> set mixed_case_scene. group_key_of ob = Some k} = {''zed'', ''apple''}"
  by (auto simp: mixed_case_scene_def mixed_case_scene_keys)

lemma apple_before_zed: "''apple'' < ''zed''" "''Zed'' < ''apple''"
  by code_simp+

lemma sorted_keys_apple_zed: "sorted_list_of_set {''zed'', ''apple''} = [''apple'', ''zed'']"
proof -
  have "sorted_list_of_set (set [''zed'', ''apple'']) = sort (remdups [''zed'', ''apple''])"
    by (rule sorted_list_of_set_sort_remdups)
  also have "\<dots> = [''apple'', ''zed'']" using apple_before_zed(1) by (simp add: less_imp_le)
  finally show ?thesis by simp
qed


lemma NodeWriter_write_order:
  "NodeWriter_write e scene s
   = foldl (\<lambda>acc ob. case acc of (Some err, st) \<Rightarrow> acc
                      | (None, st) \<Rightarrow> write_object e False ob st)
       (foldl (\<lambda>acc k. case acc of (Some err, st) \<Rightarrow> acc
                         | (None, st) \<Rightarrow>
                             write_kstree_group e (group_node_name scene k)
                               (group_members scene k) st)
          (None, emit [WUInt 1, WString ''BlenderFile'',
                       WUInt (length (filter is_regular scene)
                              + card {k. \<exists>ob \<in> set scene. group_key_of ob = Some k}),
                       WBool True, WMatrix identity_matrix] s)
          (sorted_list_of_set {k. \<exists>ob \<in> set scene. group_key_of ob = Some k}))
       (sort_key (\<lambda>ob. length (children ob)) (filter is_regular scene))"
proof -
  let ?K = "{k. \<exists>ob \<in> set scene. group_key_of ob = Some k}"
  let ?count = "length (filter is_regular scene) + card ?K"
  let ?groups = "snd (collect_and_group_objects scene)"
  obtain regular groups where cg: "collect_and_group_objects scene = (regular, groups)"
    by (cases "collect_and_group_objects scene")
  from cg collect_and_group_objects_regular_list [of scene]
  have reg: "regular = sort_key (\<lambda>ob. length (children ob)) (filter is_regular scene)" by simp
  from cg collect_and_group_objects_sorted_keys [of scene]
  have keys: "sort (map fst groups) = sorted_list_of_set ?K" by simp
  from cg collect_and_group_objects_count [of scene] have cnt: "length groups = card ?K" by simp
  have fin: "finite ?K"
  proof -
    have "?K = set (map fst ?groups)" by (simp only: collect_and_group_objects_keys(2))
    then show ?thesis by (simp only: finite_set)
  qed
  have look: "\<forall>k \<in> set (sorted_list_of_set ?K).
      map_of groups k = Some (group_node_name scene k, group_members scene k)"
  proof
    fix k assume "k \<in> set (sorted_list_of_set ?K)"
    with fin have "k \<in> ?K" by simp
    then have "\<exists>ob \<in> set scene. group_key_of ob = Some k" by simp
    from collect_and_group_objects_lookup [OF this] cg
    show "map_of groups k = Some (group_node_name scene k, group_members scene k)" by simp
  qed
  have root: "write_base_node_data ''BlenderFile'' ?count True identity_matrix s
      = emit [WUInt 1, WString ''BlenderFile'', WUInt ?count, WBool True, WMatrix identity_matrix] s"
    by (simp add: write_base_node_data_def NODE_TYPE_Node_def)
  let ?s1 = "emit [WUInt 1, WString ''BlenderFile'', WUInt ?count, WBool True,
                   WMatrix identity_matrix] s"
  let ?G = "foldl (\<lambda>acc k. case acc of (Some err, st) \<Rightarrow> acc
                         | (None, st) \<Rightarrow>
                             write_kstree_group e (group_node_name scene k)
                               (group_members scene k) st)
          (None, ?s1) (sorted_list_of_set ?K)"
  have wg: "write_groups e groups (sorted_list_of_set ?K) ?s1 = ?G"
    by (rule write_groups_foldl [OF look])
  have nw: "NodeWriter_write e scene s
      = (case ?G of (Some err, s2) \<Rightarrow> (Some err, s2) | (None, s2) \<Rightarrow> write_objects e regular s2)"
  proof -
    have lr: "length regular = length (filter is_regular scene)" by (simp add: reg)
    have "NodeWriter_write e scene s
      = (case write_groups e groups (sort (map fst groups))
                (write_base_node_data ''BlenderFile'' (length regular + length groups) True
                   identity_matrix s) of
           (Some err, s2) \<Rightarrow> (Some err, s2)
         | (None, s2) \<Rightarrow> write_objects e regular s2)"
      by (simp add: NodeWriter_write_def cg Let_def)
    then show ?thesis unfolding keys cnt lr root wg .
  qed
  show "NodeWriter_write e scene s
   = foldl (\<lambda>acc ob. case acc of (Some err, st) \<Rightarrow> acc
                      | (None, st) \<Rightarrow> write_object e False ob st)
       ?G (sort_key (\<lambda>ob. length (children ob)) (filter is_regular scene))"
  proof (cases ?G)
    case (Pair r s2)
    show ?thesis
    proof (cases r)
      case None
      with Pair nw write_objects_foldl [of e regular s2] reg show ?thesis by simp
    next
      case (Some err)
      with Pair nw foldl_raised [of "\<lambda>ob st. write_object e False ob st" err s2
          "sort_key (\<lambda>ob. length (children ob)) (filter is_regular scene)"]
      show ?thesis by simp
    qed
  qed
qed

lemma NodeWriter_write_root_count:
  "\<exists>es ws. out (snd (NodeWriter_write e scene s))
                 = out s @ [WUInt 1, WString ''BlenderFile'',
                            WUInt (length (filter is_regular scene)
                                   + card {k. \<exists>ob \<in> set scene. group_key_of ob = Some k}),
                            WBool True, WMatrix identity_matrix] @ es
               \<and> warnings (snd (NodeWriter_write e scene s)) = warnings s @ ws"
  using NodeWriter_write_root [of e scene s] collect_and_group_objects_count [of scene]
    collect_and_group_objects_regular(2) [of scene]
  by (simp add: NODE_TYPE_Node_def)

text \<open>
  C6 (as amended). \<open>NodeWriter.write\<close> always writes the root first, as a plain node
  (class 1) named \<open>BlenderFile\<close>, active, with the identity transform, whose child
  count is the number of top-level objects that are not hidden by name, not excluded
  and not members of an instance group, plus the number of distinct instance groups
  (group names compared in lower case). Then it writes the instance groups, one after
  another in the ascending order of their lower-cased names, each from its members
  sorted by object name under the name captured from its first member in scene order;
  then the ordinary top-level objects, in the order of their child counts; the first
  exception ends the writing. An instance group with no mesh objects, or whose mesh
  objects give no vertices, is counted in the root's child count and writes nothing.
\<close>

theorem root_node_and_child_order:
  "NodeWriter_write e scene s
   = foldl (\<lambda>acc ob. case acc of (Some err, st) \<Rightarrow> acc
                      | (None, st) \<Rightarrow> write_object e False ob st)
       (foldl (\<lambda>acc k. case acc of (Some err, st) \<Rightarrow> acc
                         | (None, st) \<Rightarrow>
                             write_kstree_group e (group_node_name scene k)
                               (group_members scene k) st)
          (None, emit [WUInt 1, WString ''BlenderFile'',
                       WUInt (length (filter is_regular scene)
                              + card {k. \<exists>ob \<in> set scene. group_key_of ob = Some k}),
                       WBool True, WMatrix identity_matrix] s)
          (sorted_list_of_set {k. \<exists>ob \<in> set scene. group_key_of ob = Some k}))
       (sort_key (\<lambda>ob. length (children ob)) (filter is_regular scene))
   \<and> (\<exists>es ws. out (snd (NodeWriter_write e scene s))
                 = out s @ [WUInt 1, WString ''BlenderFile'',
                            WUInt (length (filter is_regular scene)
                                   + card {k. \<exists>ob \<in> set scene. group_key_of ob = Some k}),
                            WBool True, WMatrix identity_matrix] @ es
               \<and> warnings (snd (NodeWriter_write e scene s)) = warnings s @ ws)
   \<and> (\<forall>k. (\<exists>ob \<in> set scene. group_key_of ob = Some k) \<longrightarrow>
          group_members scene k \<noteq> [] \<and> lower (group_node_name scene k) = k)
   \<and> (\<forall>n objects st.
          (\<forall>ob \<in> set objects. obj_type (info ob) = ''MESH'' \<longrightarrow>
             (\<exists>d. extract_tree_mesh_data e (info ob) = Inr d \<and> (\<forall>r \<in> set d. fst r = []))) \<longrightarrow>
          write_kstree_group e n objects st = (None, st))"
proof (intro conjI)
  show "NodeWriter_write e scene s
   = foldl (\<lambda>acc ob. case acc of (Some err, st) \<Rightarrow> acc
                      | (None, st) \<Rightarrow> write_object e False ob st)
       (foldl (\<lambda>acc k. case acc of (Some err, st) \<Rightarrow> acc
                         | (None, st) \<Rightarrow>
                             write_kstree_group e (group_node_name scene k)
                               (group_members scene k) st)
          (None, emit [WUInt 1, WString ''BlenderFile'',
                       WUInt (length (filter is_regular scene)
                              + card {k. \<exists>ob \<in> set scene. group_key_of ob = Some k}),
                       WBool True, WMatrix identity_matrix] s)
          (sorted_list_of_set {k. \<exists>ob \<in> set scene. group_key_of ob = Some k}))
       (sort_key (\<lambda>ob. length (children ob)) (filter is_regular scene))"
    by (rule NodeWriter_write_order)
  show "\<exists>es ws. out (snd (NodeWriter_write e scene s))
                 = out s @ [WUInt 1, WString ''BlenderFile'',
                            WUInt (length (filter is_regular scene)
                                   + card {k. \<exists>ob \<in> set scene. group_key_of ob = Some k}),
                            WBool True, WMatrix identity_matrix] @ es
               \<and> warnings (snd (NodeWriter_write e scene s)) = warnings s @ ws"
    by (rule NodeWriter_write_root_count)
  show "\<forall>k. (\<exists>ob \<in> set scene. group_key_of ob = Some k) \<longrightarrow>
          group_members scene k \<noteq> [] \<and> lower (group_node_name scene k) = k"
    using group_members_names by blast
  show "\<forall>n objects st.
          (\<forall>ob \<in> set objects. obj_type (info ob) = ''MESH'' \<longrightarrow>
             (\<exists>d. extract_tree_mesh_data e (info ob) = Inr d \<and> (\<forall>r \<in> set d. fst r = []))) \<longrightarrow>
          write_kstree_group e n objects st = (None, st)"
    using write_kstree_group_no_vertices by blast
qed


lemma mixed_scene_groups:
  "filter is_regular mixed_scene = [example_object ''cube'' []]"
  "group_members mixed_scene ''oak'' = [example_object ''KSTREE_GROUP_OAK_1'' [None]]"
  "group_node_name mixed_scene ''oak'' = ''OAK''"
  by (simp_all add: mixed_scene_def mixed_scene_keys group_members_def group_node_name_def
      example_object_name kstree_name_OAK_1)

theorem root_node_and_child_order_witness:
  "NodeWriter_write example_env mixed_scene \<lparr>out = [], warnings = []\<rparr>
   = write_object example_env False (example_object ''cube'' [])
       (emit [WUInt 1, WString ''BlenderFile'', WUInt 2, WBool True, WMatrix identity_matrix]
          \<lparr>out = [], warnings = []\<rparr>)
   \<and> (\<exists>ob \<in> set mixed_scene. group_key_of ob = Some ''oak'')
   \<and> group_members mixed_scene ''oak'' \<noteq> []
   \<and> lower (group_node_name mixed_scene ''oak'') = ''oak''
   \<and> write_kstree_group example_env ''OAK'' [example_object ''KSTREE_GROUP_OAK_1'' [None]]
        \<lparr>out = [], warnings = []\<rparr> = (None, \<lparr>out = [], warnings = []\<rparr>)"
proof -
  note t = root_node_and_child_order [of example_env mixed_scene "\<lparr>out = [], warnings = []\<rparr>"]
  have k: "\<exists>ob \<in> set mixed_scene. group_key_of ob = Some ''oak''"
    by (simp add: mixed_scene_def mixed_scene_keys)
  have em: "\<forall>ob \<in> set [example_object ''KSTREE_GROUP_OAK_1'' [None]].
      obj_type (info ob) = ''MESH'' \<longrightarrow>
        (\<exists>d. extract_tree_mesh_data example_env (info ob) = Inr d \<and> (\<forall>r \<in> set d. fst r = []))"
    by (simp add: example_tree_extract)
  from t em have g: "\<And>st. write_kstree_group example_env ''OAK''
      [example_object ''KSTREE_GROUP_OAK_1'' [None]] st = (None, st)" by blast
  from t k have m: "group_members mixed_scene ''oak'' \<noteq> []
      \<and> lower (group_node_name mixed_scene ''oak'') = ''oak''" by blast
  from t have "NodeWriter_write example_env mixed_scene \<lparr>out = [], warnings = []\<rparr>
   = foldl (\<lambda>acc ob. case acc of (Some err, st) \<Rightarrow> acc
                      | (None, st) \<Rightarrow> write_object example_env False ob st)
       (foldl (\<lambda>acc k. case acc of (Some err, st) \<Rightarrow> acc
                         | (None, st) \<Rightarrow>
                             write_kstree_group example_env (group_node_name mixed_scene k)
                               (group_members mixed_scene k) st)
          (None, emit [WUInt 1, WString ''BlenderFile'',
                       WUInt (length (filter is_regular mixed_scene)
                              + card {k. \<exists>ob \<in> set mixed_scene. group_key_of ob = Some k}),
                       WBool True, WMatrix identity_matrix] \<lparr>out = [], warnings = []\<rparr>)
          (sorted_list_of_set {k. \<exists>ob \<in> set mixed_scene. group_key_of ob = Some k}))
       (sort_key (\<lambda>ob. length (children ob)) (filter is_regular mixed_scene))"
    by blast
  then have w: "NodeWriter_write example_env mixed_scene \<lparr>out = [], warnings = []\<rparr>
   = write_object example_env False (example_object ''cube'' [])
       (emit [WUInt 1, WString ''BlenderFile'', WUInt 2, WBool True, WMatrix identity_matrix]
          \<lparr>out = [], warnings = []\<rparr>)"
    by (simp add: mixed_scene_key_set mixed_scene_groups g numeral_2_eq_2)
  from w k m g show ?thesis by blast
qed

text \<open>
  C6 as stated fails for a scene whose two top-level objects, neither hidden nor
  excluded, are the only members of the instance groups \<open>Zed\<close> and \<open>apple\<close>: the number
  of such objects plus the number of groups is 4, and the root is written with the
  child count 2. The group \<open>apple\<close> is written before the group \<open>Zed\<close>, in the order of
  the lower-cased names, while the name \<open>Zed\<close> is below \<open>apple\<close> as a string. Neither
  group has a vertex under an assigned material, so no node follows the root.
\<close>

theorem group_members_are_not_counted:
  "length (filter is_exported mixed_case_scene) = 2
   \<and> length (snd (collect_and_group_objects mixed_case_scene)) = 2
   \<and> NodeWriter_write example_env mixed_case_scene \<lparr>out = [], warnings = []\<rparr>
      = (None, \<lparr>out = [WUInt 1, WString ''BlenderFile'', WUInt 2, WBool True,
                        WMatrix identity_matrix], warnings = []\<rparr>)
   \<and> snd (collect_and_group_objects mixed_case_scene)
      = [(''zed'', ''Zed'', [example_object ''KSTREE_GROUP_Zed_1'' [None]]),
         (''apple'', ''apple'', [example_object ''KSTREE_GROUP_apple_1'' [None]])]
   \<and> sort (map fst (snd (collect_and_group_objects mixed_case_scene))) = [''apple'', ''zed'']
   \<and> ''Zed'' < ''apple''"
proof -
  have c: "collect_and_group_objects mixed_case_scene
      = ([], [(''zed'', ''Zed'', [example_object ''KSTREE_GROUP_Zed_1'' [None]]),
              (''apple'', ''apple'', [example_object ''KSTREE_GROUP_apple_1'' [None]])])"
    using mixed_case_scene_keys(3,4)
    by (simp add: collect_and_group_objects_def mixed_case_scene_def collect_step_def
        is_exported_def example_object_name kstree_name_Zed_1 kstree_name_apple_1
        groups_append_def lower_Zed Let_def)
  have s: "sort [''zed'', ''apple''] = [''apple'', ''zed'']"
    using apple_before_zed(1) by (simp add: less_imp_le)
  have e: "length (filter is_exported mixed_case_scene) = 2"
    by (simp add: mixed_case_scene_def mixed_case_scene_keys)
  have w: "NodeWriter_write example_env mixed_case_scene \<lparr>out = [], warnings = []\<rparr>
      = (None, \<lparr>out = [WUInt 1, WString ''BlenderFile'', WUInt 2, WBool True,
                        WMatrix identity_matrix], warnings = []\<rparr>)"
    by (simp add: NodeWriter_write_def c s Let_def write_kstree_group_all_empty
        example_tree_extract write_base_node_data_def emit_def NODE_TYPE_Node_def)
  from c s e w apple_before_zed(2) show ?thesis by simp
qed

subsection \<open>The merged mesh of an instance group\<close>

text \<open>
  The number of vertices that \<open>_extract_tree_mesh_data\<close> returns for an object: the
  sum, over its material records, of the vertices left after the deduplication.
\<close>

definition tree_vertex_count :: "env \<Rightarrow> obj_info \<Rightarrow> nat" where
  "tree_vertex_count e ob =
     (case extract_tree_mesh_data e ob of
        Inr d \<Rightarrow> sum_list (map (\<lambda>r. length (fst r)) d)
      | Inl err \<Rightarrow> 0)"

lemma second_pass_records_length:
  "length (fst (foldl (second_pass_record c) (av, ai) d))
   = length av + sum_list (map (\<lambda>r. length (fst r)) d)"
proof (induction d arbitrary: av ai)
  case Nil
  show ?case by simp
next
  case (Cons r d)
  obtain vs inds m where r: "r = (vs, inds, m)" by (cases r)
  obtain av1 ai1 where st: "second_pass_record c (av, ai) r = (av1, ai1)"
    by (cases "second_pass_record c (av, ai) r")
  with r have "length av1 = length av + length vs"
    by (auto simp: second_pass_record_def Let_def)
  with Cons.IH [of av1 ai1] st r show ?case by simp
qed

lemma second_pass_length:
  "\<forall>ob \<in> set obs. \<exists>d. extract_tree_mesh_data e ob = Inr d \<Longrightarrow>
   \<exists>vs inds. tree_second_pass e c obs (av, ai) = Inr (vs, inds)
     \<and> length vs = length av + sum_list (map (tree_vertex_count e) obs)"
proof (induction obs arbitrary: av ai)
  case Nil
  show ?case by simp
next
  case (Cons ob obs)
  from Cons.prems obtain d where d: "extract_tree_mesh_data e ob = Inr d" by auto
  obtain av1 ai1 where f: "foldl (second_pass_record c) (av, ai) d = (av1, ai1)"
    by (cases "foldl (second_pass_record c) (av, ai) d")
  from second_pass_records_length [of c av ai d] f d
  have l1: "length av1 = length av + tree_vertex_count e ob"
    by (simp add: tree_vertex_count_def)
  from Cons.prems have "\<forall>ob \<in> set obs. \<exists>d. extract_tree_mesh_data e ob = Inr d" by simp
  from Cons.IH [OF this, of av1 ai1] obtain vs inds where
    "tree_second_pass e c obs (av1, ai1) = Inr (vs, inds)"
    and "length vs = length av1 + sum_list (map (tree_vertex_count e) obs)" by blast
  with d f l1 show ?case by simp
qed

lemma write_kstree_group_merged:
  assumes "\<forall>ob \<in> set objects. obj_type (info ob) = ''MESH'' \<longrightarrow>
             (\<exists>d. extract_tree_mesh_data e (info ob) = Inr d)"
  shows "\<exists>mid np vs inds.
     length vs = sum_list (map (tree_vertex_count e)
                             (filter (\<lambda>ob. obj_type ob = ''MESH'') (map info objects)))
     \<and> write_kstree_group e group_name objects s
         = (None, if vs = [] then s else write_merged_mesh group_name mid np vs inds s)"
proof -
  let ?ms = "filter (\<lambda>ob. obj_type ob = ''MESH'') (map info objects)"
  from assms have a: "\<forall>ob \<in> set ?ms. \<exists>d. extract_tree_mesh_data e ob = Inr d" by auto
  from first_pass_succeeds [OF a, of "(None, None, [])"] obtain mid np ys
    where fp: "tree_first_pass e ?ms (None, None, []) = Inr (mid, np, ys)"
    by (metis prod_cases3)
  from second_pass_length [OF a, of "mesh_center ys" "[]" "[]"] obtain vs inds
    where sp: "tree_second_pass e (mesh_center ys) ?ms ([], []) = Inr (vs, inds)"
      and len: "length vs = sum_list (map (tree_vertex_count e) ?ms)" by auto
  have "write_kstree_group e group_name objects s
         = (None, if vs = [] then s else write_merged_mesh group_name mid np vs inds s)"
  proof (cases "?ms = []")
    case True
    with sp have "vs = []" by simp
    with True show ?thesis by (simp add: write_kstree_group_def)
  next
    case False
    then show ?thesis by (simp add: write_kstree_group_def Let_def fp sp)
  qed
  with len show ?thesis by blast
qed

definition sphere_events :: "UvVertex list \<Rightarrow> event list" where
  "sphere_events vs =
     (case bounding_sphere vs of
        (None, r) \<Rightarrow> [WVector3_nan, WFloat r]
      | (Some c, r) \<Rightarrow> [WVector3 c, WFloat r])"

definition merged_flags :: "NodeProperties option \<Rightarrow> event list" where
  "merged_flags np =
     (case np of
        Some p \<Rightarrow> [WBool (castShadows p), WBool (visible p), WBool (transparent p)]
      | None \<Rightarrow> [WBool True, WBool True, WBool False])"

definition merged_tail :: "nat option \<Rightarrow> NodeProperties option \<Rightarrow> UvVertex list \<Rightarrow> event list" where
  "merged_tail mid np vs =
     [WUInt (case mid of Some i \<Rightarrow> i | None \<Rightarrow> DEFAULT_MATERIAL_ID)]
     @ (case np of
          Some p \<Rightarrow> [WUInt (layer p), WFloat (lodIn p), WFloat (lodOut p)]
        | None \<Rightarrow> [WUInt 0, WFloat 0, WFloat 0])
     @ sphere_events vs
     @ [WBool (case np of Some p \<Rightarrow> renderable p | None \<Rightarrow> True)]"

lemma out_write_bounding_sphere:
  "out (write_bounding_sphere vs s) = out s @ sphere_events vs"
  by (simp add: write_bounding_sphere_def sphere_events_def emit_def
      split: prod.splits option.splits)

lemma write_merged_mesh_out:
  "out (write_merged_mesh group_name mid np vs inds s)
   = out s @ [WUInt 2, WString group_name, WUInt 0, WBool True] @ merged_flags np
     @ [WUInt (length vs)] @ concat (map vertex_events vs)
     @ [WUInt (length inds)] @ map WUShort inds @ merged_tail mid np vs"
  by (cases np; cases mid)
     (simp_all add: write_merged_mesh_def Let_def emit_def warn_def out_write_bounding_sphere
        merged_flags_def merged_tail_def NODE_TYPE_Mesh_def MESH_CHILD_COUNT_def)

lemma merged_flags_tail:
  "length (merged_flags np) = 3" "length (merged_tail mid np vs) = 7"
  "\<forall>ev \<in> set (merged_flags np @ merged_tail mid np vs). \<forall>n. ev \<noteq> WString n"
  by (auto simp: merged_flags_def merged_tail_def sphere_events_def
      split: option.splits prod.splits)


lemma kstree_name_Oak_2: "get_kstree_group_name ''kstree_group_Oak_2'' = Some ''Oak''"
  by code_simp

lemma kstree_name_OAK_3: "get_kstree_group_name ''KSTREE_GROUP_OAK_3'' = Some ''OAK''"
  by code_simp

lemma lower_Oak: "lower ''Oak'' = ''oak''"
  by code_simp

lemma group_names_without_prefix:
  "get_kstree_group_name ''GROUP_OAK_1'' = None"
  "get_kstree_group_name ''group_Oak_2'' = None"
  "get_kstree_group_name ''GROUP_OAK_3'' = None"
  by code_simp+

lemma oak_names_order:
  "''KSTREE_GROUP_OAK_1'' \<le> ''KSTREE_GROUP_OAK_3''"
  "\<not> ''kstree_group_Oak_2'' \<le> ''KSTREE_GROUP_OAK_3''"
  by code_simp+

lemma oak_names_not_hidden:
  "\<not> is_hidden_name ''KSTREE_GROUP_OAK_1''" "\<not> is_hidden_name ''kstree_group_Oak_2''"
  "\<not> is_hidden_name ''KSTREE_GROUP_OAK_3''"
  "\<not> is_hidden_name ''GROUP_OAK_1''" "\<not> is_hidden_name ''group_Oak_2''"
  "\<not> is_hidden_name ''GROUP_OAK_3''"
  by (simp_all add: is_hidden_name_def)

lemma oak_group:
  assumes n1: "obj_name (info o1) = ''KSTREE_GROUP_OAK_1''"
    and n2: "obj_name (info o2) = ''kstree_group_Oak_2''"
    and n3: "obj_name (info o3) = ''KSTREE_GROUP_OAK_3''"
    and ex: "\<forall>ob \<in> {o1, o2, o3}. \<not> is_object_excluded_by_collection (info ob)"
  shows "filter is_regular [o1, o2, o3] = []"
    and "{k. \<exists>ob \<in> set [o1, o2, o3]. group_key_of ob = Some k} = {''oak''}"
    and "group_members [o1, o2, o3] ''oak'' = [o1, o3, o2]"
    and "group_node_name [o1, o2, o3] ''oak'' = ''OAK''"
proof -
  from ex have e: "is_exported o1" "is_exported o2" "is_exported o3"
    by (simp_all add: is_exported_def n1 n2 n3 oak_names_not_hidden)
  have k: "group_key_of o1 = Some ''oak''" "group_key_of o2 = Some ''oak''"
    "group_key_of o3 = Some ''oak''"
    using e by (simp_all add: group_key_of_def n1 n2 n3 kstree_name_OAK_1 kstree_name_Oak_2
        kstree_name_OAK_3 lower_OAK lower_Oak)
  show "filter is_regular [o1, o2, o3] = []"
    by (simp add: is_regular_def n1 n2 n3 kstree_name_OAK_1 kstree_name_Oak_2 kstree_name_OAK_3)
  show "{k. \<exists>ob \<in> set [o1, o2, o3]. group_key_of ob = Some k} = {''oak''}"
    using k by auto
  show "group_members [o1, o2, o3] ''oak'' = [o1, o3, o2]"
    using oak_names_order by (simp add: group_members_def k n1 n2 n3)
  show "group_node_name [o1, o2, o3] ''oak'' = ''OAK''"
    by (simp add: group_node_name_def k n1 kstree_name_OAK_1)
qed

text \<open>
  C5 (as amended). Three top-level mesh objects named \<open>KSTREE_GROUP_OAK_1\<close>,
  \<open>kstree_group_Oak_2\<close> and \<open>KSTREE_GROUP_OAK_3\<close> (the reserved pattern is
  \<open>KSTREE_GROUP_<name>_<number>\<close>, matched without regard to case), none excluded and
  the extraction of none raising, are merged: after the root, whose child count is 1,
  the node writer writes exactly one node, a mesh node (class 2) named \<open>OAK\<close>, the
  name captured from the first object, whose vertex count is the sum of the numbers
  of vertices that are left of the three objects after the deduplication; it does not
  raise. When that sum is 0 nothing is written after the root.
\<close>

theorem instance_group_is_merged:
  assumes "obj_name (info o1) = ''KSTREE_GROUP_OAK_1''"
    and "obj_name (info o2) = ''kstree_group_Oak_2''"
    and "obj_name (info o3) = ''KSTREE_GROUP_OAK_3''"
    and "\<forall>ob \<in> {o1, o2, o3}. obj_type (info ob) = ''MESH''
           \<and> \<not> is_object_excluded_by_collection (info ob)
           \<and> (\<exists>d. extract_tree_mesh_data e (info ob) = Inr d)"
  shows "\<exists>vs inds bs tl.
     length vs = tree_vertex_count e (info o1) + tree_vertex_count e (info o2)
                 + tree_vertex_count e (info o3)
     \<and> length bs = 3 \<and> length tl = 7 \<and> (\<forall>ev \<in> set (bs @ tl). \<forall>n. ev \<noteq> WString n)
     \<and> fst (NodeWriter_write e [o1, o2, o3] s) = None
     \<and> out (snd (NodeWriter_write e [o1, o2, o3] s))
        = out s @ [WUInt 1, WString ''BlenderFile'', WUInt 1, WBool True, WMatrix identity_matrix]
          @ (if vs = [] then []
             else [WUInt 2, WString ''OAK'', WUInt 0, WBool True] @ bs
                  @ [WUInt (length vs)] @ concat (map vertex_events vs)
                  @ [WUInt (length inds)] @ map WUShort inds @ tl)"
proof -
  from assms(4) have ex: "\<forall>ob \<in> {o1, o2, o3}. \<not> is_object_excluded_by_collection (info ob)"
    and ty: "obj_type (info o1) = ''MESH''" "obj_type (info o2) = ''MESH''"
      "obj_type (info o3) = ''MESH''"
    and dd: "\<forall>ob \<in> set [o1, o3, o2]. obj_type (info ob) = ''MESH'' \<longrightarrow>
               (\<exists>d. extract_tree_mesh_data e (info ob) = Inr d)"
    by simp_all
  note g = oak_group [OF assms(1,2,3) ex]
  let ?s1 = "emit [WUInt 1, WString ''BlenderFile'', WUInt 1, WBool True, WMatrix identity_matrix] s"
  have nw: "NodeWriter_write e [o1, o2, o3] s = write_kstree_group e ''OAK'' [o1, o3, o2] ?s1"
    using NodeWriter_write_order [of e "[o1, o2, o3]" s, unfolded g(1) g(2)]
    by (simp add: g(3,4))
  from write_kstree_group_merged [OF dd, of "''OAK''" ?s1] obtain mid np vs inds where
    len: "length vs = sum_list (map (tree_vertex_count e)
                             (filter (\<lambda>ob. obj_type ob = ''MESH'') (map info [o1, o3, o2])))"
    and wk: "write_kstree_group e ''OAK'' [o1, o3, o2] ?s1
         = (None, if vs = [] then ?s1 else write_merged_mesh ''OAK'' mid np vs inds ?s1)"
    by blast
  from len ty have l: "length vs = tree_vertex_count e (info o1) + tree_vertex_count e (info o2)
                 + tree_vertex_count e (info o3)" by simp
  have f: "fst (NodeWriter_write e [o1, o2, o3] s) = None" unfolding nw wk by simp
  have o: "out (snd (NodeWriter_write e [o1, o2, o3] s))
        = out s @ [WUInt 1, WString ''BlenderFile'', WUInt 1, WBool True, WMatrix identity_matrix]
          @ (if vs = [] then []
             else [WUInt 2, WString ''OAK'', WUInt 0, WBool True] @ merged_flags np
                  @ [WUInt (length vs)] @ concat (map vertex_events vs)
                  @ [WUInt (length inds)] @ map WUShort inds @ merged_tail mid np vs)"
    unfolding nw wk by (simp add: write_merged_mesh_out emit_def)
  from l f o merged_flags_tail(1) [of np] merged_flags_tail(2) [of mid np vs]
    merged_flags_tail(3) [of np mid vs]
  show ?thesis by blast
qed


definition grass :: material where
  "grass = \<lparr>mat_name = ''grass'', active_texture = None\<rparr>"

definition example_vertices :: "UvVertex list" where
  "example_vertices =
     [\<lparr>co = (0, 0, 0), normal = (0, 1, 0), uv = (0, 0), tangent = (1, 0, 0)\<rparr>,
      \<lparr>co = (1, 0, 0), normal = (0, 1, 0), uv = (1, 0), tangent = (1, 0, 0)\<rparr>,
      \<lparr>co = (0, 0, - 1), normal = (0, 1, 0), uv = (0, - 1), tangent = (1, 0, 0)\<rparr>]"

lemma quantize_example: "quantize 0 = 0" "quantize 1 = 100000" "quantize (- 1) = - 100000"
  by (simp_all add: quantize_def py_round_def QUANT_def Let_def)

lemma example_tree_collect:
  "tree_collect (example_mesh [Some grass]) 0
   = ([(example_vertices ! 0, 0), (example_vertices ! 1, 1), (example_vertices ! 2, 2)],
      [1, 2, 0])"
  by (simp add: tree_collect_def example_mesh_def example_triangle_def example_loop_def
      loops_list_def add_face_def add_vertex_def dict_find_def tree_vertex_def
      convert_vector3_def uv_layer_def has_uvs_def flip_uv_def loop_tangent_converted_def
      UvVertex_hash_def UvVertex_eq_def approx_equal_def EPSILON_def c0_def c1_def c2_def
      quantize_example example_vertices_def)

lemma example_extract_grass:
  "extract_tree_mesh_data example_env (info (example_object name [Some grass]))
   = Inr [(example_vertices, [1, 2, 0], 0)]"
  using example_tree_collect
  by (simp add: extract_tree_mesh_data_def example_object_def used_materials_def
      example_env_def tree_material_def grass_def is_hidden_name_def vertices_list_def
      example_mesh_def example_triangle_def example_vertices_def)

lemma example_vertex_count:
  "tree_vertex_count example_env (info (example_object name [Some grass])) = 3"
  by (simp add: tree_vertex_count_def example_extract_grass example_vertices_def)

lemma example_object_facts:
  "obj_type (info (example_object name mats)) = ''MESH''"
  "\<not> is_object_excluded_by_collection (info (example_object name mats))"
  by (simp_all add: example_object_def is_object_excluded_by_collection_def)

definition quad_object :: "string \<Rightarrow> obj" where
  "quad_object name =
     Obj ((info (example_object name [Some grass]))
            \<lparr>mesh := (example_mesh [Some grass])
               \<lparr>loop_triangles :=
                  [example_triangle,
                   \<lparr>material_index = 0,
                    loops = (example_loop 1 0, example_loop 1 1, example_loop 0 1)\<rparr>]\<rparr>\<rparr>) []"

definition quad_vertices :: "UvVertex list" where
  "quad_vertices =
     example_vertices
     @ [\<lparr>co = (1, 0, - 1), normal = (0, 1, 0), uv = (1, - 1), tangent = (1, 0, 0)\<rparr>]"

lemma quad_tree_collect:
  "tree_collect (mesh (info (quad_object name))) 0
   = ([(quad_vertices ! 0, 0), (quad_vertices ! 1, 1), (quad_vertices ! 2, 2),
       (quad_vertices ! 3, 3)],
      [1, 2, 0, 3, 2, 1])"
  by (simp add: quad_object_def tree_collect_def example_mesh_def example_triangle_def
      example_loop_def example_object_def
      loops_list_def add_face_def add_vertex_def dict_find_def tree_vertex_def
      convert_vector3_def uv_layer_def has_uvs_def flip_uv_def loop_tangent_converted_def
      UvVertex_hash_def UvVertex_eq_def approx_equal_def EPSILON_def c0_def c1_def c2_def
      quantize_example example_vertices_def quad_vertices_def)

lemma quad_extract:
  "extract_tree_mesh_data example_env (info (quad_object name))
   = Inr [(quad_vertices, [1, 2, 0, 3, 2, 1], 0)]"
proof -
  let ?m = "mesh (info (quad_object name))"
  have a: "materials ?m = [Some grass]"
    by (simp add: quad_object_def example_mesh_def)
  have u: "used_materials example_env ?m = [0]"
    by (simp add: used_materials_def example_env_def quad_object_def example_mesh_def
        example_triangle_def)
  have b: "\<not> is_hidden_name (mat_name grass)" by (simp add: grass_def is_hidden_name_def)
  have d: "map_of (material_positions example_env) (mat_name grass) = Some 0"
    by (simp add: example_env_def grass_def)
  have e: "vertices_list [(quad_vertices ! 0, 0), (quad_vertices ! 1, 1), (quad_vertices ! 2, 2),
       (quad_vertices ! 3, 3)] = quad_vertices"
    by (simp add: vertices_list_def quad_vertices_def example_vertices_def)
  have "tree_material example_env ?m 0 = Inr [(quad_vertices, [1, 2, 0, 3, 2, 1], 0)]"
    using b d e by (simp add: tree_material_def a quad_tree_collect)
  then show ?thesis
    by (simp add: extract_tree_mesh_data_def a u)
qed

lemma quad_vertex_count: "tree_vertex_count example_env (info (quad_object name)) = 4"
  by (simp add: tree_vertex_count_def quad_extract quad_vertices_def example_vertices_def)

lemma quad_object_facts:
  "obj_name (info (quad_object name)) = name"
  "obj_type (info (quad_object name)) = ''MESH''"
  "\<not> is_object_excluded_by_collection (info (quad_object name))"
  "length (loop_triangles (mesh (info (quad_object name)))) = 2"
  by (simp_all add: quad_object_def example_object_def is_object_excluded_by_collection_def)


theorem instance_group_is_merged_witness:
  "obj_name (info (example_object ''KSTREE_GROUP_OAK_1'' [Some grass])) = ''KSTREE_GROUP_OAK_1''
   \<and> obj_name (info (quad_object ''kstree_group_Oak_2'')) = ''kstree_group_Oak_2''
   \<and> obj_type (info (quad_object ''kstree_group_Oak_2'')) = ''MESH''
   \<and> \<not> is_object_excluded_by_collection (info (quad_object ''kstree_group_Oak_2''))
   \<and> extract_tree_mesh_data example_env (info (example_object ''KSTREE_GROUP_OAK_1'' [Some grass]))
       = Inr [(example_vertices, [1, 2, 0], 0)]
   \<and> length (loop_triangles (mesh (info (quad_object ''kstree_group_Oak_2'')))) = 2
   \<and> extract_tree_mesh_data example_env (info (quad_object ''kstree_group_Oak_2''))
       = Inr [(quad_vertices, [1, 2, 0, 3, 2, 1], 0)]
   \<and> (\<exists>vs inds bs tl. length vs = 10 \<and> length bs = 3 \<and> length tl = 7
        \<and> fst (NodeWriter_write example_env
                 [example_object ''KSTREE_GROUP_OAK_1'' [Some grass],
                  quad_object ''kstree_group_Oak_2'',
                  example_object ''KSTREE_GROUP_OAK_3'' [Some grass]]
                 \<lparr>out = [], warnings = []\<rparr>) = None
        \<and> out (snd (NodeWriter_write example_env
                 [example_object ''KSTREE_GROUP_OAK_1'' [Some grass],
                  quad_object ''kstree_group_Oak_2'',
                  example_object ''KSTREE_GROUP_OAK_3'' [Some grass]]
                 \<lparr>out = [], warnings = []\<rparr>))
           = [WUInt 1, WString ''BlenderFile'', WUInt 1, WBool True, WMatrix identity_matrix]
             @ [WUInt 2, WString ''OAK'', WUInt 0, WBool True] @ bs
             @ [WUInt 10] @ concat (map vertex_events vs)
             @ [WUInt (length inds)] @ map WUShort inds @ tl)"
proof -
  let ?o1 = "example_object ''KSTREE_GROUP_OAK_1'' [Some grass]"
  let ?o2 = "quad_object ''kstree_group_Oak_2''"
  let ?o3 = "example_object ''KSTREE_GROUP_OAK_3'' [Some grass]"
  have h: "\<forall>ob \<in> {?o1, ?o2, ?o3}. obj_type (info ob) = ''MESH''
           \<and> \<not> is_object_excluded_by_collection (info ob)
           \<and> (\<exists>d. extract_tree_mesh_data example_env (info ob) = Inr d)"
    by (simp add: example_object_facts example_extract_grass quad_object_facts quad_extract)
  from instance_group_is_merged [of ?o1 ?o2 ?o3 example_env "\<lparr>out = [], warnings = []\<rparr>",
      OF example_object_name quad_object_facts(1) example_object_name h]
  obtain vs inds bs tl where
    l: "length vs = tree_vertex_count example_env (info ?o1)
          + tree_vertex_count example_env (info ?o2) + tree_vertex_count example_env (info ?o3)"
    and b: "length bs = 3" and t: "length tl = 7"
    and f: "fst (NodeWriter_write example_env [?o1, ?o2, ?o3] \<lparr>out = [], warnings = []\<rparr>) = None"
    and o: "out (snd (NodeWriter_write example_env [?o1, ?o2, ?o3] \<lparr>out = [], warnings = []\<rparr>))
        = out \<lparr>out = [], warnings = []\<rparr>
          @ [WUInt 1, WString ''BlenderFile'', WUInt 1, WBool True, WMatrix identity_matrix]
          @ (if vs = [] then []
             else [WUInt 2, WString ''OAK'', WUInt 0, WBool True] @ bs
                  @ [WUInt (length vs)] @ concat (map vertex_events vs)
                  @ [WUInt (length inds)] @ map WUShort inds @ tl)"
    by blast
  from l have l10: "length vs = 10" by (simp add: example_vertex_count quad_vertex_count)
  then have ne: "vs \<noteq> []" by auto
  from o ne l10 have o': "out (snd (NodeWriter_write example_env [?o1, ?o2, ?o3]
                 \<lparr>out = [], warnings = []\<rparr>))
           = [WUInt 1, WString ''BlenderFile'', WUInt 1, WBool True, WMatrix identity_matrix]
             @ [WUInt 2, WString ''OAK'', WUInt 0, WBool True] @ bs
             @ [WUInt 10] @ concat (map vertex_events vs)
             @ [WUInt (length inds)] @ map WUShort inds @ tl"
    by simp
  from l10 b t f o' have "\<exists>vs inds bs tl. length vs = 10 \<and> length bs = 3 \<and> length tl = 7
        \<and> fst (NodeWriter_write example_env [?o1, ?o2, ?o3] \<lparr>out = [], warnings = []\<rparr>) = None
        \<and> out (snd (NodeWriter_write example_env [?o1, ?o2, ?o3] \<lparr>out = [], warnings = []\<rparr>))
           = [WUInt 1, WString ''BlenderFile'', WUInt 1, WBool True, WMatrix identity_matrix]
             @ [WUInt 2, WString ''OAK'', WUInt 0, WBool True] @ bs
             @ [WUInt 10] @ concat (map vertex_events vs)
             @ [WUInt (length inds)] @ map WUShort inds @ tl"
    by blast
  with example_object_name [of "''KSTREE_GROUP_OAK_1''" "[Some grass]"]
    quad_object_facts [of "''kstree_group_Oak_2''"]
    example_extract_grass [of "''KSTREE_GROUP_OAK_1''"]
    quad_extract [of "''kstree_group_Oak_2''"]
  show ?thesis by blast
qed


lemma example_split_collect:
  "split_collect (info (example_object name [Some grass])) grass 0 ([], [])
     (loop_triangles (example_mesh [Some grass]))
   = Inr ([(example_vertices ! 0, 0), (example_vertices ! 1, 1), (example_vertices ! 2, 2)],
          [1, 2, 0])"
  by (simp add: example_object_def example_mesh_def example_triangle_def example_loop_def
      loops_list_def add_face_def add_vertex_def dict_find_def split_vertex_def
      convert_vector3_def uv_layer_def has_uvs_def flip_uv_def loop_tangent_converted_def
      UvVertex_hash_def UvVertex_eq_def approx_equal_def EPSILON_def c0_def c1_def c2_def
      quantize_example example_vertices_def)

lemma example_split_grass:
  "split_object_by_materials example_env (info (example_object name [Some grass]))
   = Inr [\<lparr>material_id = Some 0, vertices = example_vertices, indices = [1, 2, 0]\<rparr>]"
proof -
  let ?i = "info (example_object name [Some grass])"
  have m: "mesh ?i = example_mesh [Some grass]" by (simp add: example_object_def)
  have a: "materials (mesh ?i) = [Some grass]" by (simp add: m example_mesh_def)
  have b: "\<not> is_hidden_name (mat_name grass)" by (simp add: grass_def is_hidden_name_def)
  have c: "split_collect ?i grass 0 ([], []) (loop_triangles (mesh ?i))
      = Inr ([(example_vertices ! 0, 0), (example_vertices ! 1, 1), (example_vertices ! 2, 2)],
             [1, 2, 0])"
    unfolding m by (rule example_split_collect)
  have d: "map_of (material_positions example_env) (mat_name grass) = Some 0"
    by (simp add: example_env_def grass_def)
  have e: "vertices_list [(example_vertices ! 0, 0), (example_vertices ! 1, 1),
                          (example_vertices ! 2, 2)] = example_vertices"
    by (simp add: vertices_list_def example_vertices_def)
  have u: "used_materials example_env (mesh ?i) = [0]"
    by (simp add: used_materials_def example_env_def m example_mesh_def example_triangle_def)
  have "split_material example_env ?i 0
      = Inr [\<lparr>material_id = Some 0, vertices = example_vertices, indices = [1, 2, 0]\<rparr>]"
    using b d e by (simp add: split_material_def a c)
  then show ?thesis
    unfolding split_object_by_materials_def u a by simp
qed

lemma write_mesh_out:
  "length (vertices m) \<le> MAX_VERTICES_PER_MESH \<Longrightarrow>
   \<exists>es. out (snd (write_mesh name m np s)) = out s @ [WUInt 2, WString name] @ es"
  by (cases "material_id m")
     (simp_all add: write_mesh_def Let_def emit_def warn_def out_write_bounding_sphere
        NODE_TYPE_Mesh_def)

lemma example_write_object:
  assumes "\<not> is_hidden_name name"
  shows "fst (write_object example_env False (example_object name [Some grass]) s) = None"
    and "\<exists>es. out (snd (write_object example_env False (example_object name [Some grass]) s))
              = out s @ [WUInt 2, WString name] @ es"
proof -
  let ?m = "\<lparr>material_id = Some 0, vertices = example_vertices, indices = [1, 2, 0]\<rparr>"
  let ?i = "info (example_object name [Some grass])"
  let ?np = "node_properties_of ?i"
  have le: "length (vertices ?m) \<le> MAX_VERTICES_PER_MESH"
    by (simp add: MAX_VERTICES_PER_MESH_def example_vertices_def)
  then have sm: "split_meshes_for_vertex_limit [?m] = Inr [?m]"
    by (simp add: split_meshes_for_vertex_limit_def)
  obtain s1 where wm: "write_mesh name ?m ?np s = (None, s1)"
    using write_mesh_accepts [OF le, of name ?np s] by (metis prod.collapse)
  have "write_mesh_node example_env False ?i s = write_meshes (obj_name ?i) [?m] ?np s"
    unfolding write_mesh_node_def example_split_grass sum.case sm Let_def by simp
  then have wn: "write_mesh_node example_env False ?i s = (None, s1)"
    using wm by (simp add: example_object_name)
  have ob: "example_object name [Some grass] = Obj ?i []"
    by (simp add: example_object_def)
  have ty: "obj_type ?i = ''MESH''" by (rule example_object_facts)
  have "write_object example_env False (Obj ?i []) s = (None, s1)"
    using assms ty wn by (simp add: example_object_name)
  then have wo: "write_object example_env False (example_object name [Some grass]) s = (None, s1)"
    using ob by simp
  from wo show "fst (write_object example_env False (example_object name [Some grass]) s) = None"
    by simp
  from write_mesh_out [OF le, of name ?np s] wm wo
  show "\<exists>es. out (snd (write_object example_env False (example_object name [Some grass]) s))
              = out s @ [WUInt 2, WString name] @ es"
    by simp
qed

definition plain_oaks :: "obj list" where
  "plain_oaks = [example_object ''GROUP_OAK_1'' [Some grass],
                 example_object ''group_Oak_2'' [Some grass],
                 example_object ''GROUP_OAK_3'' [Some grass]]"

lemma plain_oaks_collect: "collect_and_group_objects plain_oaks = (plain_oaks, [])"
proof -
  have c: "children (example_object ''GROUP_OAK_1'' [Some grass]) = []"
    "children (example_object ''group_Oak_2'' [Some grass]) = []"
    "children (example_object ''GROUP_OAK_3'' [Some grass]) = []"
    by (simp_all add: example_object_def)
  have "foldl collect_step ([], []) plain_oaks = (plain_oaks, [])"
    by (simp add: plain_oaks_def collect_step_def example_object_name oak_names_not_hidden
        example_object_facts group_names_without_prefix)
  then show ?thesis
    by (simp add: collect_and_group_objects_def) (simp add: plain_oaks_def c)
qed

text \<open>
  C5 as stated fails: the names \<open>GROUP_OAK_1\<close>, \<open>group_Oak_2\<close> and \<open>GROUP_OAK_3\<close> do not
  match the pattern of the code, which requires the prefix \<open>KSTREE_GROUP_\<close>. Three mesh
  objects with these names, each with one triangle under an assigned material, are
  ordinary objects: no instance group is formed, the root is written with the child
  count 3 and three mesh nodes follow, each under the name of its object.
\<close>

theorem names_without_prefix_are_not_merged:
  "get_kstree_group_name ''GROUP_OAK_1'' = None
   \<and> get_kstree_group_name ''group_Oak_2'' = None
   \<and> get_kstree_group_name ''GROUP_OAK_3'' = None
   \<and> collect_and_group_objects plain_oaks = (plain_oaks, [])
   \<and> fst (NodeWriter_write example_env plain_oaks \<lparr>out = [], warnings = []\<rparr>) = None
   \<and> (\<exists>es1 es2 es3.
         out (snd (NodeWriter_write example_env plain_oaks \<lparr>out = [], warnings = []\<rparr>))
         = [WUInt 1, WString ''BlenderFile'', WUInt 3, WBool True, WMatrix identity_matrix]
           @ [WUInt 2, WString ''GROUP_OAK_1''] @ es1
           @ [WUInt 2, WString ''group_Oak_2''] @ es2
           @ [WUInt 2, WString ''GROUP_OAK_3''] @ es3)"
proof -
  let ?s0 = "\<lparr>out = [], warnings = []\<rparr>"
  let ?s1 = "emit [WUInt 1, WString ''BlenderFile'', WUInt 3, WBool True, WMatrix identity_matrix] ?s0"
  let ?o1 = "example_object ''GROUP_OAK_1'' [Some grass]"
  let ?o2 = "example_object ''group_Oak_2'' [Some grass]"
  let ?o3 = "example_object ''GROUP_OAK_3'' [Some grass]"
  obtain s2 where w1: "write_object example_env False ?o1 ?s1 = (None, s2)"
    using example_write_object(1) [OF oak_names_not_hidden(4), of ?s1] by (metis prod.collapse)
  obtain s3 where w2: "write_object example_env False ?o2 s2 = (None, s3)"
    using example_write_object(1) [OF oak_names_not_hidden(5), of s2] by (metis prod.collapse)
  obtain s4 where w3: "write_object example_env False ?o3 s3 = (None, s4)"
    using example_write_object(1) [OF oak_names_not_hidden(6), of s3] by (metis prod.collapse)
  from example_write_object(2) [OF oak_names_not_hidden(4), of ?s1] w1 obtain es1
    where o2: "out s2 = out ?s1 @ [WUInt 2, WString ''GROUP_OAK_1''] @ es1" by auto
  from example_write_object(2) [OF oak_names_not_hidden(5), of s2] w2 obtain es2
    where o3: "out s3 = out s2 @ [WUInt 2, WString ''group_Oak_2''] @ es2" by auto
  from example_write_object(2) [OF oak_names_not_hidden(6), of s3] w3 obtain es3
    where o4: "out s4 = out s3 @ [WUInt 2, WString ''GROUP_OAK_3''] @ es3" by auto
  have root: "write_base_node_data ''BlenderFile'' 3 True identity_matrix ?s0 = ?s1"
    by (simp add: write_base_node_data_def NODE_TYPE_Node_def)
  have n0: "NodeWriter_write example_env plain_oaks ?s0
      = write_objects example_env plain_oaks
          (write_base_node_data ''BlenderFile'' (length plain_oaks) True identity_matrix ?s0)"
    by (simp add: NodeWriter_write_def plain_oaks_collect Let_def)
  have len: "length plain_oaks = 3" by (simp add: plain_oaks_def)
  have n1: "NodeWriter_write example_env plain_oaks ?s0 = write_objects example_env plain_oaks ?s1"
    unfolding n0 len root ..
  have n2: "write_objects example_env plain_oaks ?s1 = (None, s4)"
    unfolding plain_oaks_def write_objects.simps w1 by (simp add: w2 w3)
  from n1 n2 have nw: "NodeWriter_write example_env plain_oaks ?s0 = (None, s4)" by simp
  have "out s4 = [WUInt 1, WString ''BlenderFile'', WUInt 3, WBool True, WMatrix identity_matrix]
           @ [WUInt 2, WString ''GROUP_OAK_1''] @ es1
           @ [WUInt 2, WString ''group_Oak_2''] @ es2
           @ [WUInt 2, WString ''GROUP_OAK_3''] @ es3"
    by (simp add: o4 o3 o2 emit_def)
  with nw group_names_without_prefix plain_oaks_collect show ?thesis by auto
qed

end
